(* ===== verification/Prelude.thy ===== *)
theory Prelude
  imports Main "HOL-Library.AList"
begin

text \<open>
  The JavaScript runtime the scripts of the user interface rely on: strings (a HOL
  \<open>string\<close>, one \<open>char\<close> per code unit below 256), objects (association lists in
  insertion order), arrays (lists, with the index conventions of \<open>slice\<close>, \<open>at\<close> and
  \<open>indexOf\<close>), truthiness, \<open>parseInt\<close>, and the outcome of a handler, which either
  finishes or throws but keeps the effects it had before the throw. The lemmas here are
  shared by every component; the collection \<open>js_simps\<close> holds the rewriting rules.
\<close>

named_theorems js_simps \<open>rewriting rules for the runtime of the scripts\<close>

section \<open>Outcomes of a handler\<close>

datatype js_error = TypeError | SyntaxError | HierarchyError

datatype 's outcome = Done 's | Throw js_error 's

fun and_then :: "'s outcome \<Rightarrow> ('s \<Rightarrow> 's outcome) \<Rightarrow> 's outcome" where
  "and_then (Done s) f = f s"
| "and_then (Throw e s) f = Throw e s"

fun final_state :: "'s outcome \<Rightarrow> 's" where
  "final_state (Done s) = s"
| "final_state (Throw e s) = s"

fun completed :: "'s outcome \<Rightarrow> bool" where
  "completed (Done s) = True"
| "completed (Throw e s) = False"

lemma and_then_Done_iff [simp]:
  "and_then r f = Done t \<longleftrightarrow> (\<exists>s. r = Done s \<and> f s = Done t)"
  by (cases r) auto

lemma and_then_Done_right [simp]: "and_then r Done = r"
  by (cases r) auto

lemma completed_iff: "completed r \<longleftrightarrow> (\<exists>s. r = Done s)"
  by (cases r) auto

text \<open>\<open>xs.forEach(f)\<close> with a handler that may throw: the rest is skipped then.\<close>

fun run_all :: "('a \<Rightarrow> 's \<Rightarrow> 's outcome) \<Rightarrow> 'a list \<Rightarrow> 's \<Rightarrow> 's outcome" where
  "run_all f [] s = Done s"
| "run_all f (x # xs) s = and_then (f x s) (run_all f xs)"

lemma run_all_append: "run_all f (xs @ ys) s = and_then (run_all f xs s) (run_all f ys)"
proof (induction xs arbitrary: s)
  case (Cons x xs)
  then show ?case by (cases "f x s") auto
qed simp

lemma final_and_then: "final_state (and_then r f) = (case r of Done s \<Rightarrow> final_state (f s) | Throw e s \<Rightarrow> s)"
  by (cases r) auto

lemma run_all_keeps:
  assumes "\<And>x s. g (final_state (f x s)) = g s"
  shows "g (final_state (run_all f xs s)) = g s"
proof (induction xs arbitrary: s)
  case (Cons x xs)
  show ?case
  proof (cases "f x s")
    case (Done t)
    with assms [of x s] Cons [of t] show ?thesis by simp
  next
    case (Throw e t)
    with assms [of x s] show ?thesis by simp
  qed
qed simp

section \<open>Arrays\<close>

text \<open>\<open>xs.indexOf(x)\<close> is the first index or \<open>-1\<close>; \<open>xs.findIndex(p)\<close> likewise.\<close>

fun find_index :: "('a \<Rightarrow> bool) \<Rightarrow> 'a list \<Rightarrow> int" where
  "find_index p [] = -1"
| "find_index p (x # xs) =
     (if p x then 0 else let i = find_index p xs in if i < 0 then -1 else i + 1)"

definition index_of :: "'a \<Rightarrow> 'a list \<Rightarrow> int" where
  "index_of x xs = find_index (\<lambda>y. y = x) xs"

text \<open>\<open>xs.at(i)\<close> counts from the end for a negative \<open>i\<close>, and is \<open>undefined\<close> out of range.\<close>

definition js_at :: "int \<Rightarrow> 'a list \<Rightarrow> 'a option" where
  "js_at i xs =
     (let n = int (length xs); j = (if i < 0 then n + i else i)
      in if 0 \<le> j \<and> j < n then Some (xs ! nat j) else None)"

text \<open>\<open>xs.slice(a, b)\<close>: both bounds count from the end when negative and are clipped.\<close>

definition slice_bound :: "int \<Rightarrow> nat \<Rightarrow> nat" where
  "slice_bound a n = (if a < 0 then nat (max (int n + a) 0) else min (nat a) n)"

definition js_slice :: "int \<Rightarrow> int \<Rightarrow> 'a list \<Rightarrow> 'a list" where
  "js_slice a b xs =
     (let n = length xs in take (slice_bound b n - slice_bound a n) (drop (slice_bound a n) xs))"

lemma find_index_ge: "-1 \<le> find_index p xs"
  by (induction xs) (auto simp: Let_def)

lemma find_index_lt: "find_index p xs < int (length xs)"
  by (induction xs) (auto simp: Let_def)

lemma find_index_neg_iff: "find_index p xs < 0 \<longleftrightarrow> (\<forall>x \<in> set xs. \<not> p x)"
  by (induction xs) (auto simp: Let_def)

lemma find_index_nth: "0 \<le> find_index p xs \<Longrightarrow> p (xs ! nat (find_index p xs))"
proof (induction xs)
  case Nil
  then show ?case by simp
next
  case (Cons x xs)
  then show ?case
    by (auto simp: Let_def nat_add_distrib split: if_splits)
qed

lemma find_index_eqI:
  "i < length xs \<Longrightarrow> p (xs ! i) \<Longrightarrow> (\<And>j. j < i \<Longrightarrow> \<not> p (xs ! j)) \<Longrightarrow>
   find_index p xs = int i"
proof (induction xs arbitrary: i)
  case Nil
  then show ?case by simp
next
  case (Cons x xs)
  show ?case
  proof (cases i)
    case 0
    with Cons.prems show ?thesis by simp
  next
    case (Suc k)
    have "\<not> p x" using Cons.prems(3) [of 0] Suc by simp
    moreover have "find_index p xs = int k"
    proof (rule Cons.IH)
      show "k < length xs" and "p (xs ! k)" using Cons.prems Suc by simp_all
      show "\<not> p (xs ! j)" if "j < k" for j
        using Cons.prems(3) [of "Suc j"] Suc that by simp
    qed
    ultimately show ?thesis using Suc by simp
  qed
qed

lemma index_of_nth: "distinct xs \<Longrightarrow> i < length xs \<Longrightarrow> index_of (xs ! i) xs = int i"
  unfolding index_of_def by (rule find_index_eqI) (auto simp: nth_eq_iff_index_eq)

lemma index_of_neg_iff: "index_of x xs < 0 \<longleftrightarrow> x \<notin> set xs"
  by (auto simp: index_of_def find_index_neg_iff)

lemma nth_index_of: "x \<in> set xs \<Longrightarrow> xs ! nat (index_of x xs) = x"
  using find_index_nth [of "\<lambda>y. y = x" xs] index_of_neg_iff [of x xs]
  by (auto simp: index_of_def)

lemma index_of_bounds: "x \<in> set xs \<Longrightarrow> 0 \<le> index_of x xs \<and> index_of x xs < int (length xs)"
  using index_of_neg_iff [of x xs] find_index_lt [of "\<lambda>y. y = x" xs]
  by (simp add: index_of_def)

lemma set_js_slice_subset: "set (js_slice a b xs) \<subseteq> set xs"
  by (auto simp: js_slice_def Let_def dest: in_set_takeD in_set_dropD)

lemma js_slice_nonneg:
  "0 \<le> a \<Longrightarrow> 0 \<le> b \<Longrightarrow> js_slice a b xs = take (min (nat b) (length xs) - nat a) (drop (nat a) xs)"
  by (auto simp: js_slice_def slice_bound_def Let_def min_def)

lemma set_js_slice_range:
  assumes "0 \<le> a" and "b < int (length xs)" and "a \<le> b"
  shows "set (js_slice a (b + 1) xs) = {xs ! i | i. a \<le> int i \<and> int i \<le> b}"
proof -
  have eq: "js_slice a (b + 1) xs = take (nat b + 1 - nat a) (drop (nat a) xs)"
    using assms by (simp add: js_slice_nonneg min_def nat_add_distrib)
  have "set (take (nat b + 1 - nat a) (drop (nat a) xs)) = {xs ! i | i. nat a \<le> i \<and> i \<le> nat b}"
    (is "?L = ?R")
  proof
    show "?L \<subseteq> ?R"
    proof
      fix x assume "x \<in> ?L"
      then obtain k where k: "k < nat b + 1 - nat a" and x: "x = xs ! (nat a + k)"
        using assms by (auto simp: in_set_conv_nth)
      then show "x \<in> ?R" by auto
    qed
  next
    show "?R \<subseteq> ?L"
    proof
      fix x assume "x \<in> ?R"
      then obtain i where i: "nat a \<le> i" "i \<le> nat b" "x = xs ! i" by auto
      then have "i - nat a < length (take (nat b + 1 - nat a) (drop (nat a) xs))"
        and "take (nat b + 1 - nat a) (drop (nat a) xs) ! (i - nat a) = x"
        using assms by auto
      then show "x \<in> ?L" by (metis nth_mem)
    qed
  qed
  moreover have "{xs ! i | i. nat a \<le> i \<and> i \<le> nat b} = {xs ! i | i. a \<le> int i \<and> int i \<le> b}"
    using assms by (simp add: nat_le_iff le_nat_iff)
  ultimately show ?thesis using eq by simp
qed

lemma js_at_nonneg: "0 \<le> i \<Longrightarrow> i < int (length xs) \<Longrightarrow> js_at i xs = Some (xs ! nat i)"
  by (simp add: js_at_def Let_def)

lemma js_at_last: "xs \<noteq> [] \<Longrightarrow> js_at (-1) xs = Some (last xs)"
  by (cases xs rule: rev_cases) (auto simp: js_at_def Let_def nth_append nat_eq_iff)

lemma filter_eq_single: "distinct xs \<Longrightarrow> x \<in> set xs \<Longrightarrow> filter (\<lambda>y. y = x) xs = [x]"
  by (induction xs) (auto simp: filter_empty_conv)

section \<open>Objects in insertion order\<close>

text \<open>
  An object is its list of entries. A write to a key that is there keeps the place of the
  entry, a write to a new key appends it (\<open>AList.update\<close>); \<open>delete\<close> drops it; a spread
  \<open>{...a, ...b}\<close> writes the entries of \<open>b\<close> into \<open>a\<close>.
\<close>

type_synonym 'a obj = "(string \<times> 'a) list"

abbreviation oget :: "'a obj \<Rightarrow> string \<Rightarrow> 'a option" where
  "oget \<equiv> map_of"

abbreviation oset :: "string \<Rightarrow> 'a \<Rightarrow> 'a obj \<Rightarrow> 'a obj" where
  "oset \<equiv> AList.update"

abbreviation odel :: "string \<Rightarrow> 'a obj \<Rightarrow> 'a obj" where
  "odel \<equiv> AList.delete"

fun ospread :: "'a obj \<Rightarrow> 'a obj \<Rightarrow> 'a obj" where
  "ospread a [] = a"
| "ospread a ((k, v) # b) = ospread (oset k v a) b"

definition wf_obj :: "'a obj \<Rightarrow> bool" where
  "wf_obj ob \<longleftrightarrow> distinct (map fst ob)"

lemma oget_oset [simp]: "oget (oset k v ob) k' = (if k' = k then Some v else oget ob k')"
  by (simp add: update_conv')

lemma oget_odel [simp]: "oget (odel k ob) k' = (if k' = k then None else oget ob k')"
  by (simp add: delete_conv')

lemma wf_obj_oset [simp]: "wf_obj ob \<Longrightarrow> wf_obj (oset k v ob)"
  by (simp add: wf_obj_def distinct_update)

lemma wf_obj_odel [simp]: "wf_obj ob \<Longrightarrow> wf_obj (odel k ob)"
  by (simp add: wf_obj_def distinct_delete)

lemma wf_obj_ospread [simp]: "wf_obj a \<Longrightarrow> wf_obj (ospread a b)"
  by (induction a b rule: ospread.induct) auto

lemma oget_ospread:
  "wf_obj b \<Longrightarrow> oget (ospread a b) k = (case oget b k of None \<Rightarrow> oget a k | Some v \<Rightarrow> Some v)"
proof (induction a b rule: ospread.induct)
  case (2 a k' v b)
  then have "oget b k' = None" by (auto simp: wf_obj_def map_of_eq_None_iff)
  with 2 show ?case by (auto simp: wf_obj_def split: option.splits)
qed simp

section \<open>Strings\<close>

definition js_space :: "char \<Rightarrow> bool" where
  "js_space c \<longleftrightarrow> of_char c \<in> {9, 10, 11, 12, 13, 32, 160 :: nat}"

definition is_upper :: "char \<Rightarrow> bool" where
  "is_upper c \<longleftrightarrow> (65 :: nat) \<le> of_char c \<and> of_char c \<le> (90 :: nat)"

definition is_lower :: "char \<Rightarrow> bool" where
  "is_lower c \<longleftrightarrow> (97 :: nat) \<le> of_char c \<and> of_char c \<le> (122 :: nat)"

definition is_digit :: "char \<Rightarrow> bool" where
  "is_digit c \<longleftrightarrow> (48 :: nat) \<le> of_char c \<and> of_char c \<le> (57 :: nat)"

text \<open>\<open>toLowerCase\<close> on code units below 256: ASCII and the Latin-1 capitals (215 is the multiplication sign).\<close>

definition lower_char :: "char \<Rightarrow> char" where
  "lower_char c =
     (let n = (of_char c :: nat)
      in if (65 \<le> n \<and> n \<le> 90) \<or> (192 \<le> n \<and> n \<le> 222 \<and> n \<noteq> 215) then char_of (n + 32) else c)"

definition to_lower :: "string \<Rightarrow> string" where
  "to_lower s = map lower_char s"

definition trim_start :: "string \<Rightarrow> string" where
  "trim_start s = dropWhile js_space s"

definition js_trim :: "string \<Rightarrow> string" where
  "js_trim s = rev (dropWhile js_space (rev (dropWhile js_space s)))"

fun starts_with :: "string \<Rightarrow> string \<Rightarrow> bool" where
  "starts_with [] s = True"
| "starts_with (p # ps) [] = False"
| "starts_with (p # ps) (c # s) = (p = c \<and> starts_with ps s)"

definition ends_with :: "string \<Rightarrow> string \<Rightarrow> bool" where
  "ends_with p s = starts_with (rev p) (rev s)"

fun includes_str :: "string \<Rightarrow> string \<Rightarrow> bool" where
  "includes_str p [] = (p = [])"
| "includes_str p (c # s) = (starts_with p (c # s) \<or> includes_str p s)"

text \<open>\<open>s.split(c)\<close> for a separator of one code unit, and \<open>parts.join(sep)\<close>.\<close>

fun split_char :: "char \<Rightarrow> string \<Rightarrow> string list" where
  "split_char c [] = [[]]"
| "split_char c (x # s) =
     (if x = c then [] # split_char c s
      else (case split_char c s of [] \<Rightarrow> [[x]] | w # ws \<Rightarrow> (x # w) # ws))"

text \<open>\<open>s.split(sep)\<close> for a longer separator.\<close>

function split_str :: "string \<Rightarrow> string \<Rightarrow> string list" where
  "split_str sep [] = [[]]"
| "split_str sep (x # s) =
     (if sep \<noteq> [] \<and> starts_with sep (x # s) then [] # split_str sep (drop (length sep) (x # s))
      else (case split_str sep s of [] \<Rightarrow> [[x]] | w # ws \<Rightarrow> (x # w) # ws))"
  by pat_completeness auto
termination
  by (relation "measure (\<lambda>(sep, s). length s)") auto

fun join_str :: "string \<Rightarrow> string list \<Rightarrow> string" where
  "join_str sep [] = []"
| "join_str sep [w] = w"
| "join_str sep (w # v # ws) = w @ sep @ join_str sep (v # ws)"

lemma starts_with_iff: "starts_with p s \<longleftrightarrow> (\<exists>t. s = p @ t)"
  by (induction p s rule: starts_with.induct) auto

lemma starts_with_append [simp]: "starts_with p (p @ s)"
  by (auto simp: starts_with_iff)

lemma split_char_nonempty [simp]: "split_char c s \<noteq> []"
  by (induction s) (auto split: list.splits)

lemma split_char_no_sep: "c \<notin> set s \<Longrightarrow> split_char c s = [s]"
  by (induction s) auto

lemma split_char_append:
  "c \<notin> set a \<Longrightarrow> split_char c (a @ c # s) = a # split_char c s"
  by (induction a) auto

lemma join_str_Cons: "join_str sep (w # ws) = (if ws = [] then w else w @ sep @ join_str sep ws)"
  by (cases ws) auto

lemma join_split_char: "join_str [c] (split_char c s) = s"
proof (induction s)
  case (Cons x s)
  obtain w ws where "split_char c s = w # ws" by (cases "split_char c s") auto
  with Cons show ?case by (auto simp: join_str_Cons)
qed simp

lemma split_join_char:
  "ws \<noteq> [] \<Longrightarrow> \<forall>w \<in> set ws. c \<notin> set w \<Longrightarrow> split_char c (join_str [c] ws) = ws"
  by (induction ws rule: induct_list012) (auto simp: split_char_no_sep split_char_append)

lemma split_str_no_sep: "c \<notin> set w \<Longrightarrow> split_str (c # sep) w = [w]"
  by (induction w) auto

lemma split_str_append:
  "c \<notin> set w \<Longrightarrow> split_str (c # sep) (w @ (c # sep) @ s) = w # split_str (c # sep) s"
proof (induction w)
  case Nil
  have "starts_with (c # sep) ((c # sep) @ s)" by (rule starts_with_append)
  then show ?case by simp
qed auto

lemma split_join_str:
  "ws \<noteq> [] \<Longrightarrow> \<forall>w \<in> set ws. c \<notin> set w \<Longrightarrow> split_str (c # sep) (join_str (c # sep) ws) = ws"
proof (induction ws rule: induct_list012)
  case (3 w v ws)
  then show ?case
    using split_str_append [of c w sep "join_str (c # sep) (v # ws)"]
    by (simp del: split_str.simps)
qed (auto simp: split_str_no_sep)

text \<open>
  The replacement text of \<open>replace\<close> with a string pattern: \<open>$$\<close>, \<open>$&\<close> and the parts
  before and after the match are special.
\<close>

fun expand :: "string \<Rightarrow> string \<Rightarrow> string \<Rightarrow> string \<Rightarrow> string" where
  "expand pre m post [] = []"
| "expand pre m post [c] = [c]"
| "expand pre m post (c # d # s) =
     (if c = CHR ''$'' then
        if d = CHR ''$'' then CHR ''$'' # expand pre m post s
        else if d = CHR ''&'' then m @ expand pre m post s
        else if d = CHR 0x60 then pre @ expand pre m post s
        else if d = CHR 0x27 then post @ expand pre m post s
        else c # expand pre m post (d # s)
      else c # expand pre m post (d # s))"

fun replace_first :: "string \<Rightarrow> string \<Rightarrow> string \<Rightarrow> string \<Rightarrow> string" where
  "replace_first pat r pre [] = (if pat = [] then expand (rev pre) pat [] r else [])"
| "replace_first pat r pre (c # s) =
     (if starts_with pat (c # s)
      then expand (rev pre) pat (drop (length pat) (c # s)) r @ drop (length pat) (c # s)
      else c # replace_first pat r (c # pre) s)"

lemma expand_plain: "CHR ''$'' \<notin> set r \<Longrightarrow> expand pre m post r = r"
  by (induction pre m post r rule: expand.induct) auto

lemma replace_first_plain:
  assumes "CHR ''$'' \<notin> set r" and "CHR ''%'' \<notin> set a"
  shows "replace_first ''%s'' r pre (a @ ''%s'' @ b) = a @ r @ b"
  using assms(2) by (induction a arbitrary: pre) (auto simp: expand_plain assms(1))

section \<open>Numbers as strings\<close>

function show_nat :: "nat \<Rightarrow> string" where
  "show_nat n = (if n < 10 then [char_of (48 + n)] else show_nat (n div 10) @ [char_of (48 + n mod 10)])"
  by pat_completeness auto
termination
  by (relation "measure id") auto

declare show_nat.simps [simp del]

definition show_int :: "int \<Rightarrow> string" where
  "show_int i = (if i < 0 then CHR ''-'' # show_nat (nat (- i)) else show_nat (nat i))"

definition digit_val :: "char \<Rightarrow> nat" where
  "digit_val c = of_char c - 48"

definition digits_val :: "string \<Rightarrow> int" where
  "digits_val s = fold (\<lambda>c n. 10 * n + int (digit_val c)) s 0"

text \<open>
  \<open>parseInt(s, 10)\<close>: leading white space and a sign, then the longest run of digits;
  \<open>None\<close> is \<open>NaN\<close>.
\<close>

definition parse_int :: "string \<Rightarrow> int option" where
  "parse_int s =
     (let t = trim_start s;
          neg = (case t of c # _ \<Rightarrow> c = CHR ''-'' | [] \<Rightarrow> False);
          u = (case t of c # r \<Rightarrow> if c = CHR ''-'' \<or> c = CHR ''+'' then r else t | [] \<Rightarrow> t);
          ds = takeWhile is_digit u
      in if ds = [] then None
         else Some (if neg then - digits_val ds else digits_val ds))"

lemma digits_val_snoc: "digits_val (s @ [c]) = 10 * digits_val s + int (digit_val c)"
  by (simp add: digits_val_def)

lemma of_char_digit: "n < 10 \<Longrightarrow> (of_char (char_of (48 + n) :: char) :: nat) = 48 + n"
  by simp

lemma is_digit_char_of: "(n :: nat) < 10 \<Longrightarrow> is_digit (char_of (48 + n))"
  by (simp add: is_digit_def)

lemma show_nat_digits: "\<forall>c \<in> set (show_nat n). is_digit c"
proof (induction n rule: show_nat.induct)
  case (1 n)
  then show ?case
    by (subst show_nat.simps) (auto intro: is_digit_char_of)
qed

lemma show_nat_nonempty [simp]: "show_nat n \<noteq> []"
  by (subst show_nat.simps) simp

lemma digits_val_show_nat: "digits_val (show_nat n) = int n"
proof (induction n rule: show_nat.induct)
  case (1 n)
  show ?case
  proof (cases "n < 10")
    case True
    then show ?thesis by (subst show_nat.simps) (simp add: digits_val_def digit_val_def)
  next
    case False
    moreover have "10 * int (n div 10) + int (n mod 10) = int n" by presburger
    ultimately show ?thesis using 1
      by (subst show_nat.simps) (simp add: digits_val_snoc digit_val_def)
  qed
qed

lemma digit_not_space: "is_digit c \<Longrightarrow> \<not> js_space c \<and> c \<noteq> CHR ''-'' \<and> c \<noteq> CHR ''+''"
  by (auto simp: is_digit_def js_space_def)

lemma parse_int_digits:
  assumes "is_digit c" and "\<forall>d \<in> set r. is_digit d"
  shows "parse_int (c # r) = Some (digits_val (c # r))"
proof -
  have "takeWhile is_digit (c # r) = c # r"
    using assms by (simp add: takeWhile_eq_all_conv)
  then show ?thesis
    using digit_not_space [OF assms(1)] by (simp add: parse_int_def trim_start_def Let_def)
qed

lemma parse_int_show_nat: "parse_int (show_nat n) = Some (int n)"
proof (cases "show_nat n")
  case (Cons c r)
  then have "is_digit c" and "\<forall>d \<in> set r. is_digit d" using show_nat_digits [of n] by auto
  then show ?thesis
    using parse_int_digits [of c r] digits_val_show_nat [of n] unfolding Cons by presburger
qed simp

lemma show_nat_inj: "show_nat m = show_nat n \<Longrightarrow> m = n"
  by (metis digits_val_show_nat of_nat_eq_iff)

section \<open>The query of an address\<close>

text \<open>\<open>searchParams.set\<close>: the first entry of the key takes the value, the others go.\<close>

fun params_set :: "string \<Rightarrow> string \<Rightarrow> (string \<times> string) list \<Rightarrow> (string \<times> string) list" where
  "params_set k v [] = [(k, v)]"
| "params_set k v ((k', v') # ps) =
     (if k' = k then (k, v) # filter (\<lambda>q. fst q \<noteq> k) ps else (k', v') # params_set k v ps)"

lemma params_set_get: "map_of (params_set k v ps) k' = (if k' = k then Some v else map_of ps k')"
proof (induction ps)
  case (Cons q ps)
  have "k' \<noteq> k \<Longrightarrow> map_of (filter (\<lambda>q. fst q \<noteq> k) ps) k' = map_of ps k'"
    by (induction ps) auto
  with Cons show ?case by (cases q) auto
qed simp

lemma params_set_once: "length (filter (\<lambda>q. fst q = k) (params_set k v ps)) = 1"
  by (induction k v ps rule: params_set.induct) auto

section \<open>Folding effects over elements\<close>

lemma fold_preserves:
  "(\<And>x s. x \<in> set xs \<Longrightarrow> P s \<Longrightarrow> P (f x s)) \<Longrightarrow> P s \<Longrightarrow> P (fold f xs s)"
  by (induction xs arbitrary: s) auto

lemma fold_frame:
  "(\<And>x s. x \<in> set xs \<Longrightarrow> g (f x s) = g s) \<Longrightarrow> g (fold f xs s) = g s"
  by (induction xs arbitrary: s) auto

section \<open>Components as machines\<close>

text \<open>
  A component that reacts to events, some of which the page may rule out (\<open>ok\<close>): what every
  event keeps of its invariant, any sequence of events keeps.
\<close>

locale guarded_machine =
  fixes step :: "'e \<Rightarrow> 's \<Rightarrow> 's"
    and ok :: "'e \<Rightarrow> bool"
    and inv :: "'s \<Rightarrow> bool"
  assumes ok_step: "inv s \<Longrightarrow> ok e \<Longrightarrow> inv (step e s)"
begin

lemma guarded_run: "inv s \<Longrightarrow> list_all ok es \<Longrightarrow> inv (fold step es s)"
  by (rule fold_preserves) (simp_all add: ok_step list_all_iff)

end

locale machine =
  fixes step :: "'e \<Rightarrow> 's \<Rightarrow> 's"
    and inv :: "'s \<Rightarrow> bool"
  assumes step_inv: "inv s \<Longrightarrow> inv (step e s)"

sublocale machine \<subseteq> unguarded: guarded_machine step "\<lambda>e. True" inv
  by unfold_locales (rule step_inv)

context machine begin

lemma run_inv: "inv s \<Longrightarrow> inv (fold step es s)"
  by (rule unguarded.guarded_run) (simp_all add: list_all_iff)

lemma reachable_inv: "inv s \<Longrightarrow> inv (step e (fold step es s))"
  by (simp add: run_inv step_inv)

end

text \<open>
  A component that implements an abstract one: as long as its invariant holds, every event
  does to what the user sees (\<open>abs\<close>) what the abstract component says it does.
\<close>

locale simulation = guarded_machine step ok inv
  for step :: "'e \<Rightarrow> 's \<Rightarrow> 's" and ok :: "'e \<Rightarrow> bool" and inv :: "'s \<Rightarrow> bool" +
  fixes astep :: "'e \<Rightarrow> 'a \<Rightarrow> 'a"
    and abs :: "'s \<Rightarrow> 'a"
  assumes sim_step: "inv s \<Longrightarrow> ok e \<Longrightarrow> abs (step e s) = astep e (abs s)"
begin

lemma sim_run: "inv s \<Longrightarrow> list_all ok es \<Longrightarrow> abs (fold step es s) = fold astep es (abs s)"
  by (induction es arbitrary: s) (simp_all add: ok_step sim_step)

end

end
