(* ===== verification/Dom.thy ===== *)
theory Dom
  imports Prelude
begin

text \<open>
  The document the scripts read and write. Its structure is a tree of element ids
  (\<open>dtree\<close>, in document order), its contents a heap from ids to elements, so that a
  handler that only writes attributes, classes or properties leaves the structure alone.
  A selector is a predicate on elements; \<open>querySelectorAll\<close>, \<open>querySelector\<close> and
  \<open>closest\<close> are computed from the tree. Components extend the record \<open>page\<close> with
  their own variables.
\<close>

named_theorems dom_simps \<open>how element updates act on a page\<close>

section \<open>Elements\<close>

type_synonym uid = nat

record elem =
  tag :: string
  classes :: "string list"
  attrs :: "string obj"
  val_of :: string
  checked :: bool
  indeterminate :: bool
  disabled :: bool
  inner :: string

definition new_elem :: "string \<Rightarrow> elem" where
  "new_elem t = \<lparr>tag = t, classes = [], attrs = [], val_of = [], checked = False,
     indeterminate = False, disabled = False, inner = []\<rparr>"

text \<open>\<open>classList\<close>: an ordered set of tokens.\<close>

definition has_class :: "string \<Rightarrow> elem \<Rightarrow> bool" where
  "has_class c e \<longleftrightarrow> List.member (classes e) c"

definition class_add :: "string \<Rightarrow> elem \<Rightarrow> elem" where
  "class_add c e = (if has_class c e then e else e\<lparr>classes := classes e @ [c]\<rparr>)"

definition class_remove :: "string \<Rightarrow> elem \<Rightarrow> elem" where
  "class_remove c e = e\<lparr>classes := removeAll c (classes e)\<rparr>"

definition class_toggle :: "string \<Rightarrow> bool option \<Rightarrow> elem \<Rightarrow> elem" where
  "class_toggle c force e =
     (case force of
        Some b \<Rightarrow> if b then class_add c e else class_remove c e
      | None \<Rightarrow> if has_class c e then class_remove c e else class_add c e)"

definition get_attr :: "string \<Rightarrow> elem \<Rightarrow> string option" where
  "get_attr a e = oget (attrs e) a"

definition set_attr :: "string \<Rightarrow> string \<Rightarrow> elem \<Rightarrow> elem" where
  "set_attr a v e = e\<lparr>attrs := oset a v (attrs e)\<rparr>"

definition remove_attr :: "string \<Rightarrow> elem \<Rightarrow> elem" where
  "remove_attr a e = e\<lparr>attrs := odel a (attrs e)\<rparr>"

text \<open>\<open>String(b)\<close> of a boolean.\<close>

definition show_bool :: "bool \<Rightarrow> string" where
  "show_bool b = (if b then ''true'' else ''false'')"

lemma has_class_add [simp]: "has_class d (class_add c e) \<longleftrightarrow> d = c \<or> has_class d e"
  by (auto simp: class_add_def has_class_def)

lemma has_class_remove [simp]: "has_class d (class_remove c e) \<longleftrightarrow> d \<noteq> c \<and> has_class d e"
  by (auto simp: class_remove_def has_class_def)

lemma has_class_toggle [simp]:
  "has_class d (class_toggle c force e) \<longleftrightarrow>
     (if d = c then (case force of Some b \<Rightarrow> b | None \<Rightarrow> \<not> has_class c e) else has_class d e)"
  by (auto simp: class_toggle_def split: option.splits)

lemma class_add_simps [simp]:
  "tag (class_add c e) = tag e" "attrs (class_add c e) = attrs e"
  "val_of (class_add c e) = val_of e" "checked (class_add c e) = checked e"
  "indeterminate (class_add c e) = indeterminate e" "disabled (class_add c e) = disabled e"
  "inner (class_add c e) = inner e" "get_attr a (class_add c e) = get_attr a e"
  by (simp_all add: class_add_def get_attr_def)

lemma class_remove_simps [simp]:
  "tag (class_remove c e) = tag e" "attrs (class_remove c e) = attrs e"
  "val_of (class_remove c e) = val_of e" "checked (class_remove c e) = checked e"
  "indeterminate (class_remove c e) = indeterminate e" "disabled (class_remove c e) = disabled e"
  "inner (class_remove c e) = inner e" "get_attr a (class_remove c e) = get_attr a e"
  by (simp_all add: class_remove_def get_attr_def)

lemma class_toggle_simps [simp]:
  "tag (class_toggle c b e) = tag e" "attrs (class_toggle c b e) = attrs e"
  "val_of (class_toggle c b e) = val_of e" "checked (class_toggle c b e) = checked e"
  "indeterminate (class_toggle c b e) = indeterminate e" "disabled (class_toggle c b e) = disabled e"
  "inner (class_toggle c b e) = inner e" "get_attr a (class_toggle c b e) = get_attr a e"
  by (simp_all add: class_toggle_def split: option.splits)

lemma get_attr_set [simp]:
  "get_attr a (set_attr a' v e) = (if a = a' then Some v else get_attr a e)"
  by (simp add: get_attr_def set_attr_def)

lemma get_attr_remove [simp]:
  "get_attr a (remove_attr a' e) = (if a = a' then None else get_attr a e)"
  by (simp add: get_attr_def remove_attr_def)

lemma set_attr_simps [simp]:
  "tag (set_attr a v e) = tag e" "classes (set_attr a v e) = classes e"
  "val_of (set_attr a v e) = val_of e" "checked (set_attr a v e) = checked e"
  "indeterminate (set_attr a v e) = indeterminate e" "disabled (set_attr a v e) = disabled e"
  "inner (set_attr a v e) = inner e" "has_class c (set_attr a v e) = has_class c e"
  by (simp_all add: set_attr_def has_class_def)

lemma remove_attr_simps [simp]:
  "tag (remove_attr a e) = tag e" "classes (remove_attr a e) = classes e"
  "val_of (remove_attr a e) = val_of e" "checked (remove_attr a e) = checked e"
  "disabled (remove_attr a e) = disabled e" "inner (remove_attr a e) = inner e"
  "has_class c (remove_attr a e) = has_class c e"
  by (simp_all add: remove_attr_def has_class_def)

lemma get_attr_fields [simp]:
  "get_attr a (e\<lparr>checked := b\<rparr>) = get_attr a e" "get_attr a (e\<lparr>indeterminate := b\<rparr>) = get_attr a e"
  "get_attr a (e\<lparr>disabled := b\<rparr>) = get_attr a e" "get_attr a (e\<lparr>val_of := v\<rparr>) = get_attr a e"
  "get_attr a (e\<lparr>inner := v\<rparr>) = get_attr a e" "get_attr a (e\<lparr>classes := cs\<rparr>) = get_attr a e"
  by (simp_all add: get_attr_def)

lemma has_class_fields [simp]:
  "has_class c (e\<lparr>checked := b\<rparr>) = has_class c e" "has_class c (e\<lparr>indeterminate := b\<rparr>) = has_class c e"
  "has_class c (e\<lparr>disabled := b\<rparr>) = has_class c e" "has_class c (e\<lparr>val_of := v\<rparr>) = has_class c e"
  "has_class c (e\<lparr>inner := v\<rparr>) = has_class c e"
  by (simp_all add: has_class_def)

lemma show_bool_eq_iff [simp]:
  "show_bool b = ''true'' \<longleftrightarrow> b" "show_bool b = ''false'' \<longleftrightarrow> \<not> b"
  "show_bool b = show_bool c \<longleftrightarrow> b = c"
  by (auto simp: show_bool_def)

section \<open>The tree\<close>

datatype dtree = Node uid "dtree list"

fun root_of :: "dtree \<Rightarrow> uid" where
  "root_of (Node u ts) = u"

fun preorder :: "dtree \<Rightarrow> uid list" where
  "preorder (Node u ts) = u # concat (map preorder ts)"

fun find_sub :: "uid \<Rightarrow> dtree \<Rightarrow> dtree option"
  and find_subs :: "uid \<Rightarrow> dtree list \<Rightarrow> dtree option" where
  "find_sub v (Node u ts) = (if u = v then Some (Node u ts) else find_subs v ts)"
| "find_subs v [] = None"
| "find_subs v (t # ts) = (case find_sub v t of None \<Rightarrow> find_subs v ts | Some s \<Rightarrow> Some s)"

text \<open>The path from an element up to the root, the element first; empty when it is not in the tree.\<close>

fun path_to :: "uid \<Rightarrow> dtree \<Rightarrow> uid list"
  and paths_to :: "uid \<Rightarrow> dtree list \<Rightarrow> uid list" where
  "path_to v (Node u ts) =
     (if u = v then [u] else if paths_to v ts = [] then [] else paths_to v ts @ [u])"
| "paths_to v [] = []"
| "paths_to v (t # ts) = (if path_to v t = [] then paths_to v ts else path_to v t)"

lemma path_to_mem:
  "w \<in> set (path_to v t) \<Longrightarrow> w \<in> set (preorder t)"
  "w \<in> set (paths_to v ts) \<Longrightarrow> w \<in> set (concat (map preorder ts))"
  by (induction v t and v ts rule: path_to_paths_to.induct)
     (auto split: list.splits if_splits)

lemma path_to_nonempty:
  "path_to v t = [] \<longleftrightarrow> v \<notin> set (preorder t)"
  "paths_to v ts = [] \<longleftrightarrow> v \<notin> set (concat (map preorder ts))"
  by (induction v t and v ts rule: path_to_paths_to.induct)
     (auto split: list.splits if_splits)

lemma path_to_hd:
  "v \<in> set (preorder t) \<Longrightarrow> \<exists>ps. path_to v t = v # ps"
  "v \<in> set (concat (map preorder ts)) \<Longrightarrow> \<exists>ps. paths_to v ts = v # ps"
proof (induction v t and v ts rule: path_to_paths_to.induct)
  case (1 v u ts)
  show ?case
  proof (cases "u = v")
    case False
    then obtain ps where "paths_to v ts = v # ps" using 1 by auto
    with False show ?thesis by simp
  qed simp
next
  case (3 v t ts)
  show ?case
  proof (cases "v \<in> set (preorder t)")
    case True
    with "3.IH"(1) show ?thesis by auto
  next
    case False
    then have "path_to v t = []" by (simp add: path_to_nonempty)
    with 3 False show ?thesis by auto
  qed
qed auto

lemma find_sub_None:
  "find_sub v t = None \<longleftrightarrow> v \<notin> set (preorder t)"
  "find_subs v ts = None \<longleftrightarrow> v \<notin> set (concat (map preorder ts))"
  by (induction v t and v ts rule: find_sub_find_subs.induct)
     (auto split: option.splits if_splits)

lemma find_sub_root:
  "find_sub v t = Some s \<Longrightarrow> root_of s = v"
  "find_subs v ts = Some s \<Longrightarrow> root_of s = v"
  by (induction v t and v ts rule: find_sub_find_subs.induct)
     (auto split: option.splits if_splits)

lemma find_sub_subset:
  "find_sub v t = Some s \<Longrightarrow> set (preorder s) \<subseteq> set (preorder t)"
  "find_subs v ts = Some s \<Longrightarrow> set (preorder s) \<subseteq> set (concat (map preorder ts))"
  by (induction v t and v ts rule: find_sub_find_subs.induct)
     (auto split: option.splits if_splits)

lemma find_sub_distinct:
  "find_sub v t = Some s \<Longrightarrow> distinct (preorder t) \<Longrightarrow> distinct (preorder s)"
  "find_subs v ts = Some s \<Longrightarrow> distinct (concat (map preorder ts)) \<Longrightarrow> distinct (preorder s)"
  by (induction v t and v ts rule: find_sub_find_subs.induct)
     (auto split: option.splits if_splits)

text \<open>An element lies in the subtree of every ancestor on its path.\<close>

lemma path_find_sub:
  "distinct (preorder t) \<Longrightarrow> w \<in> set (path_to v t) \<Longrightarrow>
     \<exists>s. find_sub w t = Some s \<and> v \<in> set (preorder s)"
  "distinct (concat (map preorder ts)) \<Longrightarrow> w \<in> set (paths_to v ts) \<Longrightarrow>
     \<exists>s. find_subs w ts = Some s \<and> v \<in> set (preorder s)"
proof (induction v t and v ts rule: path_to_paths_to.induct)
  case (1 v u ts)
  show ?case
  proof (cases "u = v \<or> u = w")
    case True
    have "path_to v (Node u ts) \<noteq> []" using "1.prems"(2) by (auto simp del: path_to.simps)
    then have "v \<in> set (preorder (Node u ts))" by (simp only: path_to_nonempty not_not)
    moreover have "w = u" using True "1.prems"(2) by auto
    ultimately show ?thesis by simp
  next
    case False
    then have "w \<in> set (paths_to v ts)"
      using "1.prems"(2) by (auto split: if_splits)
    with 1 False show ?thesis by auto
  qed
next
  case (3 v t ts)
  show ?case
  proof (cases "path_to v t")
    case Nil
    then have w: "w \<in> set (paths_to v ts)" using "3.prems"(2) by simp
    then have "w \<in> set (concat (map preorder ts))" by (rule path_to_mem)
    then have "w \<notin> set (preorder t)" using "3.prems"(1) by auto
    then have "find_sub w t = None" by (simp add: find_sub_None)
    with 3 w Nil show ?thesis by auto
  next
    case (Cons p ps)
    with 3 show ?thesis by auto
  qed
qed simp

section \<open>Pages and queries\<close>

record page =
  doc :: dtree
  heap :: "uid \<Rightarrow> elem"
  focus :: "uid option"

definition wf_page :: "'a page_scheme \<Rightarrow> bool" where
  "wf_page p \<longleftrightarrow> distinct (preorder (doc p))"

definition upd :: "uid \<Rightarrow> (elem \<Rightarrow> elem) \<Rightarrow> 'a page_scheme \<Rightarrow> 'a page_scheme" where
  "upd u f p = p\<lparr>heap := (heap p)(u := f (heap p u))\<rparr>"

definition upd_all :: "uid list \<Rightarrow> (elem \<Rightarrow> elem) \<Rightarrow> 'a page_scheme \<Rightarrow> 'a page_scheme" where
  "upd_all us f p = fold (\<lambda>u. upd u f) us p"

text \<open>\<open>root.querySelectorAll\<close> looks at the proper descendants in document order.\<close>

definition qsa :: "'a page_scheme \<Rightarrow> uid \<Rightarrow> (elem \<Rightarrow> bool) \<Rightarrow> uid list" where
  "qsa p r sel =
     (case find_sub r (doc p) of
        None \<Rightarrow> []
      | Some t \<Rightarrow> filter (\<lambda>u. sel (heap p u)) (tl (preorder t)))"

definition first_of :: "'a list \<Rightarrow> 'a option" where
  "first_of xs = (case xs of [] \<Rightarrow> None | x # _ \<Rightarrow> Some x)"

definition qs :: "'a page_scheme \<Rightarrow> uid \<Rightarrow> (elem \<Rightarrow> bool) \<Rightarrow> uid option" where
  "qs p r sel = first_of (qsa p r sel)"

text \<open>The queries on \<open>document\<close> see every element.\<close>

definition doc_qsa :: "'a page_scheme \<Rightarrow> (elem \<Rightarrow> bool) \<Rightarrow> uid list" where
  "doc_qsa p sel = filter (\<lambda>u. sel (heap p u)) (preorder (doc p))"

definition doc_qs :: "'a page_scheme \<Rightarrow> (elem \<Rightarrow> bool) \<Rightarrow> uid option" where
  "doc_qs p sel = first_of (doc_qsa p sel)"

definition has_id :: "string \<Rightarrow> elem \<Rightarrow> bool" where
  "has_id i e \<longleftrightarrow> get_attr ''id'' e = Some i"

definition by_id :: "'a page_scheme \<Rightarrow> string \<Rightarrow> uid option" where
  "by_id p i = doc_qs p (has_id i)"

text \<open>\<open>closest\<close> starts at the element itself; \<open>contains\<close> holds for the element itself too.\<close>

definition closest :: "'a page_scheme \<Rightarrow> (elem \<Rightarrow> bool) \<Rightarrow> uid \<Rightarrow> uid option" where
  "closest p sel u = List.find (\<lambda>v. sel (heap p v)) (path_to u (doc p))"

definition contains :: "'a page_scheme \<Rightarrow> uid \<Rightarrow> uid \<Rightarrow> bool" where
  "contains p anc u \<longleftrightarrow> List.member (path_to u (doc p)) anc"

lemma upd_fields [simp]:
  "doc (upd u f p) = doc p" "focus (upd u f p) = focus p"
  "page.more (upd u f p) = page.more p"
  by (simp_all add: upd_def)

lemma heap_upd: "heap (upd u f p) v = (if v = u then f (heap p u) else heap p v)"
  by (simp add: upd_def)

lemma heap_upd_same [simp]: "heap (upd u f p) u = f (heap p u)"
  by (simp add: upd_def)

lemma heap_upd_other [simp]: "v \<noteq> u \<Longrightarrow> heap (upd u f p) v = heap p v"
  by (simp add: upd_def)

lemma upd_all_Nil [simp]: "upd_all [] f p = p"
  by (simp add: upd_all_def)

lemma upd_all_Cons [simp]: "upd_all (u # us) f p = upd_all us f (upd u f p)"
  by (simp add: upd_all_def)

lemma upd_all_fields [simp]:
  "doc (upd_all us f p) = doc p" "focus (upd_all us f p) = focus p"
  "page.more (upd_all us f p) = page.more p"
  by (induction us arbitrary: p) simp_all

lemma heap_upd_all_notin: "v \<notin> set us \<Longrightarrow> heap (upd_all us f p) v = heap p v"
  by (induction us arbitrary: p) auto

lemma heap_upd_all_pres:
  "(\<And>e. g (f e) = g e) \<Longrightarrow> g (heap (upd_all us f p) v) = g (heap p v)"
  by (induction us arbitrary: p) (auto simp: heap_upd)

lemma heap_upd_all_in:
  "(\<And>e. f (f e) = f e) \<Longrightarrow> v \<in> set us \<Longrightarrow> heap (upd_all us f p) v = f (heap p v)"
proof (induction us arbitrary: p)
  case (Cons u us)
  then show ?case
    by (cases "v \<in> set us") (auto simp: heap_upd heap_upd_all_notin)
qed simp

lemma heap_upd_all:
  "(\<And>e. f (f e) = f e) \<Longrightarrow>
   heap (upd_all us f p) v = (if v \<in> set us then f (heap p v) else heap p v)"
  by (simp add: heap_upd_all_in heap_upd_all_notin)

lemma heap_upd_all_distinct:
  "distinct us \<Longrightarrow> heap (upd_all us f p) v = (if v \<in> set us then f (heap p v) else heap p v)"
  by (induction us arbitrary: p) (auto simp: heap_upd)

text \<open>Queries do not change when no element changes what the selector reads.\<close>

lemma qsa_cong:
  assumes "doc p = doc q" and "\<And>u. sel (heap p u) = sel' (heap q u)"
  shows "qsa p r sel = qsa q r sel'"
  using assms by (simp add: qsa_def split: option.split)

lemma doc_qsa_cong:
  assumes "doc p = doc q" and "\<And>u. sel (heap p u) = sel' (heap q u)"
  shows "doc_qsa p sel = doc_qsa q sel'"
  using assms by (simp add: doc_qsa_def)

lemma closest_cong:
  assumes "doc p = doc q" and "\<And>u. sel (heap p u) = sel' (heap q u)"
  shows "closest p sel u = closest q sel' u"
  using assms by (simp add: closest_def)

lemma qsa_memD: "u \<in> set (qsa p r sel) \<Longrightarrow> sel (heap p u)"
  by (auto simp: qsa_def split: option.splits)

lemma doc_qsa_iff: "u \<in> set (doc_qsa p sel) \<longleftrightarrow> u \<in> set (preorder (doc p)) \<and> sel (heap p u)"
  by (auto simp: doc_qsa_def)

lemma first_of_Some: "first_of xs = Some x \<Longrightarrow> x \<in> set xs"
  by (auto simp: first_of_def split: list.splits)

lemma first_of_None [simp]: "first_of xs = None \<longleftrightarrow> xs = []"
  by (auto simp: first_of_def split: list.splits)

lemma doc_qs_Some: "doc_qs p sel = Some u \<Longrightarrow> sel (heap p u) \<and> u \<in> set (preorder (doc p))"
  by (auto simp: doc_qs_def doc_qsa_iff dest: first_of_Some)

lemma qs_Some: "qs p r sel = Some u \<Longrightarrow> u \<in> set (qsa p r sel)"
  by (simp add: qs_def first_of_Some)

lemma qsa_distinct: "wf_page p \<Longrightarrow> distinct (qsa p r sel)"
  by (auto simp: qsa_def wf_page_def distinct_tl dest: find_sub_distinct split: option.splits)

lemma closest_Some:
  "closest p sel u = Some v \<Longrightarrow> sel (heap p v) \<and> v \<in> set (path_to u (doc p))"
  by (auto simp: closest_def find_Some_iff)

lemma closest_self:
  "u \<in> set (preorder (doc p)) \<Longrightarrow> sel (heap p u) \<Longrightarrow> closest p sel u = Some u"
proof -
  assume u: "u \<in> set (preorder (doc p))" and s: "sel (heap p u)"
  have "\<exists>ps. path_to u (doc p) = u # ps" using u path_to_hd(1) by blast
  with s show ?thesis by (auto simp: closest_def)
qed

text \<open>An element that matches and lies below its closest container is found by the query there.\<close>

lemma qsa_closest:
  assumes "wf_page p" and "closest p sel u = Some v" and "u \<noteq> v" and "P (heap p u)"
  shows "u \<in> set (qsa p v P)"
proof -
  from assms(2) have "v \<in> set (path_to u (doc p))" by (simp add: closest_Some)
  with assms(1) obtain t where t: "find_sub v (doc p) = Some t" and u: "u \<in> set (preorder t)"
    unfolding wf_page_def by (blast dest: path_find_sub(1))
  from t have "root_of t = v" by (rule find_sub_root)
  with u assms(3) have "u \<in> set (tl (preorder t))" by (cases t) auto
  with t assms(4) show ?thesis by (simp add: qsa_def)
qed

section \<open>Handlers that write only some attributes and classes\<close>

text \<open>\<open>untouched as cs p q\<close>: from \<open>p\<close> to \<open>q\<close> only attributes in \<open>as\<close> and classes in \<open>cs\<close> changed.\<close>

definition untouched :: "string list \<Rightarrow> string list \<Rightarrow> 'a page_scheme \<Rightarrow> 'b page_scheme \<Rightarrow> bool" where
  "untouched as cs p q \<longleftrightarrow> doc q = doc p \<and>
     (\<forall>u. tag (heap q u) = tag (heap p u) \<and>
       (\<forall>a. a \<notin> set as \<longrightarrow> get_attr a (heap q u) = get_attr a (heap p u)) \<and>
       (\<forall>c. c \<notin> set cs \<longrightarrow> has_class c (heap q u) = has_class c (heap p u)))"

lemma untouched_refl [simp, intro]: "untouched as cs p p"
  by (simp add: untouched_def)

lemma untouched_trans [trans]: "untouched as cs p q \<Longrightarrow> untouched as cs q r \<Longrightarrow> untouched as cs p r"
  by (simp add: untouched_def)

lemma untouched_upd_attr [simp]: "a \<in> set as \<Longrightarrow> untouched as cs p (upd u (set_attr a v) p)"
  by (auto simp: untouched_def heap_upd)

lemma untouched_upd_remove_attr [simp]: "a \<in> set as \<Longrightarrow> untouched as cs p (upd u (remove_attr a) p)"
  by (auto simp: untouched_def heap_upd)

lemma untouched_upd_toggle [simp]: "c \<in> set cs \<Longrightarrow> untouched as cs p (upd u (class_toggle c b) p)"
  by (auto simp: untouched_def heap_upd)

lemma untouched_upd_add [simp]: "c \<in> set cs \<Longrightarrow> untouched as cs p (upd u (class_add c) p)"
  by (auto simp: untouched_def heap_upd)

lemma untouched_upd_remove [simp]: "c \<in> set cs \<Longrightarrow> untouched as cs p (upd u (class_remove c) p)"
  by (auto simp: untouched_def heap_upd)

lemma untouched_doc: "untouched as cs p q \<Longrightarrow> doc q = doc p"
  by (simp add: untouched_def)

lemma untouched_attr: "untouched as cs p q \<Longrightarrow> a \<notin> set as \<Longrightarrow> get_attr a (heap q u) = get_attr a (heap p u)"
  by (simp add: untouched_def)

lemma untouched_class: "untouched as cs p q \<Longrightarrow> c \<notin> set cs \<Longrightarrow> has_class c (heap q u) = has_class c (heap p u)"
  by (simp add: untouched_def)

lemma untouched_tag: "untouched as cs p q \<Longrightarrow> tag (heap q u) = tag (heap p u)"
  by (simp add: untouched_def)

lemma untouched_by_id: "untouched as cs p q \<Longrightarrow> ''id'' \<notin> set as \<Longrightarrow> by_id q i = by_id p i"
  by (simp add: by_id_def doc_qs_def doc_qsa_def has_id_def untouched_doc untouched_attr)

lemma untouched_contains: "untouched as cs p q \<Longrightarrow> contains q = contains p"
  by (intro ext) (simp add: contains_def untouched_doc)

lemma doc_qs_cong:
  assumes "doc p = doc q" and "\<And>u. sel (heap p u) = sel' (heap q u)"
  shows "doc_qs p sel = doc_qs q sel'"
  using doc_qsa_cong [of p q sel sel'] assms by (simp add: doc_qs_def)

text \<open>\<open>getElementById\<close> of an attribute that may be missing looks for the id "null".\<close>

definition id_text :: "string option \<Rightarrow> string" where
  "id_text c = (case c of None \<Rightarrow> ''null'' | Some i \<Rightarrow> i)"

end
