(* ===== verification/Event_Loop.thy ===== *)
theory Event_Loop
  imports Prelude
begin

text \<open>
  The browser's task queue. Handlers defer work with \<open>setTimeout\<close>,
  \<open>requestAnimationFrame\<close> or by dispatching further events; the loop takes the oldest
  task, runs it (which may queue more tasks at the back) and goes on until the queue is
  empty. The queue is part of the component's state. \<open>drain\<close> runs at most \<open>n\<close> tasks and
  is \<open>None\<close> when that was not enough; the locale \<open>task_loop\<close> says what a component has
  to show for its loop to come to rest in a state of its invariant.
\<close>

fun drain :: "('s \<Rightarrow> 'e list) \<Rightarrow> ('e \<Rightarrow> 's \<Rightarrow> 's) \<Rightarrow> nat \<Rightarrow> 's \<Rightarrow> 's option" where
  "drain pend run 0 s = (case pend s of [] \<Rightarrow> Some s | e # q \<Rightarrow> None)"
| "drain pend run (Suc n) s = (case pend s of [] \<Rightarrow> Some s | e # q \<Rightarrow> drain pend run n (run e s))"

lemma drain_more: "drain pend run n s = Some t \<Longrightarrow> drain pend run (Suc n) s = Some t"
proof (induction n arbitrary: s)
  case 0
  then show ?case by (auto split: list.splits)
next
  case (Suc n)
  then show ?case
    by (cases "pend s") auto
qed

lemma drain_mono: "drain pend run n s = Some t \<Longrightarrow> n \<le> m \<Longrightarrow> drain pend run m s = Some t"
  by (induction m) (auto simp: le_Suc_eq simp del: drain.simps intro: drain_more)

lemma drain_empty: "drain pend run n s = Some t \<Longrightarrow> pend t = []"
  by (induction n arbitrary: s) (auto split: list.splits)

locale task_loop =
  fixes pend :: "'s \<Rightarrow> 'e list"
    and run :: "'e \<Rightarrow> 's \<Rightarrow> 's"
    and inv :: "'s \<Rightarrow> bool"
    and cost :: "'s \<Rightarrow> nat"
  assumes run_inv: "inv s \<Longrightarrow> pend s = e # q \<Longrightarrow> inv (run e s)"
    and run_cost: "inv s \<Longrightarrow> pend s = e # q \<Longrightarrow> cost (run e s) < cost s"
begin

lemma comes_to_rest:
  "inv s \<Longrightarrow> cost s \<le> n \<Longrightarrow> \<exists>t. drain pend run n s = Some t \<and> inv t \<and> pend t = []"
proof (induction n arbitrary: s)
  case 0
  then have "pend s = []" using run_cost by (cases "pend s") fastforce+
  with 0 show ?case by simp
next
  case (Suc n)
  show ?case
  proof (cases "pend s")
    case Nil
    with Suc.prems show ?thesis by simp
  next
    case (Cons e q)
    with Suc.prems have "inv (run e s)" and "cost (run e s) \<le> n"
      using run_inv run_cost by fastforce+
    with Suc.IH Cons show ?thesis by simp
  qed
qed

lemma rests_in_invariant:
  "inv s \<Longrightarrow> cost s \<le> n \<Longrightarrow> drain pend run n s = Some t \<Longrightarrow> inv t \<and> pend t = []"
  using comes_to_rest by fastforce

end

text \<open>A frame: what every task keeps, the whole loop keeps.\<close>

lemma drain_frame:
  assumes "\<And>e s. g (run e s) = g s" and "drain pend run n s = Some t"
  shows "g t = g s"
  using assms(2)
proof (induction n arbitrary: s)
  case 0
  then show ?case by (auto split: list.splits)
next
  case (Suc n)
  show ?case
  proof (cases "pend s")
    case Nil
    with Suc.prems show ?thesis by simp
  next
    case (Cons e q)
    with Suc.prems have "drain pend run n (run e s) = Some t" by simp
    then have "g t = g (run e s)" by (rule Suc.IH)
    with assms(1) show ?thesis by simp
  qed
qed

end
