(* ===== verification/Checkbox.thy ===== *)
theory Checkbox
  imports Dom Event_Loop
begin

text \<open>
  Row selection in object tables: \<open>nautobot/ui/src/js/checkbox.js\<close>. A table has row
  checkboxes (\<open>name="pk"\<close>) and a "toggle" checkbox in its header; below the table a box
  with a "select all matching" checkbox and the bulk buttons. \<open>onClick\<close> serves direct
  clicks (toggle all, shift-click ranges), \<open>onInput\<close> keeps the toggle checkbox and the
  box in step after every change, however it came about. Programmatic changes announce
  themselves later through \<open>setTimeout\<close>, so the state has a queue of pending
  announcements.
\<close>

section \<open>State and selectors\<close>

record cb_page = page +
  last_index :: "int option"
  pending :: "uid list"

definition checkbox_input :: "elem \<Rightarrow> bool" where
  "checkbox_input e \<longleftrightarrow> tag e = ''INPUT'' \<and> get_attr ''type'' e = Some ''checkbox''"

definition item_sel :: "elem \<Rightarrow> bool" where
  "item_sel e \<longleftrightarrow> checkbox_input e \<and> get_attr ''name'' e = Some ''pk''"

definition visible_item_sel :: "elem \<Rightarrow> bool" where
  "visible_item_sel e \<longleftrightarrow> item_sel e \<and> \<not> has_class ''visually-hidden'' e"

definition toggle_sel :: "elem \<Rightarrow> bool" where
  "toggle_sel e \<longleftrightarrow> checkbox_input e \<and> has_class ''toggle'' e"

definition select_all_box_sel :: "elem \<Rightarrow> bool" where
  "select_all_box_sel e \<longleftrightarrow> has_id ''select_all_box'' e"

definition select_all_sel :: "elem \<Rightarrow> bool" where
  "select_all_sel e \<longleftrightarrow> has_id ''select_all'' e"

definition table_sel :: "elem \<Rightarrow> bool" where
  "table_sel e \<longleftrightarrow> tag e = ''TABLE''"

definition button_sel :: "elem \<Rightarrow> bool" where
  "button_sel e \<longleftrightarrow> tag e = ''BUTTON''"

section \<open>The handlers\<close>

definition set_checked :: "bool \<Rightarrow> uid \<Rightarrow> cb_page \<Rightarrow> cb_page" where
  "set_checked b u s =
     (if checked (heap s u) \<noteq> b
      then (upd u (\<lambda>e. e\<lparr>checked := b\<rparr>) s)\<lparr>pending := pending s @ [u]\<rparr>
      else s)"

definition set_indeterminate :: "bool \<Rightarrow> uid \<Rightarrow> cb_page \<Rightarrow> cb_page" where
  "set_indeterminate b u s = upd u (\<lambda>e. e\<lparr>indeterminate := b\<rparr>) s"

definition items_of :: "cb_page \<Rightarrow> uid \<Rightarrow> uid list" where
  "items_of s tb = qsa s tb visible_item_sel"

definition click_toggle :: "uid \<Rightarrow> cb_page \<Rightarrow> cb_page outcome" where
  "click_toggle target s =
     (case closest s toggle_sel target of
        None \<Rightarrow> Done s
      | Some t \<Rightarrow>
          (case closest s table_sel t of
             None \<Rightarrow> Throw TypeError s
           | Some tb \<Rightarrow>
               Done ((set_indeterminate False t
                 (fold (set_checked (checked (heap s t))) (items_of s tb) s))
                 \<lparr>last_index := None\<rparr>)))"

definition click_item :: "uid \<Rightarrow> bool \<Rightarrow> cb_page \<Rightarrow> cb_page outcome" where
  "click_item target shift s =
     (case closest s item_sel target of
        None \<Rightarrow> Done s
      | Some i \<Rightarrow>
          (case closest s table_sel i of
             None \<Rightarrow> Throw TypeError s
           | Some tb \<Rightarrow>
               (let all = items_of s tb; cur = index_of i all;
                    s' = (case last_index s of
                            Some a \<Rightarrow>
                              if shift
                              then fold (set_checked (checked (heap s i)))
                                     (js_slice (min a cur) (max a cur + 1) all) s
                              else s
                          | None \<Rightarrow> s)
                in Done (s'\<lparr>last_index := Some cur\<rparr>))))"

definition on_click :: "uid \<Rightarrow> bool \<Rightarrow> cb_page \<Rightarrow> cb_page outcome" where
  "on_click target shift s = and_then (click_toggle target s) (click_item target shift)"

definition input_toggle :: "uid \<Rightarrow> cb_page \<Rightarrow> cb_page outcome" where
  "input_toggle target s =
     (case closest s toggle_sel target of
        None \<Rightarrow> Done s
      | Some t \<Rightarrow>
          (let b = checked (heap s t) in
           case doc_qs s select_all_box_sel of
             None \<Rightarrow> Done s
           | Some bx \<Rightarrow>
               (let s' = upd bx (class_toggle ''d-none'' (Some (\<not> b))) s in
                if b then Done s'
                else (case doc_qs s' select_all_sel of
                        None \<Rightarrow> Done s'
                      | Some sa \<Rightarrow> Done (set_checked False sa s')))))"

definition input_item :: "uid \<Rightarrow> cb_page \<Rightarrow> cb_page outcome" where
  "input_item target s =
     (case closest s item_sel target of
        None \<Rightarrow> Done s
      | Some i \<Rightarrow>
          (case closest s table_sel i of
             None \<Rightarrow> Throw TypeError s
           | Some tb \<Rightarrow>
               (let all = items_of s tb in
                case qs s tb toggle_sel of
                  None \<Rightarrow> Done s
                | Some t \<Rightarrow>
                    (let has_unchecked = list_ex (\<lambda>u. \<not> checked (heap s u)) all;
                         has_checked = list_ex (\<lambda>u. checked (heap s u)) all
                     in Done (set_indeterminate (has_checked \<and> has_unchecked) t
                                (set_checked (\<not> has_unchecked) t s))))))"

definition input_select_all :: "uid \<Rightarrow> cb_page \<Rightarrow> cb_page outcome" where
  "input_select_all target s =
     (case (closest s select_all_sel target, closest s select_all_box_sel target) of
        (Some sa, Some bx) \<Rightarrow>
          Done (upd_all (qsa s bx button_sel) (\<lambda>e. e\<lparr>disabled := \<not> checked (heap s sa)\<rparr>) s)
      | _ \<Rightarrow> Done s)"

definition on_input :: "uid \<Rightarrow> cb_page \<Rightarrow> cb_page outcome" where
  "on_input target s =
     and_then (and_then (input_toggle target s) (input_item target)) (input_select_all target)"

text \<open>
  What the browser does with the two listeners. A user's click flips the checkbox and
  clears its indeterminate state before the \<open>click\<close> listeners run, and fires \<open>input\<close>
  after them; a throw in a listener stops that listener only. A deferred announcement
  dispatches \<open>change\<close> (no listener here) and \<open>input\<close>.
\<close>

definition user_click :: "uid \<Rightarrow> bool \<Rightarrow> cb_page \<Rightarrow> cb_page" where
  "user_click u shift s =
     (let s0 = upd u (\<lambda>e. e\<lparr>checked := \<not> checked e, indeterminate := False\<rparr>) s
      in final_state (on_input u (final_state (on_click u shift s0))))"

definition run_announcement :: "uid \<Rightarrow> cb_page \<Rightarrow> cb_page" where
  "run_announcement u s = final_state (on_input u (s\<lparr>pending := tl (pending s)\<rparr>))"

section \<open>What the handlers leave alone\<close>

text \<open>
  The handlers write \<open>checked\<close>, \<open>indeterminate\<close>, \<open>disabled\<close> and the class \<open>d-none\<close>;
  none of the selectors reads them.
\<close>

definition same_layout :: "cb_page \<Rightarrow> cb_page \<Rightarrow> bool" where
  "same_layout s s' \<longleftrightarrow> doc s' = doc s \<and>
     (\<forall>u. tag (heap s' u) = tag (heap s u) \<and> attrs (heap s' u) = attrs (heap s u) \<and>
       (\<forall>c. c \<noteq> ''d-none'' \<longrightarrow> has_class c (heap s' u) = has_class c (heap s u)))"

lemma same_layout_refl [simp, intro]: "same_layout s s"
  by (simp add: same_layout_def)

lemma same_layout_trans [trans]: "same_layout s s' \<Longrightarrow> same_layout s' s'' \<Longrightarrow> same_layout s s''"
  by (simp add: same_layout_def)

lemma same_layout_sel:
  assumes "same_layout s s'"
  shows "item_sel (heap s' u) = item_sel (heap s u)"
    and "visible_item_sel (heap s' u) = visible_item_sel (heap s u)"
    and "toggle_sel (heap s' u) = toggle_sel (heap s u)"
    and "select_all_box_sel (heap s' u) = select_all_box_sel (heap s u)"
    and "select_all_sel (heap s' u) = select_all_sel (heap s u)"
    and "table_sel (heap s' u) = table_sel (heap s u)"
    and "button_sel (heap s' u) = button_sel (heap s u)"
  using assms
  by (simp_all add: same_layout_def item_sel_def visible_item_sel_def toggle_sel_def table_sel_def
      select_all_box_sel_def select_all_sel_def button_sel_def checkbox_input_def has_id_def get_attr_def)

lemma same_layout_doc: "same_layout s s' \<Longrightarrow> doc s' = doc s"
  by (simp add: same_layout_def)

lemma same_layout_queries:
  assumes "same_layout s s'"
  shows "items_of s' tb = items_of s tb"
    and "qs s' tb toggle_sel = qs s tb toggle_sel"
    and "doc_qs s' select_all_box_sel = doc_qs s select_all_box_sel"
    and "doc_qs s' select_all_sel = doc_qs s select_all_sel"
    and "closest s' item_sel u = closest s item_sel u"
    and "closest s' toggle_sel u = closest s toggle_sel u"
    and "closest s' table_sel u = closest s table_sel u"
    and "closest s' select_all_sel u = closest s select_all_sel u"
    and "closest s' select_all_box_sel u = closest s select_all_box_sel u"
  using assms
  by (simp_all add: items_of_def qs_def qsa_def doc_qs_def doc_qsa_def closest_def
      same_layout_sel same_layout_doc cong: option.case_cong)

lemma same_layout_wf: "same_layout s s' \<Longrightarrow> wf_page s' = wf_page s"
  by (simp add: wf_page_def same_layout_doc)

lemma same_layout_set_checked [simp]: "same_layout s (set_checked b u s)"
  by (auto simp: set_checked_def same_layout_def heap_upd)

lemma same_layout_set_indeterminate [simp]: "same_layout s (set_indeterminate b u s)"
  by (auto simp: set_indeterminate_def same_layout_def heap_upd)

lemma same_layout_pending [simp]: "same_layout s (s\<lparr>pending := q\<rparr>)"
  by (simp add: same_layout_def)

lemma same_layout_last_index [simp]: "same_layout s (s\<lparr>last_index := i\<rparr>)"
  by (simp add: same_layout_def)

lemma same_layout_fold: "same_layout s (fold (set_checked b) us s)"
proof (induction us arbitrary: s)
  case (Cons u us)
  have "same_layout s (set_checked b u s)" by simp
  also have "same_layout \<dots> (fold (set_checked b) us (set_checked b u s))" by (rule Cons.IH)
  finally show ?case by simp
qed simp

lemma same_layout_disabled: "same_layout s (upd_all us (\<lambda>e. e\<lparr>disabled := b\<rparr>) s)"
  by (simp add: same_layout_def heap_upd_all has_class_def)

section \<open>The effect of \<open>setChecked\<close>\<close>

lemma set_checked_frame [simp]:
  "last_index (set_checked b u s) = last_index s"
  "indeterminate (heap (set_checked b u s) v) = indeterminate (heap s v)"
  "disabled (heap (set_checked b u s) v) = disabled (heap s v)"
  by (auto simp: set_checked_def heap_upd upd_def)

lemma checked_set_checked:
  "checked (heap (set_checked b u s) v) = (if v = u then b else checked (heap s v))"
  by (auto simp: set_checked_def heap_upd)

lemma pending_set_checked:
  "pending (set_checked b u s) = pending s @ (if checked (heap s u) \<noteq> b then [u] else [])"
  by (simp add: set_checked_def)

lemma checked_fold:
  "checked (heap (fold (set_checked b) us s) v) = (if v \<in> set us then b else checked (heap s v))"
  by (induction us arbitrary: s) (auto simp: checked_set_checked)

lemma fold_set_checked_frame [simp]:
  "last_index (fold (set_checked b) us s) = last_index s"
  "indeterminate (heap (fold (set_checked b) us s) v) = indeterminate (heap s v)"
  by (induction us arbitrary: s) simp_all

lemma pending_fold:
  "distinct us \<Longrightarrow>
   pending (fold (set_checked b) us s) = pending s @ filter (\<lambda>u. checked (heap s u) \<noteq> b) us"
proof (induction us arbitrary: s)
  case (Cons u us)
  have "filter (\<lambda>v. checked (heap (set_checked b u s) v) \<noteq> b) us = filter (\<lambda>v. checked (heap s v) \<noteq> b) us"
    using Cons.prems by (auto simp: checked_set_checked intro: filter_cong)
  with Cons show ?case by (simp add: pending_set_checked)
qed simp

lemma items_of_distinct: "wf_page s \<Longrightarrow> distinct (items_of s tb)"
  by (simp add: items_of_def qsa_distinct)

lemma set_indeterminate_simps [simp]:
  "checked (heap (set_indeterminate b u s) v) = checked (heap s v)"
  "pending (set_indeterminate b u s) = pending s"
  "last_index (set_indeterminate b u s) = last_index s"
  by (auto simp: set_indeterminate_def heap_upd upd_def)

lemma indeterminate_set:
  "indeterminate (heap (set_indeterminate b u s) v) = (if v = u then b else indeterminate (heap s v))"
  by (simp add: set_indeterminate_def heap_upd)

section \<open>Clicks\<close>

definition click_toggle_result :: "uid \<Rightarrow> uid \<Rightarrow> cb_page \<Rightarrow> cb_page" where
  "click_toggle_result t tb s =
     (set_indeterminate False t (fold (set_checked (checked (heap s t))) (items_of s tb) s))
     \<lparr>last_index := None\<rparr>"

lemma same_layout_click_toggle: "same_layout s (click_toggle_result t tb s)"
proof -
  let ?f = "fold (set_checked (checked (heap s t))) (items_of s tb) s"
  have "same_layout s ?f" by (rule same_layout_fold)
  also have "same_layout \<dots> (set_indeterminate False t ?f)" by simp
  also have "same_layout \<dots> (click_toggle_result t tb s)" by (simp add: click_toggle_result_def)
  finally show ?thesis .
qed

lemma on_click_toggle:
  assumes "closest s toggle_sel t = Some t" and "closest s item_sel t = None"
    and "closest s table_sel t = Some tb"
  shows "on_click t shift s = Done (click_toggle_result t tb s)"
proof -
  have "closest (click_toggle_result t tb s) item_sel t = None"
    using assms(2) same_layout_queries(5) [OF same_layout_click_toggle] by simp
  then show ?thesis
    using assms by (simp add: on_click_def click_toggle_def click_item_def click_toggle_result_def)
qed

lemma click_toggle_result_simps:
  "checked (heap (click_toggle_result t tb s) u) =
     (if u \<in> set (items_of s tb) then checked (heap s t) else checked (heap s u))"
  "indeterminate (heap (click_toggle_result t tb s) u) = (u \<noteq> t \<and> indeterminate (heap s u))"
  "last_index (click_toggle_result t tb s) = None"
  by (simp_all add: click_toggle_result_def checked_fold indeterminate_set)

lemma pending_click_toggle:
  "wf_page s \<Longrightarrow> pending (click_toggle_result t tb s) =
     pending s @ filter (\<lambda>u. checked (heap s u) \<noteq> checked (heap s t)) (items_of s tb)"
  by (simp add: click_toggle_result_def pending_fold items_of_distinct)

text \<open>
  Clicking the header checkbox gives every visible row checkbox of its table the
  header's state, touches no other checkbox, clears the partial mark and the range anchor,
  and announces exactly the rows whose state changed, in document order.
\<close>

theorem toggle_click_selects_all:
  assumes "wf_page s" and "closest s toggle_sel t = Some t" and "closest s item_sel t = None"
    and "closest s table_sel t = Some tb"
  shows "\<exists>s'. on_click t shift s = Done s' \<and>
    (\<forall>u. checked (heap s' u) =
       (if u \<in> set (items_of s tb) then checked (heap s t) else checked (heap s u))) \<and>
    \<not> indeterminate (heap s' t) \<and> last_index s' = None \<and>
    pending s' = pending s @ filter (\<lambda>u. checked (heap s u) \<noteq> checked (heap s t)) (items_of s tb)"
  using on_click_toggle [OF assms(2-4)] pending_click_toggle [OF assms(1)]
  by (simp add: click_toggle_result_simps)

text \<open>
  C4: A shift-click on a row gives the clicked row's new state to exactly the rows between
  the anchor and the clicked row, both included and in either direction, and moves the
  anchor to the clicked row.
\<close>

theorem shift_click_selects_range:
  assumes "wf_page s" and "closest s toggle_sel u = None" and "closest s item_sel u = Some u"
    and "closest s table_sel u = Some tb" and "k < length (items_of s tb)" and "u = items_of s tb ! k"
    and "last_index s = Some (int a)" and "a < length (items_of s tb)"
  shows "\<exists>s'. on_click u True s = Done s' \<and> last_index s' = Some (int k) \<and>
    (\<forall>i < length (items_of s tb). checked (heap s' (items_of s tb ! i)) =
       (if min a k \<le> i \<and> i \<le> max a k then checked (heap s u)
        else checked (heap s (items_of s tb ! i))))"
proof -
  let ?us = "items_of s tb"
  let ?sl = "js_slice (min (int a) (int k)) (max (int a) (int k) + 1) ?us"
  have d: "distinct ?us" using assms(1) by (rule items_of_distinct)
  have cur: "index_of u ?us = int k" using d assms(5,6) by (simp add: index_of_nth)
  have "set ?sl = {?us ! i | i. min (int a) (int k) \<le> int i \<and> int i \<le> max (int a) (int k)}"
    using assms(5,8) by (intro set_js_slice_range) auto
  then have sl: "?us ! i \<in> set ?sl \<longleftrightarrow> min a k \<le> i \<and> i \<le> max a k" if "i < length ?us" for i
    using that assms(5,8) d by (auto simp: nth_eq_iff_index_eq min_def max_def split: if_splits)
  have "on_click u True s = Done ((fold (set_checked (checked (heap s u))) ?sl s)\<lparr>last_index := Some (int k)\<rparr>)"
    using assms(2-4,7) cur by (simp add: on_click_def click_toggle_def click_item_def Let_def)
  then show ?thesis by (simp add: checked_fold sl)
qed

section \<open>Consistency of the header checkbox\<close>

definition all_checked :: "cb_page \<Rightarrow> uid \<Rightarrow> bool" where
  "all_checked s tb \<longleftrightarrow> list_all (\<lambda>u. checked (heap s u)) (items_of s tb)"

definition any_checked :: "cb_page \<Rightarrow> uid \<Rightarrow> bool" where
  "any_checked s tb \<longleftrightarrow> list_ex (\<lambda>u. checked (heap s u)) (items_of s tb)"

definition header_consistent :: "cb_page \<Rightarrow> uid \<Rightarrow> bool" where
  "header_consistent s tb \<longleftrightarrow>
     (case qs s tb toggle_sel of
        None \<Rightarrow> True
      | Some t \<Rightarrow> checked (heap s t) = all_checked s tb \<and>
          indeterminate (heap s t) = (any_checked s tb \<and> \<not> all_checked s tb))"

text \<open>
  The layout the templates render: rows, header checkbox and the "select all" checkbox are
  three different kinds of element, and the rows of a table belong to no inner table.
\<close>

definition cb_layout :: "cb_page \<Rightarrow> uid \<Rightarrow> bool" where
  "cb_layout s tb \<longleftrightarrow> wf_page s \<and>
     list_all (\<lambda>u. closest s item_sel u = Some u \<and> closest s table_sel u = Some tb \<and>
       closest s toggle_sel u = None \<and> closest s select_all_sel u = None) (items_of s tb) \<and>
     (case qs s tb toggle_sel of
        None \<Rightarrow> True
      | Some t \<Rightarrow> closest s toggle_sel t = Some t \<and> closest s table_sel t = Some tb \<and>
          closest s item_sel t = None \<and> closest s select_all_sel t = None) \<and>
     (case doc_qs s select_all_sel of
        None \<Rightarrow> True
      | Some sa \<Rightarrow> closest s item_sel sa = None \<and> closest s toggle_sel sa = None)"

lemma same_layout_cb_layout: "same_layout s s' \<Longrightarrow> cb_layout s' tb = cb_layout s tb"
  by (simp add: cb_layout_def same_layout_queries same_layout_wf split: option.split)

lemma layout_item:
  assumes "cb_layout s tb" and "u \<in> set (items_of s tb)"
  shows "closest s item_sel u = Some u" and "closest s table_sel u = Some tb"
    and "closest s toggle_sel u = None" and "closest s select_all_sel u = None"
  using assms by (auto simp: cb_layout_def list_all_iff)

lemma layout_toggle:
  assumes "cb_layout s tb" and "qs s tb toggle_sel = Some t"
  shows "closest s toggle_sel t = Some t" and "closest s table_sel t = Some tb"
    and "closest s item_sel t = None" and "closest s select_all_sel t = None"
    and "t \<notin> set (items_of s tb)"
  using assms layout_item(3) [OF assms(1), of t] by (auto simp: cb_layout_def)

lemma layout_select_all:
  assumes "cb_layout s tb" and "doc_qs s select_all_sel = Some sa"
  shows "closest s item_sel sa = None" and "closest s toggle_sel sa = None"
    and "sa \<notin> set (items_of s tb)" and "qs s tb toggle_sel \<noteq> Some sa"
proof -
  show i: "closest s item_sel sa = None" and t: "closest s toggle_sel sa = None"
    using assms by (simp_all add: cb_layout_def)
  show "sa \<notin> set (items_of s tb)" using layout_item(1) [OF assms(1), of sa] i by auto
  show "qs s tb toggle_sel \<noteq> Some sa" using layout_toggle(1) [OF assms(1), of sa] t by auto
qed

lemma all_checked_cong:
  assumes "same_layout s s'" and "\<And>u. u \<in> set (items_of s tb) \<Longrightarrow> checked (heap s' u) = checked (heap s u)"
  shows "all_checked s' tb = all_checked s tb" and "any_checked s' tb = any_checked s tb"
  using assms by (auto simp: all_checked_def any_checked_def same_layout_queries list_all_iff list_ex_iff)

lemma header_consistent_cong:
  assumes "same_layout s s'"
    and "\<And>u. u \<in> set (items_of s tb) \<or> qs s tb toggle_sel = Some u \<Longrightarrow>
      checked (heap s' u) = checked (heap s u) \<and> indeterminate (heap s' u) = indeterminate (heap s u)"
  shows "header_consistent s' tb = header_consistent s tb"
  using assms all_checked_cong [OF assms(1)]
  by (auto simp: header_consistent_def same_layout_queries split: option.splits)

text \<open>\<open>input\<close> on a row: the row branch is the only one that acts, and it repairs the header.\<close>

definition repair_header :: "uid \<Rightarrow> cb_page \<Rightarrow> cb_page" where
  "repair_header tb s =
     (case qs s tb toggle_sel of
        None \<Rightarrow> s
      | Some t \<Rightarrow> set_indeterminate (any_checked s tb \<and> \<not> all_checked s tb) t
                     (set_checked (all_checked s tb) t s))"

lemma same_layout_repair: "same_layout s (repair_header tb s)"
proof (cases "qs s tb toggle_sel")
  case (Some t)
  have "same_layout s (set_checked (all_checked s tb) t s)" by simp
  also have "same_layout \<dots> (repair_header tb s)" using Some by (simp add: repair_header_def)
  finally show ?thesis .
qed (simp add: repair_header_def)

lemma on_input_item:
  assumes "cb_layout s tb" and "u \<in> set (items_of s tb)"
  shows "on_input u s = Done (repair_header tb s)"
proof -
  have ex: "list_ex (\<lambda>u. \<not> checked (heap s u)) (items_of s tb) = (\<not> all_checked s tb)"
    by (simp add: all_checked_def list_all_iff list_ex_iff)
  have "input_toggle u s = Done s" using layout_item(3) [OF assms] by (simp add: input_toggle_def)
  moreover have "input_item u s = Done (repair_header tb s)"
    using layout_item(1,2) [OF assms]
    by (simp add: input_item_def repair_header_def Let_def ex any_checked_def conj_commute split: option.split)
  moreover have "closest (repair_header tb s) select_all_sel u = None"
    using layout_item(4) [OF assms] same_layout_queries(8) [OF same_layout_repair [of s tb], of u] by simp
  ultimately show ?thesis by (simp add: on_input_def input_select_all_def)
qed

lemma repair_header_consistent:
  assumes "cb_layout s tb"
  shows "header_consistent (repair_header tb s) tb"
proof (cases "qs s tb toggle_sel")
  case None
  then show ?thesis
    by (simp add: header_consistent_def repair_header_def)
next
  case (Some t)
  let ?s' = "repair_header tb s"
  have nt: "t \<notin> set (items_of s tb)" using assms Some by (rule layout_toggle)
  have ac: "all_checked ?s' tb = all_checked s tb" "any_checked ?s' tb = any_checked s tb"
    using nt Some
    by (intro all_checked_cong [OF same_layout_repair]; force simp: repair_header_def checked_set_checked)+
  have "qs ?s' tb toggle_sel = Some t" using Some same_layout_queries(2) [OF same_layout_repair] by simp
  moreover have "checked (heap ?s' t) = all_checked s tb"
    and "indeterminate (heap ?s' t) = (any_checked s tb \<and> \<not> all_checked s tb)"
    using Some by (simp_all add: repair_header_def checked_set_checked indeterminate_set)
  ultimately show ?thesis by (simp add: header_consistent_def ac)
qed

text \<open>
  After \<open>input\<close> on any row the header checkbox is checked exactly when every visible row
  is, and shows the partial mark exactly when some rows but not all are checked.
\<close>

theorem item_input_repairs_header:
  assumes "cb_layout s tb" and "u \<in> set (items_of s tb)"
  shows "\<exists>s'. on_input u s = Done s' \<and> header_consistent s' tb \<and>
    (\<forall>v. qs s tb toggle_sel \<noteq> Some v \<longrightarrow> checked (heap s' v) = checked (heap s v))"
proof -
  have "\<forall>v. qs s tb toggle_sel \<noteq> Some v \<longrightarrow> checked (heap (repair_header tb s) v) = checked (heap s v)"
    by (auto simp: repair_header_def checked_set_checked split: option.split)
  with on_input_item [OF assms] repair_header_consistent [OF assms(1)] show ?thesis by blast
qed

section \<open>The announcements settle\<close>

lemma same_layout_class_d_none: "same_layout s (upd bx (class_toggle ''d-none'' b) s)"
  by (auto simp: same_layout_def heap_upd)

lemma input_toggle_effect:
  "\<exists>s'. input_toggle u s = Done s' \<and> same_layout s s' \<and>
     (\<forall>v. indeterminate (heap s' v) = indeterminate (heap s v)) \<and>
     (\<forall>v. doc_qs s select_all_sel \<noteq> Some v \<longrightarrow> checked (heap s' v) = checked (heap s v)) \<and>
     (pending s' = pending s \<or>
      (\<exists>sa. doc_qs s select_all_sel = Some sa \<and> pending s' = pending s @ [sa]))"
proof (cases "closest s toggle_sel u")
  case None
  then show ?thesis by (simp add: input_toggle_def)
next
  case (Some t)
  show ?thesis
  proof (cases "doc_qs s select_all_box_sel")
    case None
    with Some show ?thesis by (simp add: input_toggle_def)
  next
    case bx: (Some bx)
    let ?s1 = "upd bx (class_toggle ''d-none'' (Some (\<not> checked (heap s t)))) s"
    have l: "same_layout s ?s1" by (rule same_layout_class_d_none)
    have p1: "pending ?s1 = pending s" by (simp add: upd_def)
    have q1: "doc_qs ?s1 select_all_sel = doc_qs s select_all_sel" using l by (rule same_layout_queries)
    have f1: "checked (heap ?s1 v) = checked (heap s v)"
      "indeterminate (heap ?s1 v) = indeterminate (heap s v)" for v
      by (auto simp: heap_upd)
    show ?thesis
    proof (cases "checked (heap s t) \<or> doc_qs s select_all_sel = None")
      case True
      then have "input_toggle u s = Done ?s1"
        using Some bx q1 by (auto simp: input_toggle_def Let_def)
      with l p1 f1 show ?thesis by blast
    next
      case False
      then obtain sa where sa: "doc_qs s select_all_sel = Some sa" by auto
      with False have "input_toggle u s = Done (set_checked False sa ?s1)"
        using Some bx q1 by (auto simp: input_toggle_def Let_def)
      moreover have "same_layout s (set_checked False sa ?s1)"
        using l by (rule same_layout_trans) simp
      ultimately show ?thesis
        using sa by (auto simp: checked_set_checked pending_set_checked f1 p1)
    qed
  qed
qed

lemma input_select_all_effect:
  "\<exists>s'. input_select_all u s = Done s' \<and> same_layout s s' \<and> pending s' = pending s \<and>
     (\<forall>v. checked (heap s' v) = checked (heap s v) \<and> indeterminate (heap s' v) = indeterminate (heap s v))"
proof -
  have p: "pending (upd_all us f s) = pending s" for us f
    by (induction us arbitrary: s) (simp_all add: upd_def)
  have "checked (heap (upd_all us (\<lambda>e. e\<lparr>disabled := b\<rparr>) s) v) = checked (heap s v)"
    "indeterminate (heap (upd_all us (\<lambda>e. e\<lparr>disabled := b\<rparr>) s) v) = indeterminate (heap s v)" for us b v
    by (simp_all add: heap_upd_all)
  with p show ?thesis
    by (auto simp: input_select_all_def same_layout_disabled split: option.split)
qed

definition cb_known :: "cb_page \<Rightarrow> uid \<Rightarrow> uid \<Rightarrow> bool" where
  "cb_known s tb u \<longleftrightarrow> u \<in> set (items_of s tb) \<or> qs s tb toggle_sel = Some u \<or> doc_qs s select_all_sel = Some u"

definition cb_inv :: "uid \<Rightarrow> cb_page \<Rightarrow> bool" where
  "cb_inv tb s \<longleftrightarrow> cb_layout s tb \<and> list_all (cb_known s tb) (pending s) \<and>
     (header_consistent s tb \<or> list_ex (\<lambda>u. u \<in> set (items_of s tb)) (pending s))"

definition cb_rank :: "cb_page \<Rightarrow> uid \<Rightarrow> uid \<Rightarrow> nat" where
  "cb_rank s tb u = (if u \<in> set (items_of s tb) then 3 else if qs s tb toggle_sel = Some u then 2 else 1)"

definition cb_cost :: "uid \<Rightarrow> cb_page \<Rightarrow> nat" where
  "cb_cost tb s = sum_list (map (cb_rank s tb) (pending s))"

lemma same_layout_known: "same_layout s s' \<Longrightarrow> cb_known s' tb = cb_known s tb"
  by (simp add: cb_known_def fun_eq_iff same_layout_queries)

lemma same_layout_rank: "same_layout s s' \<Longrightarrow> cb_rank s' tb = cb_rank s tb"
  by (simp add: cb_rank_def fun_eq_iff same_layout_queries)

text \<open>One announcement: what it queues ranks below what it was.\<close>

lemma run_announcement_step:
  assumes inv: "cb_inv tb s" and pend: "pending s = u # q"
  shows "\<exists>new. pending (run_announcement u s) = q @ new \<and> same_layout s (run_announcement u s) \<and>
    list_all (cb_known s tb) new \<and> sum_list (map (cb_rank s tb) new) < cb_rank s tb u \<and>
    (u \<in> set (items_of s tb) \<longrightarrow> header_consistent (run_announcement u s) tb) \<and>
    (u \<notin> set (items_of s tb) \<longrightarrow> header_consistent (run_announcement u s) tb = header_consistent s tb)"
proof -
  let ?s0 = "s\<lparr>pending := q\<rparr>"
  have l0: "same_layout s ?s0" by simp
  have lay: "cb_layout s tb" and lay0: "cb_layout ?s0 tb"
    using inv same_layout_cb_layout [OF l0] by (auto simp: cb_inv_def)
  note q0 = same_layout_queries [OF l0]
  have run: "run_announcement u s = final_state (on_input u ?s0)"
    by (simp add: run_announcement_def pend)
  have "cb_known s tb u" using inv pend by (simp add: cb_inv_def)
  then consider (item) "u \<in> set (items_of s tb)" | (tog) "qs s tb toggle_sel = Some u"
    | (sa) "doc_qs s select_all_sel = Some u" by (auto simp: cb_known_def)
  then show ?thesis
  proof cases
    case item
    then have "u \<in> set (items_of ?s0 tb)" by (simp add: q0)
    then have r: "run_announcement u s = repair_header tb ?s0"
      using run on_input_item [OF lay0] by simp
    have l: "same_layout s (repair_header tb ?s0)"
      using l0 by (rule same_layout_trans) (rule same_layout_repair)
    have "\<exists>new. pending (repair_header tb ?s0) = q @ new \<and> list_all (cb_known s tb) new \<and>
      sum_list (map (cb_rank s tb) new) < 3"
      using layout_toggle(5) [OF lay]
      by (auto simp: repair_header_def q0 pending_set_checked cb_known_def cb_rank_def split: option.split)
    with r l item repair_header_consistent [OF lay0] show ?thesis
      by (auto simp: cb_rank_def)
  next
    case tog
    note t = layout_toggle [OF lay tog]
    obtain s' where s': "input_toggle u ?s0 = Done s'" "same_layout ?s0 s'"
      "\<forall>v. indeterminate (heap s' v) = indeterminate (heap s v)"
      "\<forall>v. doc_qs s select_all_sel \<noteq> Some v \<longrightarrow> checked (heap s' v) = checked (heap s v)"
      "pending s' = q \<or> (\<exists>sa. doc_qs s select_all_sel = Some sa \<and> pending s' = q @ [sa])"
      using input_toggle_effect [of u ?s0] by (auto simp: q0)
    have l: "same_layout s s'" using l0 s'(2) by (rule same_layout_trans)
    have "on_input u ?s0 = Done s'"
      using s'(1) t(3,4) same_layout_queries(5,8) [OF l, of u]
      by (simp add: on_input_def input_item_def input_select_all_def)
    then have r: "run_announcement u s = s'" using run by simp
    have hc: "header_consistent s' tb = header_consistent s tb"
      using s'(3,4) layout_select_all(3,4) [OF lay] by (intro header_consistent_cong [OF l]) blast
    from s'(5) show ?thesis
    proof
      assume "pending s' = q"
      with r l hc t(5) tog show ?thesis by (auto simp: cb_rank_def)
    next
      assume "\<exists>sa. doc_qs s select_all_sel = Some sa \<and> pending s' = q @ [sa]"
      then obtain sa where sa: "doc_qs s select_all_sel = Some sa" and p: "pending s' = q @ [sa]" by auto
      have "cb_rank s tb sa = 1" "cb_known s tb sa"
        using layout_select_all(3,4) [OF lay sa] sa by (auto simp: cb_rank_def cb_known_def)
      moreover have "cb_rank s tb u = 2" using t(5) tog by (simp add: cb_rank_def)
      ultimately have "list_all (cb_known s tb) [sa] \<and> sum_list (map (cb_rank s tb) [sa]) < cb_rank s tb u"
        by simp
      with r l hc t(5) p show ?thesis by blast
    qed
  next
    case sa
    note a = layout_select_all [OF lay sa]
    obtain s' where s': "input_select_all u ?s0 = Done s'" "same_layout ?s0 s'" "pending s' = q"
      "\<forall>v. checked (heap s' v) = checked (heap s v) \<and> indeterminate (heap s' v) = indeterminate (heap s v)"
      using input_select_all_effect [of u ?s0] by auto
    have l: "same_layout s s'" using l0 s'(2) by (rule same_layout_trans)
    have "on_input u ?s0 = Done s'"
      using s'(1) a(1,2) by (simp add: on_input_def input_toggle_def input_item_def q0)
    then have r: "run_announcement u s = s'" using run by simp
    have "header_consistent s' tb = header_consistent s tb"
      using s'(4) by (intro header_consistent_cong [OF l]) blast
    moreover have "cb_rank s tb u = 1" using a(3,4) by (simp add: cb_rank_def)
    ultimately show ?thesis using r l a(3) s'(3) by auto
  qed
qed

interpretation cb: task_loop pending run_announcement "cb_inv tb" "cb_cost tb" for tb
proof
  fix s :: cb_page and e q
  assume inv: "cb_inv tb s" and pend: "pending s = e # q"
  from run_announcement_step [OF inv pend] obtain new where
    p: "pending (run_announcement e s) = q @ new" and l: "same_layout s (run_announcement e s)"
    and k: "list_all (cb_known s tb) new" and r: "sum_list (map (cb_rank s tb) new) < cb_rank s tb e"
    and c1: "e \<in> set (items_of s tb) \<longrightarrow> header_consistent (run_announcement e s) tb"
    and c2: "e \<notin> set (items_of s tb) \<longrightarrow> header_consistent (run_announcement e s) tb = header_consistent s tb"
    by blast
  show "cb_inv tb (run_announcement e s)"
    using inv pend p k c1 c2 same_layout_cb_layout [OF l] same_layout_known [OF l]
    by (auto simp: cb_inv_def same_layout_queries(1) [OF l])
  show "cb_cost tb (run_announcement e s) < cb_cost tb s"
    using pend p r same_layout_rank [OF l] by (simp add: cb_cost_def)
qed

section \<open>A user's click\<close>

definition flip :: "uid \<Rightarrow> cb_page \<Rightarrow> cb_page" where
  "flip u s = upd u (\<lambda>e. e\<lparr>checked := \<not> checked e, indeterminate := False\<rparr>) s"

lemma same_layout_flip: "same_layout s (flip u s)"
  by (auto simp: same_layout_def flip_def heap_upd has_class_def)

lemma pending_flip: "pending (flip u s) = pending s"
  by (simp add: flip_def upd_def)

lemma user_click_flip: "user_click u shift s = final_state (on_input u (final_state (on_click u shift (flip u s))))"
  by (simp add: user_click_def flip_def)

lemma click_item_effect:
  assumes "wf_page s" and "closest s toggle_sel u = None" and "closest s item_sel u = Some u"
    and "closest s table_sel u = Some tb"
  shows "\<exists>s' new. on_click u shift s = Done s' \<and> same_layout s s' \<and> pending s' = pending s @ new \<and>
    set new \<subseteq> set (items_of s tb) \<and> length new \<le> length (items_of s tb)"
proof -
  let ?all = "items_of s tb" and ?b = "checked (heap s u)"
  let ?cur = "index_of u ?all"
  define sl where "sl = (case last_index s of Some a \<Rightarrow>
    if shift then js_slice (min a ?cur) (max a ?cur + 1) ?all else [] | None \<Rightarrow> [])"
  let ?s' = "(fold (set_checked ?b) sl s)\<lparr>last_index := Some ?cur\<rparr>"
  have "on_click u shift s = Done ?s'"
    using assms(2-4) by (simp add: on_click_def click_toggle_def click_item_def sl_def Let_def split: option.split)
  moreover have "same_layout s ?s'"
    using same_layout_fold [of s ?b sl] by (rule same_layout_trans) simp
  moreover have d: "distinct sl" and sub: "set sl \<subseteq> set ?all" and len: "length sl \<le> length ?all"
    using items_of_distinct [OF assms(1), of tb] set_js_slice_subset [of _ _ ?all]
    by (auto simp: sl_def js_slice_def Let_def split: option.split)
  moreover have "length (filter P sl) \<le> length ?all" for P
    using len by (metis length_filter_le order_trans)
  moreover have "set (filter P sl) \<subseteq> set ?all" for P
    using sub by auto
  ultimately show ?thesis by (auto simp: pending_fold)
qed

lemma cb_cost_bound: "cb_cost tb s \<le> 3 * length (pending s)"
proof -
  have "sum_list (map (cb_rank s tb) xs) \<le> 3 * length xs" for xs
    by (induction xs) (auto simp: cb_rank_def)
  then show ?thesis by (simp add: cb_cost_def)
qed

lemma user_click_item:
  assumes lay: "cb_layout s tb" and "pending s = []" and u: "u \<in> set (items_of s tb)"
  shows "cb_inv tb (user_click u shift s) \<and> length (pending (user_click u shift s)) \<le> length (items_of s tb) + 1"
proof -
  let ?s0 = "flip u s"
  note l0 = same_layout_flip [of s u]
  note q0 = same_layout_queries [OF l0]
  have lay0: "cb_layout ?s0 tb" using lay same_layout_cb_layout [OF l0] by simp
  have "wf_page ?s0" using lay0 by (simp add: cb_layout_def)
  then obtain s1 new where c: "on_click u shift ?s0 = Done s1" and l1: "same_layout ?s0 s1"
    and p: "pending s1 = new" and sub: "set new \<subseteq> set (items_of s tb)" and len: "length new \<le> length (items_of s tb)"
    using click_item_effect [of ?s0 u tb shift] layout_item [OF lay u] assms(2)
    by (auto simp: q0 pending_flip)
  have l: "same_layout s s1" using l0 l1 by (rule same_layout_trans)
  note q1 = same_layout_queries [OF l]
  have lay1: "cb_layout s1 tb" using lay same_layout_cb_layout [OF l] by simp
  have r: "user_click u shift s = repair_header tb s1"
    using c on_input_item [OF lay1, of u] u by (simp add: user_click_flip q1)
  have l2: "same_layout s (repair_header tb s1)"
    using l same_layout_repair by (rule same_layout_trans)
  have "list_all (cb_known s tb) (pending (repair_header tb s1))"
    using sub by (auto simp: repair_header_def q1 pending_set_checked p cb_known_def list_all_iff split: option.split)
  then have "cb_inv tb (repair_header tb s1)"
    using lay same_layout_cb_layout [OF l2] same_layout_known [OF l2] repair_header_consistent [OF lay1]
    by (simp add: cb_inv_def)
  moreover have "length (pending (repair_header tb s1)) \<le> length (items_of s tb) + 1"
    using len by (simp add: repair_header_def pending_set_checked p split: option.split)
  ultimately show ?thesis by (simp add: r)
qed

lemma user_click_toggle:
  assumes lay: "cb_layout s tb" and "pending s = []" and t: "qs s tb toggle_sel = Some u"
    and ne: "items_of s tb \<noteq> []"
  shows "cb_inv tb (user_click u shift s) \<and> length (pending (user_click u shift s)) \<le> length (items_of s tb) + 1"
proof -
  let ?s0 = "flip u s" and ?items = "items_of s tb"
  let ?s1 = "click_toggle_result u tb ?s0"
  note l0 = same_layout_flip [of s u]
  note q0 = same_layout_queries [OF l0]
  note tt = layout_toggle [OF lay t]
  have c: "on_click u shift ?s0 = Done ?s1"
    using tt by (intro on_click_toggle) (simp_all add: q0)
  have l1: "same_layout s ?s1" using l0 same_layout_click_toggle by (rule same_layout_trans)
  note q1 = same_layout_queries [OF l1]
  have "all_checked ?s1 tb = checked (heap ?s1 u)" and "any_checked ?s1 tb = checked (heap ?s1 u)"
    using ne tt(5) by (auto simp: all_checked_def any_checked_def q1 q0 click_toggle_result_simps
        list_all_iff list_ex_iff neq_Nil_conv)
  then have hc1: "header_consistent ?s1 tb"
    using t by (auto simp: header_consistent_def q1 click_toggle_result_simps)
  have wf0: "wf_page ?s0" using lay same_layout_wf [OF l0] by (simp add: cb_layout_def)
  have p1: "set (pending ?s1) \<subseteq> set ?items" "length (pending ?s1) \<le> length ?items"
    using assms(2) by (auto simp: pending_click_toggle [OF wf0] pending_flip q0)
  obtain s' where s': "input_toggle u ?s1 = Done s'" "same_layout ?s1 s'"
    "\<forall>v. indeterminate (heap s' v) = indeterminate (heap ?s1 v)"
    "\<forall>v. doc_qs s select_all_sel \<noteq> Some v \<longrightarrow> checked (heap s' v) = checked (heap ?s1 v)"
    "pending s' = pending ?s1 \<or> (\<exists>sa. doc_qs s select_all_sel = Some sa \<and> pending s' = pending ?s1 @ [sa])"
    using input_toggle_effect [of u ?s1] by (auto simp: q1)
  have l: "same_layout s s'" using l1 s'(2) by (rule same_layout_trans)
  have "on_input u ?s1 = Done s'"
    using s'(1) tt(3,4) same_layout_queries(5,8) [OF l, of u]
    by (simp add: on_input_def input_item_def input_select_all_def)
  then have r: "user_click u shift s = s'" using c by (simp add: user_click_flip)
  have "header_consistent s' tb = header_consistent ?s1 tb"
    using s'(3,4) layout_select_all(3,4) [OF lay] by (intro header_consistent_cong [OF s'(2)]) (auto simp: q1)
  with hc1 have hc: "header_consistent s' tb" by simp
  have "list_all (cb_known s tb) (pending s')"
    using s'(5) p1(1) by (auto simp: cb_known_def list_all_iff)
  then have "cb_inv tb s'"
    using lay same_layout_cb_layout [OF l] same_layout_known [OF l] hc by (simp add: cb_inv_def)
  moreover have "length (pending s') \<le> length ?items + 1" using s'(5) p1(2) by auto
  ultimately show ?thesis by (simp add: r)
qed

text \<open>
  C1: After any user click on a row or on the header checkbox of a table with rows, plain
  or with Shift, running the deferred announcements comes to rest (three per row and three
  more are enough), nothing is left pending, and the header checkbox agrees with the rows.
\<close>

theorem selection_settles:
  assumes "cb_layout s tb" and "pending s = []"
    and "u \<in> set (items_of s tb) \<or> qs s tb toggle_sel = Some u \<and> items_of s tb \<noteq> []"
  shows "\<exists>t. drain pending run_announcement (3 * length (items_of s tb) + 3) (user_click u shift s) = Some t \<and>
    header_consistent t tb \<and> pending t = []"
proof -
  let ?c = "user_click u shift s"
  have "cb_inv tb ?c \<and> length (pending ?c) \<le> length (items_of s tb) + 1"
    using assms user_click_item user_click_toggle by blast
  moreover from this have "cb_cost tb ?c \<le> 3 * length (items_of s tb) + 3"
    using cb_cost_bound [of tb ?c] by linarith
  ultimately obtain t where "drain pending run_announcement (3 * length (items_of s tb) + 3) ?c = Some t"
    and "cb_inv tb t" and "pending t = []"
    using cb.comes_to_rest by blast
  then show ?thesis by (auto simp: cb_inv_def)
qed

section \<open>A page on which the hypotheses hold\<close>

definition box_elem :: "(string \<times> string) list \<Rightarrow> string list \<Rightarrow> bool \<Rightarrow> elem" where
  "box_elem as cs b = (new_elem ''INPUT'')\<lparr>attrs := (''type'', ''checkbox'') # as, classes := cs, checked := b\<rparr>"

definition demo_page :: "int option \<Rightarrow> bool \<Rightarrow> cb_page" where
  "demo_page anchor b =
     \<lparr>doc = Node 0 [Node 9 [Node 2 [], Node 3 [], Node 4 [], Node 5 []], Node 6 [Node 7 [], Node 8 []]],
      heap = (\<lambda>u. if u = 9 then new_elem ''TABLE''
        else if u = 2 then box_elem [] [''toggle''] b
        else if u = 3 then box_elem [(''name'', ''pk'')] [] False
        else if u = 4 then box_elem [(''name'', ''pk'')] [] False
        else if u = 5 then box_elem [(''name'', ''pk'')] [] True
        else if u = 6 then (new_elem ''DIV'')\<lparr>attrs := [(''id'', ''select_all_box'')]\<rparr>
        else if u = 7 then box_elem [(''id'', ''select_all'')] [] False
        else if u = 8 then new_elem ''BUTTON'' else new_elem ''BODY''),
      focus = None, last_index = anchor, pending = []\<rparr>"

theorem toggle_click_selects_all_witness:
  "\<exists>s'. on_click 2 False (demo_page (Some 1) True) = Done s' \<and> checked (heap s' 3) \<and>
     checked (heap s' 4) \<and> last_index s' = None \<and> pending s' = [3, 4]"
proof -
  let ?s = "demo_page (Some 1) True"
  have h: "wf_page ?s" "closest ?s toggle_sel 2 = Some 2" "closest ?s item_sel 2 = None"
    "closest ?s table_sel 2 = Some 9" by code_simp+
  obtain s' where "on_click 2 False ?s = Done s'"
    using toggle_click_selects_all [OF h, of False] by blast
  moreover have "(case on_click 2 False ?s of
      Done t \<Rightarrow> checked (heap t 3) \<and> checked (heap t 4) \<and> last_index t = None \<and> pending t = [3, 4] | _ \<Rightarrow> False)"
    by code_simp
  ultimately show ?thesis by simp
qed

theorem shift_click_selects_range_witness:
  "\<exists>s'. on_click 5 True (demo_page (Some 1) True) = Done s' \<and> last_index s' = Some 2 \<and>
     \<not> checked (heap s' 3) \<and> checked (heap s' 4) \<and> checked (heap s' 5)"
proof -
  let ?s = "demo_page (Some 1) True"
  have h: "wf_page ?s" "closest ?s toggle_sel 5 = None" "closest ?s item_sel 5 = Some 5"
    "closest ?s table_sel 5 = Some 9" "2 < length (items_of ?s 9)" "5 = items_of ?s 9 ! 2"
    "last_index ?s = Some (int 1)" "1 < length (items_of ?s 9)" by code_simp+
  obtain s' where "on_click 5 True ?s = Done s'"
    using shift_click_selects_range [OF h] by blast
  moreover have "(case on_click 5 True ?s of
      Done t \<Rightarrow> last_index t = Some 2 \<and> \<not> checked (heap t 3) \<and> checked (heap t 4) \<and> checked (heap t 5) | _ \<Rightarrow> False)"
    by code_simp
  ultimately show ?thesis by simp
qed

theorem item_input_repairs_header_witness:
  "\<exists>s'. on_input 3 (demo_page None True) = Done s' \<and> \<not> checked (heap s' 2) \<and> indeterminate (heap s' 2)"
proof -
  let ?s = "demo_page None True"
  have h: "cb_layout ?s 9" "3 \<in> set (items_of ?s 9)" by code_simp+
  obtain s' where "on_input 3 ?s = Done s'" using item_input_repairs_header [OF h] by blast
  moreover have "(case on_input 3 ?s of Done t \<Rightarrow> \<not> checked (heap t 2) \<and> indeterminate (heap t 2) | _ \<Rightarrow> False)"
    by code_simp
  ultimately show ?thesis by simp
qed

theorem selection_settles_witness:
  "\<exists>t. drain pending run_announcement 12 (user_click 2 False (demo_page None False)) = Some t \<and>
     header_consistent t 9 \<and> pending t = []"
proof -
  let ?s = "demo_page None False"
  have h: "cb_layout ?s 9" "pending ?s = []" "2 \<in> set (items_of ?s 9) \<or> qs ?s 9 toggle_sel = Some 2 \<and> items_of ?s 9 \<noteq> []"
    and i: "3 * length (items_of ?s 9) + 3 = 12" by code_simp+
  show ?thesis using selection_settles [OF h, of False] unfolding i .
qed

end
