(* ===== verification/Checkbox_Copies.thy ===== *)
theory Checkbox_Copies
  imports Checkbox
begin

text \<open>
  \<open>initializeCheckboxes\<close> of \<open>ui/src/js/checkbox.js\<close> runs again for every form that is
  initialized and for every fragment htmx loads (\<open>project-static/js/forms.js\<close>), and each run
  adds listeners to the document that nothing removes. Every copy of the click listener has
  an anchor of its own; the document is the one they share.
\<close>

section \<open>The copies\<close>

text \<open>The anchors of the copies in the order of their registration; a new copy has none yet.\<close>

definition initialize_again :: "int option list \<Rightarrow> int option list" where
  "initialize_again anchors = anchors @ [None]"

fun click_copies :: "uid \<Rightarrow> bool \<Rightarrow> int option list \<Rightarrow> cb_page \<Rightarrow> cb_page \<times> int option list" where
  "click_copies target shift [] s = (s, [])"
| "click_copies target shift (a # as) s =
     (let r = final_state (on_click target shift (s\<lparr>last_index := a\<rparr>));
          (q, bs) = click_copies target shift as r
      in (q, last_index r # bs))"

lemma click_copies_Cons:
  fixes target shift a s
  defines "r \<equiv> final_state (on_click target shift (s\<lparr>last_index := a\<rparr>))"
  shows "fst (click_copies target shift (a # as) s) = fst (click_copies target shift as r)"
    and "snd (click_copies target shift (a # as) s) = last_index r # snd (click_copies target shift as r)"
  by (simp_all add: r_def Let_def case_prod_beta)

declare click_copies.simps(2) [simp del]

section \<open>A second run changes nothing\<close>

lemma set_checked_noop: "checked (heap s u) = b \<Longrightarrow> set_checked b u s = s"
  by (simp add: set_checked_def)

lemma fold_set_checked_noop: "(\<And>u. u \<in> set us \<Longrightarrow> checked (heap s u) = b) \<Longrightarrow> fold (set_checked b) us s = s"
  by (induction us) (simp_all add: set_checked_noop)

lemma set_indeterminate_noop: "indeterminate (heap s t) = b \<Longrightarrow> set_indeterminate b t s = s"
proof -
  assume i: "indeterminate (heap s t) = b"
  have "(heap s)(t := (heap s t)\<lparr>indeterminate := indeterminate (heap s t)\<rparr>) = heap s" by simp
  with i show ?thesis by (simp add: set_indeterminate_def upd_def)
qed

lemma last_index_update [simp]: "s\<lparr>last_index := last_index s\<rparr> = s"
  by simp

lemma heap_last_index [simp]: "heap (s\<lparr>last_index := a\<rparr>) = heap s"
  by simp

text \<open>The two parts of the click listener, each run a second time with the anchor it had.\<close>

lemma click_toggle_again:
  assumes "click_toggle target s = Done r"
  shows "click_toggle target (r\<lparr>last_index := last_index s\<rparr>) = Done r"
proof (cases "closest s toggle_sel target")
  case None
  with assms show ?thesis by (simp add: click_toggle_def)
next
  case (Some t)
  then obtain tb where tb: "closest s table_sel t = Some tb"
    and r: "r = click_toggle_result t tb s"
    using assms by (auto simp: click_toggle_def click_toggle_result_def split: option.splits)
  let ?s = "r\<lparr>last_index := last_index s\<rparr>"
  have l: "same_layout s ?s"
    using same_layout_click_toggle r same_layout_last_index same_layout_trans by blast
  note q = same_layout_queries [OF l]
  have c: "checked (heap r u) = (if u \<in> set (items_of s tb) then checked (heap s t) else checked (heap s u))"
    "\<not> indeterminate (heap r t)" for u
    by (simp_all add: r click_toggle_result_simps)
  have "fold (set_checked (checked (heap ?s t))) (items_of s tb) ?s = ?s"
    by (rule fold_set_checked_noop) (simp add: c)
  moreover have "set_indeterminate False t ?s = ?s" using c(2) by (intro set_indeterminate_noop) simp
  moreover have "?s\<lparr>last_index := None\<rparr> = r" by (simp add: r click_toggle_result_def)
  ultimately show ?thesis using Some tb by (simp add: click_toggle_def q)
qed

text \<open>Which rows a click on an item reaches from an anchor.\<close>

definition reached :: "uid \<Rightarrow> uid \<Rightarrow> bool \<Rightarrow> cb_page \<Rightarrow> uid list" where
  "reached tb i shift s =
     (let us = items_of s tb; cur = index_of i us
      in case last_index s of
           None \<Rightarrow> []
         | Some a \<Rightarrow> if shift then js_slice (min a cur) (max a cur + 1) us else [])"

lemma reached_cong:
  "items_of w tb = items_of s tb \<Longrightarrow> last_index w = last_index s \<Longrightarrow> reached tb i shift w = reached tb i shift s"
  by (simp add: reached_def)

lemma click_item_reached:
  assumes "closest s item_sel target = Some i" and "closest s table_sel i = Some tb"
  shows "click_item target shift s =
    Done ((fold (set_checked (checked (heap s i))) (reached tb i shift s) s)\<lparr>last_index := Some (index_of i (items_of s tb))\<rparr>)"
  using assms by (simp add: click_item_def reached_def Let_def split: option.split)

lemma click_item_again:
  "final_state (click_item target shift ((final_state (click_item target shift s))\<lparr>last_index := last_index s\<rparr>)) =
     final_state (click_item target shift s)"
proof (cases "closest s item_sel target = None \<or> (\<exists>i. closest s item_sel target = Some i \<and> closest s table_sel i = None)")
  case True
  then show ?thesis by (auto simp: click_item_def)
next
  case False
  then obtain i tb where i: "closest s item_sel target = Some i" "closest s table_sel i = Some tb" by auto
  let ?us = "reached tb i shift s" and ?b = "checked (heap s i)"
  let ?f = "fold (set_checked ?b) ?us s" and ?cur = "index_of i (items_of s tb)"
  let ?t = "?f\<lparr>last_index := last_index s\<rparr>"
  have l: "same_layout s ?t" using same_layout_fold same_layout_last_index same_layout_trans by blast
  note q = same_layout_queries [OF l]
  have b: "checked (heap ?f u) = (if u \<in> set ?us then ?b else checked (heap s u))" for u by (simp add: checked_fold)
  have "reached tb i shift ?t = ?us" by (rule reached_cong) (simp_all only: q(1), simp)
  moreover have "checked (heap ?t i) = ?b" using b by simp
  moreover have "fold (set_checked ?b) ?us ?t = ?t" by (rule fold_set_checked_noop) (simp add: b)
  moreover have "closest ?t item_sel target = Some i" "closest ?t table_sel i = Some tb" using i q by simp_all
  ultimately show ?thesis using q(1) by (simp add: click_item_reached i)
qed

text \<open>What a click on an item does, in one equation, and the anchor it leaves.\<close>

definition new_anchor :: "uid \<Rightarrow> cb_page \<Rightarrow> int option \<Rightarrow> int option" where
  "new_anchor target s d =
     (case closest s item_sel target of
        None \<Rightarrow> d
      | Some i \<Rightarrow>
          (case closest s table_sel i of None \<Rightarrow> d | Some tb \<Rightarrow> Some (index_of i (items_of s tb))))"

lemma click_item_final:
  "\<exists>b us. final_state (click_item target shift s) =
     (fold (set_checked b) us s)\<lparr>last_index := new_anchor target s (last_index s)\<rparr> \<and> (last_index s = None \<longrightarrow> us = [])"
proof (cases "closest s item_sel target = None \<or> (\<exists>i. closest s item_sel target = Some i \<and> closest s table_sel i = None)")
  case True
  then have "final_state (click_item target shift s) = s" and "new_anchor target s (last_index s) = last_index s"
    by (auto simp: click_item_def new_anchor_def)
  then show ?thesis by (intro exI [of _ "[]"] exI) simp
next
  case False
  then obtain i tb where i: "closest s item_sel target = Some i" "closest s table_sel i = Some tb" by auto
  have "last_index s = None \<longrightarrow> reached tb i shift s = []" by (simp add: reached_def)
  then show ?thesis
    by (intro exI [of _ "reached tb i shift s"] exI [of _ "checked (heap s i)"])
       (simp add: click_item_reached [OF i] new_anchor_def i)
qed

lemma click_item_no_anchor:
  assumes "last_index s = None"
  shows "(final_state (click_item target shift s))\<lparr>last_index := a\<rparr> = s\<lparr>last_index := a\<rparr>"
  using click_item_final [of target shift s] assms by auto

lemma click_item_layout: "same_layout s (final_state (click_item target shift s))"
  using click_item_final [of target shift s] same_layout_fold same_layout_last_index same_layout_trans by metis

lemma click_item_anchor: "last_index (final_state (click_item target shift s)) = new_anchor target s (last_index s)"
  using click_item_final [of target shift s] by auto

lemma new_anchor_layout: "same_layout s s' \<Longrightarrow> new_anchor target s' d = new_anchor target s d"
  by (simp add: new_anchor_def same_layout_queries split: option.split)

lemma click_toggle_cases:
  "(closest s toggle_sel target = None \<and> click_toggle target s = Done s) \<or>
   (\<exists>t. closest s toggle_sel target = Some t \<and> closest s table_sel t = None \<and> click_toggle target s = Throw TypeError s) \<or>
   (\<exists>t tb. closest s toggle_sel target = Some t \<and> closest s table_sel t = Some tb \<and>
      click_toggle target s = Done (click_toggle_result t tb s))"
  by (auto simp: click_toggle_def click_toggle_result_def split: option.split)

lemma click_layout: "same_layout s (final_state (on_click target shift s))"
proof -
  have "same_layout s (final_state (click_item target shift (click_toggle_result t tb s)))" for t tb
    using same_layout_click_toggle click_item_layout by (rule same_layout_trans)
  then show ?thesis using click_toggle_cases [of s target] click_item_layout by (auto simp: on_click_def)
qed

lemma click_anchor:
  "last_index (final_state (on_click target shift s)) =
     (case closest s toggle_sel target of
        None \<Rightarrow> new_anchor target s (last_index s)
      | Some t \<Rightarrow> if closest s table_sel t = None then last_index s else new_anchor target s None)"
  using click_toggle_cases [of s target] new_anchor_layout [OF same_layout_click_toggle]
  by (auto simp: on_click_def click_item_anchor click_toggle_result_simps)

lemma click_again:
  "final_state (on_click target shift ((final_state (on_click target shift s))\<lparr>last_index := last_index s\<rparr>)) =
     final_state (on_click target shift s)"
  using click_toggle_cases [of s target]
proof (elim disjE exE conjE)
  assume n: "closest s toggle_sel target = None" and "click_toggle target s = Done s"
  then have on: "on_click target shift s = click_item target shift s" by (simp add: on_click_def)
  let ?t = "(final_state (click_item target shift s))\<lparr>last_index := last_index s\<rparr>"
  have "same_layout s ?t" using click_item_layout same_layout_last_index same_layout_trans by blast
  then have "click_toggle target ?t = Done ?t" using n by (simp add: click_toggle_def same_layout_queries)
  then show ?thesis using click_item_again [of target shift s] by (simp add: on) (simp add: on_click_def)
next
  fix t assume "click_toggle target s = Throw TypeError s"
  then show ?thesis by (simp add: on_click_def)
next
  fix t tb assume d: "click_toggle target s = Done (click_toggle_result t tb s)"
  let ?r = "click_toggle_result t tb s"
  have on: "on_click target shift s = click_item target shift ?r" using d by (simp add: on_click_def)
  have "click_toggle target (?r\<lparr>last_index := last_index s\<rparr>) = Done ?r" using d by (rule click_toggle_again)
  then show ?thesis by (simp add: on click_item_no_anchor click_toggle_result_simps) (simp add: on_click_def)
qed

section \<open>Copies agree\<close>

definition in_table :: "uid \<Rightarrow> cb_page \<Rightarrow> bool" where
  "in_table target s \<longleftrightarrow>
     (case closest s toggle_sel target of
        Some t \<Rightarrow> closest s table_sel t \<noteq> None
      | None \<Rightarrow> (case closest s item_sel target of Some i \<Rightarrow> closest s table_sel i \<noteq> None | None \<Rightarrow> False))"

lemma click_copies_anchors:
  assumes "in_table target s" and "same_layout s s'"
  shows "\<forall>b \<in> set (snd (click_copies target shift as s')).
    b = last_index (final_state (on_click target shift s))"
  using assms(2)
proof (induction as arbitrary: s')
  case (Cons a as)
  let ?r = "final_state (on_click target shift (s'\<lparr>last_index := a\<rparr>))"
  have l: "same_layout s (s'\<lparr>last_index := a\<rparr>)" using Cons.prems same_layout_last_index same_layout_trans by blast
  then have "last_index ?r = last_index (final_state (on_click target shift s))"
    using assms(1) new_anchor_layout [OF l] same_layout_queries [OF l]
    by (auto simp: click_anchor in_table_def new_anchor_def split: option.splits)
  moreover have "same_layout s ?r" using l click_layout same_layout_trans by blast
  ultimately show ?case using Cons.IH [of ?r] by (simp add: click_copies_Cons)
qed simp

lemma click_copies_length [simp]: "length (snd (click_copies target shift as s)) = length as"
  by (induction as arbitrary: s) (auto simp: click_copies_Cons)

lemma click_copies_same:
  "fst (click_copies target shift (replicate n a) (final_state (on_click target shift (s\<lparr>last_index := a\<rparr>)))) =
     final_state (on_click target shift (s\<lparr>last_index := a\<rparr>))"
proof (induction n)
  case (Suc n)
  have "final_state (on_click target shift ((final_state (on_click target shift (s\<lparr>last_index := a\<rparr>)))\<lparr>last_index := a\<rparr>)) =
      final_state (on_click target shift (s\<lparr>last_index := a\<rparr>))"
    using click_again [of target shift "s\<lparr>last_index := a\<rparr>"] by simp
  with Suc show ?case by (simp add: click_copies_Cons)
qed simp

text \<open>
  C10: Initializing again and again does no harm to the selection: however many copies of the
  click listener there are and whatever anchors they have, one click on a check box of a
  table gives all of them the same anchor, and from then on all copies together select
  exactly what a single one would.
\<close>

theorem copies_select_like_one:
  assumes "in_table target s" and "anchors \<noteq> []"
  shows "\<exists>b. snd (click_copies target shift anchors s) = replicate (length anchors) b \<and>
    fst (click_copies target2 shift2 (snd (click_copies target shift anchors s)) q) =
      final_state (on_click target2 shift2 (q\<lparr>last_index := b\<rparr>))"
proof -
  let ?b = "last_index (final_state (on_click target shift s))"
  have "snd (click_copies target shift anchors s) = replicate (length anchors) ?b"
    using click_copies_anchors [OF assms(1) same_layout_refl, of shift anchors]
    by (intro replicate_eqI) auto
  moreover obtain n where "length anchors = Suc n" using assms(2) by (cases anchors) auto
  moreover have "fst (click_copies target2 shift2 (replicate (Suc n) ?b) q) =
      final_state (on_click target2 shift2 (q\<lparr>last_index := ?b\<rparr>))"
    using click_copies_same [of target2 shift2 n ?b q] by (simp add: click_copies_Cons)
  ultimately show ?thesis by auto
qed

lemma copies_select_like_one_witness:
  "fst (click_copies 5 True (snd (click_copies 3 False (initialize_again [Some 1]) (demo_page None False))) (demo_page None False)) =
     final_state (on_click 5 True ((demo_page None False)\<lparr>last_index := Some 0\<rparr>))"
proof -
  have h: "in_table 3 (demo_page None False)" "initialize_again [Some 1] \<noteq> []" by code_simp+
  have len: "length (initialize_again [Some 1]) = 2" by (simp add: initialize_again_def)
  obtain b where b: "snd (click_copies 3 False (initialize_again [Some 1]) (demo_page None False)) = replicate 2 b"
    "fst (click_copies 5 True (snd (click_copies 3 False (initialize_again [Some 1]) (demo_page None False))) (demo_page None False)) =
      final_state (on_click 5 True ((demo_page None False)\<lparr>last_index := b\<rparr>))"
    using copies_select_like_one [OF h, of False 5 True "demo_page None False"] unfolding len by blast
  have "snd (click_copies 3 False (initialize_again [Some 1]) (demo_page None False)) = [Some 0, Some 0]" by code_simp
  with b(1) have "b = Some 0" by (simp add: numeral_2_eq_2)
  with b(2) show ?thesis by simp
qed

end
