(* ===== verification/Web_Storage.thy ===== *)
theory Web_Storage
  imports Prelude
begin

text \<open>
  Where the scripts remember a user's choices: an interface of keyed stores, which both
  the cookies (theory \<open>Cookies\<close>) and the web storage of the browser provide, and the web
  storage itself. \<open>localStorage\<close> and \<open>sessionStorage\<close> are maps from strings to strings
  that may be missing (the scripts read them through \<open>?.\<close>).
\<close>

locale kv_store =
  fixes lookup :: "string \<Rightarrow> 's \<Rightarrow> string option"
    and put :: "string \<Rightarrow> string \<Rightarrow> 's \<Rightarrow> 's"
    and del :: "string \<Rightarrow> 's \<Rightarrow> 's"
    and wf :: "'s \<Rightarrow> bool"
    and good_key :: "string \<Rightarrow> bool"
    and good_val :: "string \<Rightarrow> bool"
  assumes wf_put: "wf s \<Longrightarrow> good_key k \<Longrightarrow> good_val v \<Longrightarrow> wf (put k v s)"
    and wf_del: "wf s \<Longrightarrow> good_key k \<Longrightarrow> wf (del k s)"
    and lookup_put: "wf s \<Longrightarrow> good_key k \<Longrightarrow> good_val v \<Longrightarrow> good_key k' \<Longrightarrow>
      lookup k' (put k v s) = (if k' = k then Some v else lookup k' s)"
    and lookup_del: "wf s \<Longrightarrow> good_key k \<Longrightarrow> good_key k' \<Longrightarrow>
      lookup k' (del k s) = (if k' = k then None else lookup k' s)"
begin

text \<open>The last write wins, and removing undoes a write of a key that was not there.\<close>

lemma lookup_put_put:
  "wf s \<Longrightarrow> good_key k \<Longrightarrow> good_val v \<Longrightarrow> good_val w \<Longrightarrow> good_key k' \<Longrightarrow>
   lookup k' (put k w (put k v s)) = lookup k' (put k w s)"
  by (simp add: lookup_put wf_put)

lemma lookup_del_put:
  "wf s \<Longrightarrow> good_key k \<Longrightarrow> good_val v \<Longrightarrow> lookup k s = None \<Longrightarrow> good_key k' \<Longrightarrow>
   lookup k' (del k (put k v s)) = lookup k' s"
  by (simp add: lookup_put lookup_del wf_put)

lemma put_commutes:
  "wf s \<Longrightarrow> good_key k \<Longrightarrow> good_key l \<Longrightarrow> good_val v \<Longrightarrow> good_val w \<Longrightarrow> k \<noteq> l \<Longrightarrow> good_key k' \<Longrightarrow>
   lookup k' (put k v (put l w s)) = lookup k' (put l w (put k v s))"
  by (simp add: lookup_put wf_put)

end

section \<open>Web storage\<close>

type_synonym storage = "(string \<rightharpoonup> string) option"

definition get_item :: "string \<Rightarrow> storage \<Rightarrow> string option" where
  "get_item k st = (case st of None \<Rightarrow> None | Some m \<Rightarrow> m k)"

definition set_item :: "string \<Rightarrow> string \<Rightarrow> storage \<Rightarrow> storage" where
  "set_item k v st = map_option (\<lambda>m. m(k \<mapsto> v)) st"

definition remove_item :: "string \<Rightarrow> storage \<Rightarrow> storage" where
  "remove_item k st = map_option (\<lambda>m. m(k := None)) st"

interpretation ls: kv_store get_item set_item remove_item "\<lambda>st. st \<noteq> None" "\<lambda>_. True" "\<lambda>_. True"
  by unfold_locales (auto simp: get_item_def set_item_def remove_item_def split: option.splits)

lemma get_item_None [simp]: "get_item k None = None"
  by (simp add: get_item_def)

lemma get_remove_item [simp]: "get_item k (remove_item k' st) = (if k = k' then None else get_item k st)"
  by (cases st) (auto simp: get_item_def remove_item_def)

lemma get_set_item:
  "get_item k (set_item k' v st) = (if st = None then None else if k = k' then Some v else get_item k st)"
  by (cases st) (auto simp: get_item_def set_item_def)

lemma storage_missing_iff [simp]:
  "set_item k v st = None \<longleftrightarrow> st = None" "remove_item k st = None \<longleftrightarrow> st = None"
  by (simp_all add: set_item_def remove_item_def)

end
