(* ===== verification/Cookies.thy ===== *)
theory Cookies
  imports Web_Storage
begin

text \<open>
  \<open>nautobot/ui/src/js/cookie.js\<close>: \<open>getCookie\<close>, \<open>setCookie\<close> and \<open>removeCookie\<close>.
  The browser's side of \<open>document.cookie\<close> is the jar: reading it gives the cookies as
  \<open>name=value\<close> joined by a semicolon and a space; assigning to it parses one cookie with its
  attributes, stores it (a new name goes last) or, when it has expired, drops it. The
  only expiry date the scripts write is the start of 1970, which is past; a
  \<open>max-age\<close> outranks \<open>expires\<close>.
\<close>

section \<open>The browser's jar\<close>

type_synonym jar = "string obj"

definition cookie_blank :: "char \<Rightarrow> bool" where
  "cookie_blank c \<longleftrightarrow> c = CHR '' '' \<or> c = CHR 0x09"

definition cookie_trim :: "string \<Rightarrow> string" where
  "cookie_trim s = rev (dropWhile cookie_blank (rev (dropWhile cookie_blank s)))"

definition before_eq :: "string \<Rightarrow> string" where
  "before_eq s = takeWhile (\<lambda>c. c \<noteq> CHR ''='') s"

definition after_eq :: "string \<Rightarrow> string" where
  "after_eq s = tl (dropWhile (\<lambda>c. c \<noteq> CHR ''='') s)"

definition cookie_entry :: "string \<times> string \<Rightarrow> string" where
  "cookie_entry e = fst e @ ''='' @ snd e"

definition document_cookie :: "jar \<Rightarrow> string" where
  "document_cookie j = join_str ''; '' (map cookie_entry j)"

definition epoch_date :: string where
  "epoch_date = ''Thu, 01 Jan 1970 00:00:00 GMT''"

definition cookie_attr :: "string \<Rightarrow> string list \<Rightarrow> string option" where
  "cookie_attr a parts =
     map_option (\<lambda>p. cookie_trim (after_eq p))
       (List.find (\<lambda>p. to_lower (cookie_trim (before_eq p)) = a) (rev parts))"

definition cookie_expired :: "string list \<Rightarrow> bool" where
  "cookie_expired parts =
     (case Option.bind (cookie_attr ''max-age'' parts) parse_int of
        Some n \<Rightarrow> n \<le> 0
      | None \<Rightarrow> cookie_attr ''expires'' parts = Some epoch_date)"

definition assign_cookie :: "string \<Rightarrow> jar \<Rightarrow> jar" where
  "assign_cookie str j =
     (case split_char (CHR '';'') str of
        [] \<Rightarrow> j
      | nv # parts \<Rightarrow>
          (let n = cookie_trim (before_eq nv); v = cookie_trim (after_eq nv)
           in if cookie_expired parts then odel n j else oset n v j))"

section \<open>The script\<close>

definition get_cookie :: "string \<Rightarrow> jar \<Rightarrow> string option" where
  "get_cookie name j =
     (case List.find (starts_with (name @ ''='')) (split_str ''; '' (document_cookie j)) of
        None \<Rightarrow> None
      | Some c \<Rightarrow> js_at 1 (split_char (CHR ''='') c))"

definition cookie_string :: "string \<Rightarrow> string \<Rightarrow> string obj \<Rightarrow> string" where
  "cookie_string name v opts =
     join_str '';'' (map cookie_entry (ospread (oset ''path'' ''/'' [(name, v)]) opts))"

definition set_cookie :: "string \<Rightarrow> string \<Rightarrow> string obj \<Rightarrow> jar \<Rightarrow> jar" where
  "set_cookie name v opts j = assign_cookie (cookie_string name v opts) j"

definition remove_cookie :: "string \<Rightarrow> jar \<Rightarrow> jar" where
  "remove_cookie name j = set_cookie name [] [(''expires'', epoch_date)] j"

section \<open>Reading\<close>

definition good_name :: "string \<Rightarrow> bool" where
  "good_name n \<longleftrightarrow> n \<noteq> [] \<and> CHR ''='' \<notin> set n \<and> CHR '';'' \<notin> set n \<and> cookie_trim n = n \<and>
     n \<notin> {''path'', ''expires'', ''max-age''}"

definition good_value :: "string \<Rightarrow> bool" where
  "good_value v \<longleftrightarrow> CHR ''='' \<notin> set v \<and> CHR '';'' \<notin> set v \<and> cookie_trim v = v"

definition wf_jar :: "jar \<Rightarrow> bool" where
  "wf_jar j \<longleftrightarrow> wf_obj j \<and>
     list_all (\<lambda>e. CHR ''='' \<notin> set (fst e) \<and> CHR '';'' \<notin> set (fst e) \<and> CHR '';'' \<notin> set (snd e)) j"

lemma split_document_cookie:
  "wf_jar j \<Longrightarrow> j \<noteq> [] \<Longrightarrow> split_str ''; '' (document_cookie j) = map cookie_entry j"
  unfolding document_cookie_def
  by (rule split_join_str) (auto simp: wf_jar_def list_all_iff cookie_entry_def)

lemma starts_with_entry:
  "CHR ''='' \<notin> set m \<Longrightarrow> CHR ''='' \<notin> set n \<Longrightarrow> starts_with (n @ ''='') (m @ ''='' @ v) \<longleftrightarrow> m = n"
proof (induction n arbitrary: m)
  case Nil
  then show ?case by (cases m) auto
next
  case (Cons c n)
  then show ?case by (cases m) auto
qed

lemma find_entry:
  assumes "list_all (\<lambda>e. CHR ''='' \<notin> set (fst e)) j" and "CHR ''='' \<notin> set n"
  shows "List.find (starts_with (n @ ''='')) (map cookie_entry j) =
    map_option (\<lambda>v. cookie_entry (n, v)) (oget j n)"
  using assms
proof (induction j)
  case (Cons e j)
  have "starts_with (n @ ''='') (cookie_entry e) \<longleftrightarrow> fst e = n"
    using Cons.prems starts_with_entry [of "fst e" n "snd e"] by (simp add: cookie_entry_def)
  with Cons show ?case by (cases e) auto
qed simp

lemma value_of_entry:
  "CHR ''='' \<notin> set n \<Longrightarrow> js_at 1 (split_char (CHR ''='') (cookie_entry (n, v))) = Some (before_eq v)"
proof -
  assume n: "CHR ''='' \<notin> set n"
  have hd: "\<exists>ws. split_char (CHR ''='') v = before_eq v # ws"
  proof (induction v)
    case (Cons c v)
    then show ?case by (auto simp: before_eq_def)
  qed (simp add: before_eq_def)
  then obtain ws where "split_char (CHR ''='') v = before_eq v # ws" by blast
  with n show ?thesis
    by (simp add: cookie_entry_def split_char_append js_at_def Let_def)
qed

text \<open>What \<open>getCookie\<close> returns: the stored value up to its first equals sign.\<close>

lemma get_cookie_value:
  assumes "wf_jar j" and "CHR ''='' \<notin> set n"
  shows "get_cookie n j = map_option before_eq (oget j n)"
proof (cases "j = []")
  case True
  have "\<not> starts_with (n @ ''='') []" by (cases n) auto
  with True show ?thesis by (simp add: get_cookie_def document_cookie_def)
next
  case False
  have "list_all (\<lambda>e. CHR ''='' \<notin> set (fst e)) j" using assms(1) by (auto simp: wf_jar_def list_all_iff)
  with False assms show ?thesis
    by (cases "oget j n") (simp_all add: get_cookie_def split_document_cookie find_entry value_of_entry)
qed

lemma before_eq_id: "CHR ''='' \<notin> set v \<Longrightarrow> before_eq v = v"
  by (auto simp: before_eq_def takeWhile_eq_all_conv)

section \<open>Writing\<close>

lemma before_after_entry:
  "CHR ''='' \<notin> set n \<Longrightarrow> before_eq (cookie_entry (n, v)) = n \<and> after_eq (cookie_entry (n, v)) = v"
proof (induction n)
  case (Cons c n)
  then show ?case by (auto simp: cookie_entry_def before_eq_def after_eq_def)
qed (simp add: cookie_entry_def before_eq_def after_eq_def)

text \<open>The three shapes of options the scripts pass.\<close>

definition year_options :: "string obj" where
  "year_options = [(''max-age'', ''31536000''), (''path'', ''/'')]"

lemma assign_cookie_parts:
  assumes "good_name n" and "good_value v"
    and "list_all (\<lambda>e. CHR '';'' \<notin> set (fst e) \<and> CHR '';'' \<notin> set (snd e)) opts"
  shows "assign_cookie (join_str '';'' (map cookie_entry ((n, v) # opts))) j =
    (if cookie_expired (map cookie_entry opts) then odel n j else oset n v j)"
proof -
  have "split_char (CHR '';'') (join_str '';'' (map cookie_entry ((n, v) # opts))) = map cookie_entry ((n, v) # opts)"
    using assms by (intro split_join_char) (auto simp: good_name_def good_value_def list_all_iff cookie_entry_def)
  moreover have "before_eq (cookie_entry (n, v)) = n \<and> after_eq (cookie_entry (n, v)) = v"
    using assms(1) by (intro before_after_entry) (simp add: good_name_def)
  ultimately show ?thesis
    using assms(1,2) by (simp add: assign_cookie_def good_name_def good_value_def Let_def)
qed

lemma set_cookie_default:
  assumes "good_name n" and "good_value v"
  shows "set_cookie n v [] j = oset n v j"
proof -
  have "oset ''path'' ''/'' [(n, v)] = [(n, v), (''path'', ''/'')]"
    using assms(1) by (auto simp: good_name_def)
  moreover have "\<not> cookie_expired (map cookie_entry [(''path'', ''/'')])" by code_simp
  ultimately show ?thesis
    using assign_cookie_parts [OF assms, of "[(''path'', ''/'')]" j]
    by (simp add: set_cookie_def cookie_string_def)
qed

lemma set_cookie_year:
  assumes "good_name n" and "good_value v"
  shows "set_cookie n v year_options j = oset n v j"
proof -
  let ?o = "[(''path'', ''/''), (''max-age'', ''31536000'')]"
  have "n \<noteq> ''path''" and "n \<noteq> ''max-age''" using assms(1) by (auto simp: good_name_def)
  then have "ospread (oset ''path'' ''/'' [(n, v)]) year_options = (n, v) # ?o"
    by (simp add: year_options_def)
  moreover have "\<not> cookie_expired (map cookie_entry ?o)" by code_simp
  ultimately show ?thesis
    using assign_cookie_parts [OF assms, of ?o j] by (simp add: set_cookie_def cookie_string_def)
qed

lemma remove_cookie_eq:
  assumes "good_name n"
  shows "remove_cookie n j = odel n j"
proof -
  let ?o = "[(''path'', ''/''), (''expires'', epoch_date)]"
  have "n \<noteq> ''path''" and "n \<noteq> ''expires''" using assms by (auto simp: good_name_def)
  then have "ospread (oset ''path'' ''/'' [(n, [])]) [(''expires'', epoch_date)] = (n, []) # ?o"
    by simp
  moreover have "cookie_expired (map cookie_entry ?o)" by code_simp
  moreover have "good_value []" by code_simp
  ultimately show ?thesis
    using assign_cookie_parts [OF assms, of "[]" ?o j]
    by (simp add: remove_cookie_def set_cookie_def cookie_string_def epoch_date_def)
qed

lemma list_all_oset: "list_all P ob \<Longrightarrow> P (n, v) \<Longrightarrow> list_all P (oset n v ob)"
  by (induction ob) auto

lemma wf_jar_oset: "wf_jar j \<Longrightarrow> good_name n \<Longrightarrow> good_value v \<Longrightarrow> wf_jar (oset n v j)"
  by (simp add: wf_jar_def good_name_def good_value_def list_all_oset)

lemma wf_jar_odel: "wf_jar j \<Longrightarrow> wf_jar (odel n j)"
  by (auto simp: wf_jar_def list_all_iff AList.delete_eq wf_obj_def distinct_map_filter)

lemma wf_jar_Nil [simp]: "wf_jar []"
  by (simp add: wf_jar_def wf_obj_def)

text \<open>Cookies without options and cookies kept for a year are both keyed stores.\<close>

interpretation ck: kv_store get_cookie "\<lambda>k v. set_cookie k v []" remove_cookie wf_jar good_name good_value
  by unfold_locales
     (auto simp: set_cookie_default remove_cookie_eq wf_jar_oset wf_jar_odel get_cookie_value
        good_name_def good_value_def before_eq_id)

interpretation cky: kv_store get_cookie "\<lambda>k v. set_cookie k v year_options" remove_cookie wf_jar good_name good_value
  by unfold_locales
     (auto simp: set_cookie_year remove_cookie_eq wf_jar_oset wf_jar_odel get_cookie_value
        good_name_def good_value_def before_eq_id)

text \<open>
  C36: A cookie written with \<open>setCookie\<close> reads back with \<open>getCookie\<close>, other cookies read as
  before, and after \<open>removeCookie\<close> it is gone.
\<close>

theorem cookie_round_trip:
  assumes "wf_jar j" and "good_name n" and "good_value v" and "good_name m"
  shows "get_cookie m (set_cookie n v [] j) = (if m = n then Some v else get_cookie m j) \<and>
    get_cookie m (remove_cookie n (set_cookie n v [] j)) = (if m = n then None else get_cookie m j)"
  using assms ck.lookup_put ck.lookup_del ck.wf_put by simp

theorem cookie_round_trip_witness:
  "get_cookie ''theme'' (set_cookie ''theme'' ''dark'' [] [(''csrf'', ''x='')]) = Some ''dark''"
proof -
  have h: "wf_jar [(''csrf'', ''x='')]" "good_name ''theme''" "good_value ''dark''" "good_name ''theme''"
    by code_simp+
  show ?thesis using cookie_round_trip [OF h] by simp
qed

text \<open>
  A cookie whose value holds an equals sign reads back cut at the first one.
\<close>

theorem cookie_value_cut_at_equals:
  assumes "wf_jar j" and "good_name n" and "oget j n = Some (a @ ''='' @ b)" and "CHR ''='' \<notin> set a"
  shows "get_cookie n j = Some a"
proof -
  have "before_eq (a @ ''='' @ b) = a"
    using assms(4) by (induction a) (auto simp: before_eq_def)
  moreover have "CHR ''='' \<notin> set n" using assms(2) by (simp add: good_name_def)
  ultimately show ?thesis using assms(1,3) by (simp add: get_cookie_value)
qed

theorem cookie_value_cut_at_equals_witness:
  "get_cookie ''token'' [(''token'', ''YWJj='')] = Some ''YWJj''"
proof -
  have h: "wf_jar [(''token'', ''YWJj='')]" "good_name ''token''"
    "oget [(''token'', ''YWJj='')] ''token'' = Some (''YWJj'' @ ''='' @ [])" "CHR ''='' \<notin> set ''YWJj''"
    by code_simp+
  show ?thesis by (rule cookie_value_cut_at_equals [OF h])
qed

end
