(* ===== verification/Preferences.thy ===== *)
theory Preferences
  imports Dom Cookies Web_Storage
begin

text \<open>
  Pages whose scripts remember choices: the document with the cookies of the site and the
  local storage of the browser, and what survives when the page is loaded again.
\<close>

record prefs_page = page +
  cookie_jar :: jar
  local_store :: storage

text \<open>Only cookies and local storage survive a navigation; the server renders the rest anew.\<close>

definition same_prefs :: "'a prefs_page_scheme \<Rightarrow> 'b prefs_page_scheme \<Rightarrow> bool" where
  "same_prefs s s' \<longleftrightarrow> cookie_jar s' = cookie_jar s \<and> local_store s' = local_store s"

lemma upd_prefs [simp]:
  "cookie_jar (upd u f s) = cookie_jar s" "local_store (upd u f s) = local_store s"
  by (simp_all add: upd_def)

lemma untouched_prefs [simp]:
  "untouched as cs s (s\<lparr>cookie_jar := j\<rparr>)" "untouched as cs s (s\<lparr>local_store := l\<rparr>)"
  by (simp_all add: untouched_def)

lemma prefs_queries [simp]:
  "doc_qs (s\<lparr>cookie_jar := j\<rparr>) sel = doc_qs s sel" "doc_qs (s\<lparr>local_store := l\<rparr>) sel = doc_qs s sel"
  "doc_qsa (s\<lparr>cookie_jar := j\<rparr>) sel = doc_qsa s sel" "doc_qsa (s\<lparr>local_store := l\<rparr>) sel = doc_qsa s sel"
  "by_id (s\<lparr>cookie_jar := j\<rparr>) i = by_id s i" "by_id (s\<lparr>local_store := l\<rparr>) i = by_id s i"
  by (simp_all add: doc_qs_def doc_qsa_def by_id_def)

end
