(* ===== verification/Sidenav.thy ===== *)
theory Sidenav
  imports Preferences
begin

text \<open>
  The side navigation: \<open>nautobot/ui/src/js/sidenav.js\<close>. A toggler collapses and expands
  it and remembers that in a cookie and in local storage; every item that is not flat opens
  a fly-out and installs a listener on the document that closes it on a click outside.
  Listeners have serial numbers, because \<open>removeEventListener\<close> goes by identity.
\<close>

section \<open>State and selectors\<close>

type_synonym listener = "nat \<times> uid \<times> string option"

record sidenav_page = prefs_page +
  toggler_bound :: "uid option"
  items_bound :: "uid list"
  doc_listeners :: "listener list"
  next_serial :: nat

definition sidenav_collapsed_key :: string where
  "sidenav_collapsed_key = ''sidenav_collapsed''"

definition toggler_sel :: "elem \<Rightarrow> bool" where
  "toggler_sel e \<longleftrightarrow> has_class ''nb-sidenav-toggler'' e"

definition list_item_sel :: "elem \<Rightarrow> bool" where
  "list_item_sel e \<longleftrightarrow> has_class ''nb-sidenav-list-item'' e \<and> \<not> has_class ''nb-sidenav-list-item-flat'' e"

definition is_expanded :: "elem \<Rightarrow> bool" where
  "is_expanded e \<longleftrightarrow> get_attr ''aria-expanded'' e = Some ''true''"

section \<open>The script\<close>

definition remember_collapsed :: "bool \<Rightarrow> 'a prefs_page_scheme \<Rightarrow> 'a prefs_page_scheme" where
  "remember_collapsed b s =
     (if b
      then s\<lparr>cookie_jar := set_cookie sidenav_collapsed_key ''true'' [] (cookie_jar s),
             local_store := set_item sidenav_collapsed_key ''true'' (local_store s)\<rparr>
      else s\<lparr>cookie_jar := remove_cookie sidenav_collapsed_key (cookie_jar s),
             local_store := remove_item sidenav_collapsed_key (local_store s)\<rparr>)"

definition toggle_sidenav :: "'a prefs_page_scheme \<Rightarrow> 'a prefs_page_scheme outcome" where
  "toggle_sidenav s =
     (case doc_qs s toggler_sel of
        None \<Rightarrow> Throw TypeError s
      | Some t \<Rightarrow>
          (let controls = get_attr ''aria-controls'' (heap s t);
               expanded = is_expanded (heap s t);
               s1 = upd t (set_attr ''aria-expanded'' (show_bool (\<not> expanded))) s
           in case by_id s1 (id_text controls) of
                None \<Rightarrow> Throw TypeError s1
              | Some n \<Rightarrow>
                  Done (remember_collapsed expanded
                    (upd n (class_toggle ''nb-sidenav-collapsed'' (Some expanded)) s1))))"

definition saved_state :: "'a prefs_page_scheme \<Rightarrow> string" where
  "saved_state s =
     (case get_cookie sidenav_collapsed_key (cookie_jar s) of
        Some v \<Rightarrow> v
      | None \<Rightarrow> (case get_item sidenav_collapsed_key (local_store s) of Some v \<Rightarrow> v | None \<Rightarrow> ''false''))"

definition init_toggler :: "sidenav_page \<Rightarrow> sidenav_page outcome" where
  "init_toggler s =
     (case doc_qs s toggler_sel of
        None \<Rightarrow> Done s
      | Some t \<Rightarrow>
          (let saved = saved_state s; shown = get_attr ''aria-expanded'' (heap s t);
               should = saved = ''true'' \<and> shown = Some ''true'' \<or> saved = ''false'' \<and> shown = Some ''false''
           in and_then (if should then toggle_sidenav s else Done s)
                (\<lambda>s1. Done (s1\<lparr>toggler_bound := Some t\<rparr>))))"

definition init_sidenav :: "sidenav_page \<Rightarrow> sidenav_page outcome" where
  "init_sidenav s =
     and_then (init_toggler s) (\<lambda>s1. Done (s1\<lparr>items_bound := doc_qsa s1 list_item_sel\<rparr>))"

definition remove_listener :: "nat \<Rightarrow> sidenav_page \<Rightarrow> sidenav_page" where
  "remove_listener k s = s\<lparr>doc_listeners := filter (\<lambda>l. fst l \<noteq> k) (doc_listeners s)\<rparr>"

definition click_list_item :: "uid \<Rightarrow> sidenav_page \<Rightarrow> sidenav_page" where
  "click_list_item i s =
     (let controls = get_attr ''aria-controls'' (heap s i);
          expanded = is_expanded (heap s i);
          s1 = upd i (set_attr ''aria-expanded'' (show_bool (\<not> expanded))) s;
          k = next_serial s1;
          s2 = s1\<lparr>next_serial := Suc k\<rparr>
      in if expanded then remove_listener k s2
         else s2\<lparr>doc_listeners := doc_listeners s2 @ [(k, i, controls)]\<rparr>)"

definition on_click_document :: "uid \<Rightarrow> listener \<Rightarrow> sidenav_page \<Rightarrow> sidenav_page outcome" where
  "on_click_document target l s =
     (case l of
        (k, i, controls) \<Rightarrow>
          if contains s i target then Done s
          else (case by_id s (id_text controls) of
                  None \<Rightarrow> Throw TypeError s
                | Some f \<Rightarrow>
                    if contains s f target then Done s
                    else Done (remove_listener k (upd i (set_attr ''aria-expanded'' ''false'') s))))"

text \<open>
  A click bubbles from its target to the root, past the listeners of the toggler and of the
  items, and then reaches the listeners the document has at that moment. A listener that
  throws stops itself only.
\<close>

definition bubble :: "uid \<Rightarrow> sidenav_page \<Rightarrow> sidenav_page" where
  "bubble v s =
     (let s1 = (if toggler_bound s = Some v then final_state (toggle_sidenav s) else s)
      in if List.member (items_bound s1) v then click_list_item v s1 else s1)"

definition dispatch_click :: "uid \<Rightarrow> sidenav_page \<Rightarrow> sidenav_page" where
  "dispatch_click u s =
     (let s1 = fold bubble (path_to u (doc s)) s
      in fold (\<lambda>l t. final_state (on_click_document u l t)) (doc_listeners s1) s1)"

section \<open>The toggler\<close>

lemma good_sidenav_key: "good_name sidenav_collapsed_key" "good_value ''true''"
  by code_simp+

lemma remember_collapsed_simps [simp]:
  "doc (remember_collapsed b s) = doc s" "heap (remember_collapsed b s) = heap s"
  by (simp_all add: remember_collapsed_def)

lemma remember_collapsed_prefs:
  assumes "wf_jar (cookie_jar s)"
  shows "get_cookie sidenav_collapsed_key (cookie_jar (remember_collapsed b s)) = (if b then Some ''true'' else None)"
    and "get_item sidenav_collapsed_key (local_store (remember_collapsed b s)) =
      (if b \<and> local_store s \<noteq> None then Some ''true'' else None)"
    and "wf_jar (cookie_jar (remember_collapsed b s))"
  using assms good_sidenav_key
  by (simp_all add: remember_collapsed_def ck.lookup_put ck.lookup_del ck.wf_put ck.wf_del get_set_item)

lemma saved_remember_collapsed:
  "wf_jar (cookie_jar s) \<Longrightarrow> saved_state (remember_collapsed b s) = show_bool b"
  by (simp add: saved_state_def remember_collapsed_prefs show_bool_def)

text \<open>The toggler is there and controls an element that is there.\<close>

definition toggler_layout :: "'a prefs_page_scheme \<Rightarrow> uid \<Rightarrow> uid \<Rightarrow> bool" where
  "toggler_layout s t n \<longleftrightarrow> doc_qs s toggler_sel = Some t \<and>
     by_id s (id_text (get_attr ''aria-controls'' (heap s t))) = Some n \<and> wf_jar (cookie_jar s)"

lemma toggle_sidenav_effect:
  assumes "toggler_layout s t n"
  shows "toggle_sidenav s = Done (remember_collapsed (is_expanded (heap s t))
    (upd n (class_toggle ''nb-sidenav-collapsed'' (Some (is_expanded (heap s t))))
      (upd t (set_attr ''aria-expanded'' (show_bool (\<not> is_expanded (heap s t)))) s)))"
proof -
  let ?s1 = "upd t (set_attr ''aria-expanded'' (show_bool (\<not> is_expanded (heap s t)))) s"
  have "untouched [''aria-expanded''] [] s ?s1" by simp
  then have "by_id ?s1 i = by_id s i" for i by (rule untouched_by_id) simp
  with assms show ?thesis by (simp add: toggle_sidenav_def toggler_layout_def Let_def)
qed

lemma untouched_remember [simp]: "untouched as cs s (remember_collapsed b s)"
  by (simp add: untouched_def)

lemma untouched_toggle_sidenav:
  "untouched [''aria-expanded''] [''nb-sidenav-collapsed''] s (final_state (toggle_sidenav s))"
proof (cases "doc_qs s toggler_sel")
  case (Some t)
  let ?b = "is_expanded (heap s t)"
  let ?s1 = "upd t (set_attr ''aria-expanded'' (show_bool (\<not> ?b))) s"
  let ?s2 = "\<lambda>n. upd n (class_toggle ''nb-sidenav-collapsed'' (Some ?b)) ?s1"
  have 1: "untouched [''aria-expanded''] [''nb-sidenav-collapsed''] s ?s1" by simp
  have 2: "untouched [''aria-expanded''] [''nb-sidenav-collapsed''] ?s1 (remember_collapsed ?b (?s2 n))" for n
    by (rule untouched_trans [where q = "?s2 n"]) simp_all
  from Some 1 untouched_trans [OF 1 2] show ?thesis
    by (simp add: toggle_sidenav_def Let_def split: option.split)
qed (simp add: toggle_sidenav_def)

text \<open>
  The toggler flips its own expanded state, marks the side navigation collapsed exactly
  when it was expanded, and what a later load of the page reads back (the cookie first,
  then local storage) is exactly the new state.
\<close>

theorem toggle_sidenav_remembers:
  assumes "toggler_layout s t n"
  shows "\<exists>s'. toggle_sidenav s = Done s' \<and>
    get_attr ''aria-expanded'' (heap s' t) = Some (show_bool (\<not> is_expanded (heap s t))) \<and>
    has_class ''nb-sidenav-collapsed'' (heap s' n) = is_expanded (heap s t) \<and>
    saved_state s' = show_bool (is_expanded (heap s t)) \<and>
    (local_store s \<noteq> None \<longrightarrow>
       get_item sidenav_collapsed_key (local_store s') = get_cookie sidenav_collapsed_key (cookie_jar s'))"
proof -
  have "wf_jar (cookie_jar s)" using assms by (simp add: toggler_layout_def)
  then show ?thesis
    by (simp add: toggle_sidenav_effect [OF assms] saved_remember_collapsed remember_collapsed_prefs heap_upd)
qed

lemma toggler_layout_toggle:
  assumes "toggler_layout s t n" and "toggle_sidenav s = Done s'"
  shows "toggler_layout s' t n"
proof -
  have u: "untouched [''aria-expanded''] [''nb-sidenav-collapsed''] s s'"
    using untouched_toggle_sidenav [of s] assms(2) by simp
  then have "doc_qs s' toggler_sel = doc_qs s toggler_sel"
    by (intro doc_qs_cong) (simp_all add: toggler_sel_def untouched_doc untouched_class)
  moreover have "wf_jar (cookie_jar s')"
    using assms by (simp add: toggle_sidenav_effect) (auto simp: toggler_layout_def remember_collapsed_prefs)
  ultimately show ?thesis
    using assms(1) by (simp add: toggler_layout_def untouched_by_id [OF u] untouched_attr [OF u])
qed

lemma toggle_sidenav_saved:
  assumes "toggler_layout s t n" and "toggle_sidenav s = Done s'"
  shows "saved_state s' = show_bool (is_expanded (heap s t))"
    and "is_expanded (heap s' t) = (\<not> is_expanded (heap s t))"
    and "get_attr ''aria-expanded'' (heap s' t) = Some (show_bool (\<not> is_expanded (heap s t)))"
proof -
  have "wf_jar (cookie_jar s)" using assms(1) by (simp add: toggler_layout_def)
  then show "saved_state s' = show_bool (is_expanded (heap s t))"
    and "is_expanded (heap s' t) = (\<not> is_expanded (heap s t))"
    and "get_attr ''aria-expanded'' (heap s' t) = Some (show_bool (\<not> is_expanded (heap s t)))"
    using assms(2) by (auto simp: toggle_sidenav_effect [OF assms(1)] saved_remember_collapsed heap_upd is_expanded_def split: if_splits)
qed

lemma saved_state_bound [simp]:
  "saved_state (s\<lparr>toggler_bound := b\<rparr>) = saved_state s" "saved_state (s\<lparr>items_bound := us\<rparr>) = saved_state s"
  by (simp_all add: saved_state_def split: option.split)

text \<open>
  After initialization the rendered state agrees with the remembered one, whatever the
  server rendered: collapsed when "true" was remembered, expanded when "false" or nothing
  was, and the remembered state is unchanged.
\<close>

theorem init_repairs_rendering:
  assumes "toggler_layout s t n" and "saved_state s \<in> {''true'', ''false''}"
    and "get_attr ''aria-expanded'' (heap s t) \<in> {Some ''true'', Some ''false''}"
  shows "\<exists>s'. init_sidenav s = Done s' \<and> is_expanded (heap s' t) = (saved_state s = ''false'') \<and>
    saved_state s' = saved_state s \<and> toggler_bound s' = Some t"
proof -
  let ?should = "saved_state s = ''true'' \<and> is_expanded (heap s t) \<or> saved_state s = ''false'' \<and> \<not> is_expanded (heap s t)"
  obtain s' where tg: "toggle_sidenav s = Done s'" using toggle_sidenav_effect [OF assms(1)] by blast
  note sv = toggle_sidenav_saved [OF assms(1) tg]
  have eq: "init_sidenav s = Done (let s1 = (if ?should then s' else s)\<lparr>toggler_bound := Some t\<rparr>
      in s1\<lparr>items_bound := doc_qsa s1 list_item_sel\<rparr>)"
    using assms tg by (auto simp: init_sidenav_def init_toggler_def toggler_layout_def is_expanded_def Let_def)
  show ?thesis
  proof (cases ?should)
    case True
    with sv eq show ?thesis by (auto simp: Let_def)
  next
    case False
    with assms(2) eq show ?thesis by (auto simp: Let_def)
  qed
qed

section \<open>The fly-outs\<close>

text \<open>
  The invariant of the fly-outs: listeners have serial numbers given out before and belong
  to items, their fly-outs exist, every expanded item has a listener that will close it,
  and the toggler is not an item.
\<close>

definition fly_inv :: "sidenav_page \<Rightarrow> bool" where
  "fly_inv s \<longleftrightarrow>
     distinct (map fst (doc_listeners s)) \<and>
     list_all (\<lambda>(k, i, c). k < next_serial s \<and> List.member (items_bound s) i \<and>
       c = get_attr ''aria-controls'' (heap s i)) (doc_listeners s) \<and>
     list_all (\<lambda>i. by_id s (id_text (get_attr ''aria-controls'' (heap s i))) \<noteq> None \<and>
       (is_expanded (heap s i) \<longrightarrow> list_ex (\<lambda>(k, j, c). j = i) (doc_listeners s))) (items_bound s) \<and>
     (case doc_qs s toggler_sel of None \<Rightarrow> True | Some t \<Rightarrow> \<not> List.member (items_bound s) t)"

abbreviation sn_frame :: "sidenav_page \<Rightarrow> sidenav_page \<Rightarrow> bool" where
  "sn_frame \<equiv> untouched [''aria-expanded''] [''nb-sidenav-collapsed'']"

lemma sn_frame_trans: "sn_frame s s' \<Longrightarrow> sn_frame s' t \<Longrightarrow> sn_frame s t"
  by (rule untouched_trans)

lemma sn_frame_queries:
  assumes "sn_frame s s'"
  shows "doc_qs s' toggler_sel = doc_qs s toggler_sel" and "by_id s' i = by_id s i"
    and "get_attr ''aria-controls'' (heap s' u) = get_attr ''aria-controls'' (heap s u)"
    and "contains s' = contains s" and "doc s' = doc s"
  using assms untouched_doc [OF assms]
  by (auto intro!: doc_qs_cong simp: toggler_sel_def untouched_class untouched_by_id untouched_attr untouched_contains)

lemma sn_frame_bookkeeping [simp]:
  "sn_frame s (s\<lparr>doc_listeners := ls\<rparr>)" "sn_frame s (s\<lparr>next_serial := k\<rparr>)"
  "sn_frame s (remove_listener k s)"
  by (simp_all add: untouched_def remove_listener_def)

lemma toggle_sidenav_keeps:
  fixes s :: sidenav_page
  shows "items_bound (final_state (toggle_sidenav s)) = items_bound s"
    and "doc_listeners (final_state (toggle_sidenav s)) = doc_listeners s"
    and "next_serial (final_state (toggle_sidenav s)) = next_serial s"
    and "toggler_bound (final_state (toggle_sidenav s)) = toggler_bound s"
    and "doc_qs s toggler_sel \<noteq> Some u \<Longrightarrow> is_expanded (heap (final_state (toggle_sidenav s)) u) = is_expanded (heap s u)"
  by (auto simp: toggle_sidenav_def remember_collapsed_def Let_def upd_def is_expanded_def split: option.split)

lemma fly_inv_toggle: "fly_inv s \<Longrightarrow> fly_inv (final_state (toggle_sidenav s))"
proof -
  assume inv: "fly_inv s"
  note q = sn_frame_queries [OF untouched_toggle_sidenav [of s]]
  have "is_expanded (heap (final_state (toggle_sidenav s)) i) = is_expanded (heap s i)"
    if "i \<in> set (items_bound s)" for i
    using inv that by (intro toggle_sidenav_keeps(5)) (auto simp: fly_inv_def split: option.splits)
  with inv show ?thesis
    by (auto simp: fly_inv_def q toggle_sidenav_keeps list_all_iff split: option.splits)
qed

lemma click_list_item_effect:
  assumes "fly_inv s"
  shows "items_bound (click_list_item i s) = items_bound s"
    and "sn_frame s (click_list_item i s)"
    and "is_expanded (heap (click_list_item i s) j) = (if j = i then \<not> is_expanded (heap s i) else is_expanded (heap s j))"
    and "doc_listeners (click_list_item i s) = doc_listeners s @
      (if is_expanded (heap s i) then [] else [(next_serial s, i, get_attr ''aria-controls'' (heap s i))])"
    and "next_serial (click_list_item i s) = Suc (next_serial s)"
proof -
  have "filter (\<lambda>l. fst l \<noteq> next_serial s) (doc_listeners s) = doc_listeners s"
    using assms by (auto simp: fly_inv_def list_all_iff filter_id_conv)
  then show "doc_listeners (click_list_item i s) = doc_listeners s @
      (if is_expanded (heap s i) then [] else [(next_serial s, i, get_attr ''aria-controls'' (heap s i))])"
    by (simp add: click_list_item_def remove_listener_def Let_def upd_def)
qed (auto simp: click_list_item_def remove_listener_def Let_def upd_def is_expanded_def untouched_def)

lemma fly_inv_click:
  assumes inv: "fly_inv s" and i: "i \<in> set (items_bound s)"
  shows "fly_inv (click_list_item i s)"
proof -
  note e = click_list_item_effect [OF inv, of i]
  note q = sn_frame_queries [OF e(2)]
  show ?thesis
    using inv i by (auto simp: fly_inv_def q e(1,3,4,5) list_all_iff list_ex_iff less_Suc_eq split: option.splits if_splits)
qed

lemma bubble_keeps:
  assumes "fly_inv s"
  shows "fly_inv (bubble v s)" and "items_bound (bubble v s) = items_bound s"
    and "sn_frame s (bubble v s)"
proof -
  let ?s1 = "if toggler_bound s = Some v then final_state (toggle_sidenav s) else s"
  have i: "fly_inv ?s1" using assms fly_inv_toggle by simp
  have f: "sn_frame s ?s1" using untouched_toggle_sidenav by auto
  show "fly_inv (bubble v s)" using i fly_inv_click [OF i] by (simp add: bubble_def Let_def)
  show "items_bound (bubble v s) = items_bound s"
    using click_list_item_effect(1) [OF i] by (simp add: bubble_def Let_def toggle_sidenav_keeps)
  show "sn_frame s (bubble v s)"
    using f sn_frame_trans [OF f click_list_item_effect(2) [OF i]] by (simp add: bubble_def Let_def)
qed

lemma fold_bubble_keeps:
  "fly_inv s \<Longrightarrow> fly_inv (fold bubble vs s) \<and> items_bound (fold bubble vs s) = items_bound s \<and>
     sn_frame s (fold bubble vs s)"
proof (induction vs arbitrary: s)
  case (Cons v vs)
  note b = bubble_keeps [OF Cons.prems, of v]
  from Cons.IH [OF b(1)] b sn_frame_trans [OF b(3)] show ?case by simp
qed simp

text \<open>A document listener runs: its own state before, what it does when it closes.\<close>

definition closes :: "uid \<Rightarrow> listener \<Rightarrow> sidenav_page \<Rightarrow> bool" where
  "closes u l s = (case l of (k, i, c) \<Rightarrow> \<not> contains s i u \<and>
     (case by_id s (id_text c) of None \<Rightarrow> False | Some f \<Rightarrow> \<not> contains s f u))"

lemma on_click_document_cases:
  "final_state (on_click_document u (k, i, c) s) =
     (if closes u (k, i, c) s then remove_listener k (upd i (set_attr ''aria-expanded'' ''false'') s) else s)"
  by (auto simp: on_click_document_def closes_def split: option.split)

lemma sn_frame_close: "sn_frame s (remove_listener k (upd i (set_attr ''aria-expanded'' ''false'') s))"
  by (rule untouched_trans [where q = "upd i (set_attr ''aria-expanded'' ''false'') s"]) simp_all

lemma close_simps:
  "doc_listeners (remove_listener k (upd i g s)) = filter (\<lambda>l. fst l \<noteq> k) (doc_listeners s)"
  "items_bound (remove_listener k (upd i g s)) = items_bound s"
  "next_serial (remove_listener k (upd i g s)) = next_serial s"
  "heap (remove_listener k (upd i g s)) = heap (upd i g s)"
  by (simp_all add: remove_listener_def upd_def)

lemma fly_inv_document:
  assumes inv: "fly_inv s" and l: "\<forall>m \<in> set (doc_listeners s). fst m = k \<longrightarrow> m = (k, i, c)"
  shows "fly_inv (final_state (on_click_document u (k, i, c) s))"
proof (cases "closes u (k, i, c) s")
  case True
  let ?s' = "remove_listener k (upd i (set_attr ''aria-expanded'' ''false'') s)"
  note q = sn_frame_queries [OF sn_frame_close [of s k i]]
  have "distinct (map fst (filter (\<lambda>l. fst l \<noteq> k) (doc_listeners s)))"
    using inv by (simp add: fly_inv_def distinct_map_filter)
  moreover have "list_ex (\<lambda>(k, j, c). j = v) (filter (\<lambda>l. fst l \<noteq> k) (doc_listeners s))"
    if "v \<in> set (items_bound s)" and "is_expanded (heap ?s' v)" for v
  proof -
    have ne: "v \<noteq> i" and "is_expanded (heap s v)"
      using that(2) by (auto simp: close_simps heap_upd is_expanded_def split: if_splits)
    then have "\<exists>m \<in> set (doc_listeners s). fst (snd m) = v"
      using inv that(1) by (auto simp: fly_inv_def list_all_iff list_ex_iff case_prod_beta)
    then obtain m where mem: "m \<in> set (doc_listeners s)" and m: "fst (snd m) = v" by blast
    have "fst m \<noteq> k" using l mem m ne by (metis fst_conv snd_conv)
    with mem have "m \<in> set (filter (\<lambda>l. fst l \<noteq> k) (doc_listeners s))" by simp
    with m show ?thesis unfolding list_ex_iff by (intro bexI [of _ m]) (simp_all add: case_prod_beta)
  qed
  ultimately have "fly_inv ?s'"
    using inv by (auto simp: fly_inv_def q close_simps(1-3) list_all_iff split: option.splits)
  with True show ?thesis by (simp add: on_click_document_cases)
qed (use inv in \<open>simp add: on_click_document_cases\<close>)

abbreviation run_doc :: "uid \<Rightarrow> listener list \<Rightarrow> sidenav_page \<Rightarrow> sidenav_page" where
  "run_doc u ls s \<equiv> fold (\<lambda>l t. final_state (on_click_document u l t)) ls s"

lemma run_doc_keeps:
  assumes "distinct (map fst ms)" and "set ls \<subseteq> set ms" and "set (doc_listeners s) \<subseteq> set ms" and "fly_inv s"
  shows "fly_inv (run_doc u ls s) \<and> items_bound (run_doc u ls s) = items_bound s \<and> sn_frame s (run_doc u ls s)"
  using assms(2-4)
proof (induction ls arbitrary: s)
  case (Cons l ls)
  obtain k i c where l: "l = (k, i, c)" by (cases l)
  let ?s = "final_state (on_click_document u l s)"
  have "\<forall>m \<in> set (doc_listeners s). fst m = k \<longrightarrow> m = (k, i, c)"
  proof (intro ballI impI)
    fix m assume "m \<in> set (doc_listeners s)" and k: "fst m = k"
    then have "m \<in> set ms" and "l \<in> set ms" using Cons.prems by auto
    then show "m = (k, i, c)"
      using assms(1) k l by (auto simp: distinct_map inj_on_def)
  qed
  then have "fly_inv ?s" using fly_inv_document Cons.prems(3) l by blast
  moreover have f: "sn_frame s ?s" using sn_frame_close by (simp add: l on_click_document_cases)
  moreover have "set (doc_listeners ?s) \<subseteq> set ms"
    using Cons.prems(2) by (auto simp: l on_click_document_cases close_simps)
  moreover have "items_bound ?s = items_bound s" by (simp add: l on_click_document_cases close_simps)
  ultimately show ?case using Cons.IH [of ?s] Cons.prems(1) sn_frame_trans [OF f] by auto
qed simp

text \<open>
  Every click, wherever it lands, keeps the invariant of the fly-outs: in particular an
  expanded item always has a listener on the document that will close it.
\<close>

theorem flyouts_stay_tracked:
  assumes "fly_inv s"
  shows "fly_inv (dispatch_click u s)"
proof -
  let ?s1 = "fold bubble (path_to u (doc s)) s"
  have inv: "fly_inv ?s1" using fold_bubble_keeps [OF assms] by blast
  then have "distinct (map fst (doc_listeners ?s1))" by (simp add: fly_inv_def)
  from run_doc_keeps [OF this subset_refl subset_refl inv] show ?thesis
    by (simp add: dispatch_click_def Let_def)
qed

lemma run_doc_closes_all:
  assumes "\<forall>l \<in> set ls. closes u l s"
  shows "doc_listeners (run_doc u ls s) = filter (\<lambda>m. fst m \<notin> fst ` set ls) (doc_listeners s)"
  using assms
proof (induction ls arbitrary: s)
  case (Cons l ls)
  obtain k i c where l: "l = (k, i, c)" by (cases l)
  let ?s = "remove_listener k (upd i (set_attr ''aria-expanded'' ''false'') s)"
  have "final_state (on_click_document u l s) = ?s" using Cons.prems by (simp add: l on_click_document_cases)
  moreover have "closes u m ?s = closes u m s" for m
    by (simp add: closes_def sn_frame_queries [OF sn_frame_close] split: prod.split option.split)
  ultimately show ?case
    using Cons.IH [of ?s] Cons.prems by (auto simp: l close_simps intro!: filter_cong)
qed simp

text \<open>
  C5: A click outside every item and every fly-out closes all of them at once and leaves no
  listener behind on the document.
\<close>

theorem outside_click_closes_flyouts:
  assumes inv: "fly_inv s"
    and out: "\<And>i. i \<in> set (items_bound s) \<Longrightarrow> \<not> contains s i u \<and>
      (\<forall>f. by_id s (id_text (get_attr ''aria-controls'' (heap s i))) = Some f \<longrightarrow> \<not> contains s f u)"
  shows "doc_listeners (dispatch_click u s) = [] \<and>
    (\<forall>i \<in> set (items_bound s). \<not> is_expanded (heap (dispatch_click u s) i))"
proof -
  let ?s1 = "fold bubble (path_to u (doc s)) s"
  have inv1: "fly_inv ?s1" and items: "items_bound ?s1 = items_bound s" and f: "sn_frame s ?s1"
    using fold_bubble_keeps [OF inv] by blast+
  note q = sn_frame_queries [OF f]
  have "closes u l ?s1" if "l \<in> set (doc_listeners ?s1)" for l
  proof -
    obtain k i c where l: "l = (k, i, c)" by (cases l)
    with inv1 that items have i: "i \<in> set (items_bound s)" and c: "c = get_attr ''aria-controls'' (heap s i)"
      by (auto simp: fly_inv_def list_all_iff q)
    then have "by_id s (id_text c) \<noteq> None" using inv by (auto simp: fly_inv_def list_all_iff)
    with out [OF i] show ?thesis by (auto simp: closes_def l q c)
  qed
  then have e: "doc_listeners (dispatch_click u s) = []"
    by (simp add: dispatch_click_def Let_def run_doc_closes_all filter_empty_conv)
  have d: "distinct (map fst (doc_listeners ?s1))" using inv1 by (simp add: fly_inv_def)
  have "fly_inv (dispatch_click u s) \<and> items_bound (dispatch_click u s) = items_bound s"
    using run_doc_keeps [OF d subset_refl subset_refl inv1] items by (simp add: dispatch_click_def Let_def)
  with e show ?thesis by (auto simp: fly_inv_def list_all_iff)
qed

text \<open>
  Opening and closing an item by clicking it leaves its listener on the document: the
  closing click removes a listener that was created by that very click and was never added.
\<close>

theorem closing_click_leaks_listener:
  assumes "fly_inv s" and "i \<in> set (items_bound s)" and "\<not> is_expanded (heap s i)"
  shows "\<not> is_expanded (heap (click_list_item i (click_list_item i s)) i) \<and>
    doc_listeners (click_list_item i (click_list_item i s)) =
      doc_listeners s @ [(next_serial s, i, get_attr ''aria-controls'' (heap s i))]"
proof -
  note e = click_list_item_effect [OF assms(1), of i]
  have inv: "fly_inv (click_list_item i s)" using assms by (simp add: fly_inv_click)
  from e click_list_item_effect [OF inv, of i] assms(3) show ?thesis by simp
qed

section \<open>A page on which the hypotheses hold\<close>

definition demo_sidenav :: "jar \<Rightarrow> bool \<Rightarrow> sidenav_page" where
  "demo_sidenav j b =
     \<lparr>doc = Node 0 [Node 2 [], Node 3 [Node 4 [], Node 5 []], Node 6 [], Node 7 []],
      heap = (\<lambda>u. if u = 2 then (new_elem ''BUTTON'')\<lparr>classes := [''nb-sidenav-toggler''],
            attrs := [(''aria-controls'', ''nav''), (''aria-expanded'', ''true'')]\<rparr>
        else if u = 3 then (new_elem ''NAV'')\<lparr>attrs := [(''id'', ''nav'')]\<rparr>
        else if u = 4 then (new_elem ''BUTTON'')\<lparr>classes := [''nb-sidenav-list-item''],
            attrs := [(''aria-controls'', ''fly''), (''aria-expanded'', show_bool b)]\<rparr>
        else if u = 6 then (new_elem ''DIV'')\<lparr>attrs := [(''id'', ''fly'')]\<rparr>
        else new_elem ''DIV''),
      focus = None, cookie_jar = j, local_store = Some (\<lambda>k. None), toggler_bound = Some 2, items_bound = [4],
      doc_listeners = (if b then [(0, 4, Some ''fly'')] else []), next_serial = 1\<rparr>"

theorem toggle_sidenav_remembers_witness:
  "\<exists>s'. toggle_sidenav (demo_sidenav [] False) = Done s' \<and> saved_state s' = ''true''"
proof -
  have h: "toggler_layout (demo_sidenav [] False) 2 3" by code_simp
  have "is_expanded (heap (demo_sidenav [] False) 2)" by code_simp
  with toggle_sidenav_remembers [OF h] show ?thesis by (auto simp: show_bool_def)
qed

theorem init_repairs_rendering_witness:
  "\<exists>s'. init_sidenav (demo_sidenav [(''sidenav_collapsed'', ''true'')] False) = Done s' \<and> \<not> is_expanded (heap s' 2)"
proof -
  let ?s = "demo_sidenav [(''sidenav_collapsed'', ''true'')] False"
  have h: "toggler_layout ?s 2 3" "saved_state ?s \<in> {''true'', ''false''}"
    "get_attr ''aria-expanded'' (heap ?s 2) \<in> {Some ''true'', Some ''false''}" by code_simp+
  have "saved_state ?s \<noteq> ''false''" by code_simp
  with init_repairs_rendering [OF h] show ?thesis by auto
qed

theorem flyouts_stay_tracked_witness: "fly_inv (dispatch_click 4 (demo_sidenav [] True))"
  by (rule flyouts_stay_tracked) code_simp

theorem outside_click_closes_flyouts_witness:
  "doc_listeners (dispatch_click 7 (demo_sidenav [] True)) = [] \<and>
   \<not> is_expanded (heap (dispatch_click 7 (demo_sidenav [] True)) 4)"
proof -
  let ?s = "demo_sidenav [] True"
  have h: "fly_inv ?s" by code_simp
  have items: "items_bound ?s = [4]" by code_simp
  have "\<not> contains ?s 4 7 \<and> by_id ?s (id_text (get_attr ''aria-controls'' (heap ?s 4))) = Some 6 \<and> \<not> contains ?s 6 7"
    by code_simp
  then have out: "\<not> contains ?s i 7 \<and>
      (\<forall>f. by_id ?s (id_text (get_attr ''aria-controls'' (heap ?s i))) = Some f \<longrightarrow> \<not> contains ?s f 7)"
    if "i \<in> set (items_bound ?s)" for i
    using that items by simp
  show ?thesis using outside_click_closes_flyouts [OF h out] items by simp
qed

theorem closing_click_leaks_listener_witness:
  "doc_listeners (click_list_item 4 (click_list_item 4 (demo_sidenav [] False))) = [(1, 4, Some ''fly'')]"
proof -
  let ?s = "demo_sidenav [] False"
  have h: "fly_inv ?s" "4 \<in> set (items_bound ?s)" "\<not> is_expanded (heap ?s 4)" by code_simp+
  have "doc_listeners ?s = [] \<and> next_serial ?s = 1 \<and> get_attr ''aria-controls'' (heap ?s 4) = Some ''fly''"
    by code_simp
  with closing_click_leaks_listener [OF h] show ?thesis by simp
qed

end
