(* ===== verification/Json.thy ===== *)
theory Json
  imports Prelude
begin

text \<open>
  JSON as the scripts use it: values, \<open>JSON.stringify\<close> without indentation, and
  \<open>JSON.parse\<close> (\<open>None\<close> where it throws). Numbers are integers and characters code
  units below 256, the range of everything the scripts store; objects keep the order of
  their entries and a repeated key overwrites.
\<close>

datatype json =
    JNull
  | JBool bool
  | JNum int
  | JStr string
  | JArr "json list"
  | JObj "(string \<times> json) list"

section \<open>Printing\<close>

definition hex_digit :: "nat \<Rightarrow> char" where
  "hex_digit n = (if n < 10 then char_of (48 + n) else char_of (87 + n))"

definition esc_char :: "char \<Rightarrow> string" where
  "esc_char c =
     (if c = CHR 0x22 \<or> c = CHR 0x5C then [CHR 0x5C, c]
      else if c = CHR 0x08 then [CHR 0x5C, CHR ''b'']
      else if c = CHR 0x09 then [CHR 0x5C, CHR ''t'']
      else if c = CHR 0x0A then [CHR 0x5C, CHR ''n'']
      else if c = CHR 0x0C then [CHR 0x5C, CHR ''f'']
      else if c = CHR 0x0D then [CHR 0x5C, CHR ''r'']
      else if (of_char c :: nat) < 32
      then [CHR 0x5C, CHR ''u'', CHR ''0'', CHR ''0'', hex_digit (of_char c div 16), hex_digit (of_char c mod 16)]
      else [c])"

definition quote_str :: "string \<Rightarrow> string" where
  "quote_str s = CHR 0x22 # concat (map esc_char s) @ [CHR 0x22]"

fun stringify :: "json \<Rightarrow> string"
  and stringify_elems :: "json list \<Rightarrow> string list"
  and stringify_members :: "(string \<times> json) list \<Rightarrow> string list" where
  "stringify JNull = ''null''"
| "stringify (JBool b) = (if b then ''true'' else ''false'')"
| "stringify (JNum i) = show_int i"
| "stringify (JStr s) = quote_str s"
| "stringify (JArr vs) = ''['' @ join_str '','' (stringify_elems vs) @ '']''"
| "stringify (JObj ms) = ''{'' @ join_str '','' (stringify_members ms) @ ''}''"
| "stringify_elems [] = []"
| "stringify_elems (v # vs) = stringify v # stringify_elems vs"
| "stringify_members [] = []"
| "stringify_members ((k, v) # ms) = (quote_str k @ '':'' @ stringify v) # stringify_members ms"

section \<open>Parsing\<close>

definition json_space :: "char \<Rightarrow> bool" where
  "json_space c \<longleftrightarrow> c = CHR '' '' \<or> c = CHR 0x09 \<or> c = CHR 0x0A \<or> c = CHR 0x0D"

definition skip_ws :: "string \<Rightarrow> string" where
  "skip_ws s = dropWhile json_space s"

definition hex_val :: "char \<Rightarrow> nat option" where
  "hex_val c =
     (let n = (of_char c :: nat)
      in if 48 \<le> n \<and> n \<le> 57 then Some (n - 48)
         else if 97 \<le> n \<and> n \<le> 102 then Some (n - 87)
         else if 65 \<le> n \<and> n \<le> 70 then Some (n - 55) else None)"

definition hex4 :: "char \<Rightarrow> char \<Rightarrow> char \<Rightarrow> char \<Rightarrow> char option" where
  "hex4 a b c d =
     (case (hex_val a, hex_val b, hex_val c, hex_val d) of
        (Some w, Some x, Some y, Some z) \<Rightarrow>
          if w = 0 \<and> x = 0 then Some (char_of (16 * y + z)) else None
      | _ \<Rightarrow> None)"

definition unesc_char :: "char \<Rightarrow> char option" where
  "unesc_char e =
     (if e = CHR 0x22 \<or> e = CHR 0x5C \<or> e = CHR ''/'' then Some e
      else if e = CHR ''b'' then Some (CHR 0x08)
      else if e = CHR ''t'' then Some (CHR 0x09)
      else if e = CHR ''n'' then Some (CHR 0x0A)
      else if e = CHR ''f'' then Some (CHR 0x0C)
      else if e = CHR ''r'' then Some (CHR 0x0D) else None)"

definition cons_fst :: "'a \<Rightarrow> 'a list \<times> 'b \<Rightarrow> 'a list \<times> 'b" where
  "cons_fst x p = (x # fst p, snd p)"

fun parse_chars :: "string \<Rightarrow> (string \<times> string) option" where
  "parse_chars [] = None"
| "parse_chars (c # r) =
     (if c = CHR 0x22 then Some ([], r)
      else if c = CHR 0x5C
      then (case r of
              [] \<Rightarrow> None
            | e # r1 \<Rightarrow>
                if e = CHR ''u''
                then (case r1 of
                        w # x # y # z # r2 \<Rightarrow>
                          (case hex4 w x y z of
                             None \<Rightarrow> None
                           | Some h \<Rightarrow> map_option (cons_fst h) (parse_chars r2))
                      | _ \<Rightarrow> None)
                else (case unesc_char e of
                        None \<Rightarrow> None
                      | Some h \<Rightarrow> map_option (cons_fst h) (parse_chars r1)))
      else if (of_char c :: nat) < 32 then None
      else map_option (cons_fst c) (parse_chars r))"

definition parse_number :: "string \<Rightarrow> (json \<times> string) option" where
  "parse_number s =
     (let neg = starts_with ''-'' s;
          u = (if neg then tl s else s);
          ds = takeWhile is_digit u
      in if ds = [] \<or> (hd ds = CHR ''0'' \<and> length ds > 1) then None
         else Some (JNum (if neg then - digits_val ds else digits_val ds), dropWhile is_digit u))"

fun parse_value :: "nat \<Rightarrow> string \<Rightarrow> (json \<times> string) option"
  and parse_elems :: "nat \<Rightarrow> string \<Rightarrow> (json list \<times> string) option"
  and parse_members :: "nat \<Rightarrow> string \<Rightarrow> ((string \<times> json) list \<times> string) option" where
  "parse_value 0 s = None"
| "parse_value (Suc n) s =
     (case skip_ws s of
        [] \<Rightarrow> None
      | c # r \<Rightarrow>
          if c = CHR 0x22 then map_option (\<lambda>(t, q). (JStr t, q)) (parse_chars r)
          else if c = CHR ''[''
          then (case skip_ws r of
                  [] \<Rightarrow> None
                | d # q \<Rightarrow> if d = CHR '']'' then Some (JArr [], q)
                    else map_option (\<lambda>(vs, q'). (JArr vs, q')) (parse_elems n (d # q)))
          else if c = CHR ''{''
          then (case skip_ws r of
                  [] \<Rightarrow> None
                | d # q \<Rightarrow> if d = CHR ''}'' then Some (JObj [], q)
                    else map_option (\<lambda>(ms, q'). (JObj (ospread [] ms), q')) (parse_members n (d # q)))
          else if starts_with ''null'' (c # r) then Some (JNull, drop 4 (c # r))
          else if starts_with ''true'' (c # r) then Some (JBool True, drop 4 (c # r))
          else if starts_with ''false'' (c # r) then Some (JBool False, drop 5 (c # r))
          else parse_number (c # r))"
| "parse_elems 0 s = None"
| "parse_elems (Suc n) s =
     (case parse_value n s of
        None \<Rightarrow> None
      | Some (v, r) \<Rightarrow>
          (case skip_ws r of
             [] \<Rightarrow> None
           | c # q \<Rightarrow>
               if c = CHR '','' then map_option (cons_fst v) (parse_elems n q)
               else if c = CHR '']'' then Some ([v], q) else None))"
| "parse_members 0 s = None"
| "parse_members (Suc n) s =
     (case skip_ws s of
        [] \<Rightarrow> None
      | c # r \<Rightarrow>
          if c \<noteq> CHR 0x22 then None
          else (case parse_chars r of
                  None \<Rightarrow> None
                | Some (k, r1) \<Rightarrow>
                    (case skip_ws r1 of
                       [] \<Rightarrow> None
                     | d # r2 \<Rightarrow>
                         if d \<noteq> CHR '':'' then None
                         else (case parse_value n r2 of
                                 None \<Rightarrow> None
                               | Some (v, r3) \<Rightarrow>
                                   (case skip_ws r3 of
                                      [] \<Rightarrow> None
                                    | e # q \<Rightarrow>
                                        if e = CHR '','' then map_option (cons_fst (k, v)) (parse_members n q)
                                        else if e = CHR ''}'' then Some ([(k, v)], q) else None)))))"

definition json_parse :: "string \<Rightarrow> json option" where
  "json_parse s =
     (case parse_value (length s + 1) s of
        None \<Rightarrow> None
      | Some (v, r) \<Rightarrow> if skip_ws r = [] then Some v else None)"

text \<open>Reading a property of a value that may not be an object.\<close>

fun jget :: "string \<Rightarrow> json \<Rightarrow> json option" where
  "jget k (JObj ms) = oget ms k"
| "jget k _ = None"

text \<open>Truthiness of a value.\<close>

fun truthy :: "json \<Rightarrow> bool" where
  "truthy JNull = False"
| "truthy (JBool b) = b"
| "truthy (JNum i) = (i \<noteq> 0)"
| "truthy (JStr s) = (s \<noteq> [])"
| "truthy (JArr vs) = True"
| "truthy (JObj ms) = True"

section \<open>Spreading a value into an object\<close>

definition indexed :: "json list \<Rightarrow> json obj" where
  "indexed vs = map (\<lambda>(i, v). (show_nat i, v)) (enumerate 0 vs)"

definition own_entries :: "json option \<Rightarrow> json obj" where
  "own_entries v =
     (case v of
        Some (JObj ms) \<Rightarrow> ms
      | Some (JArr vs) \<Rightarrow> indexed vs
      | Some (JStr t) \<Rightarrow> indexed (map (\<lambda>c. JStr [c]) t)
      | _ \<Rightarrow> [])"

text \<open>\<open>v?.k\<close>, and the truthiness of a value that may be \<open>undefined\<close>.\<close>

definition jopt :: "string \<Rightarrow> json option \<Rightarrow> json option" where
  "jopt k v = (case v of None \<Rightarrow> None | Some w \<Rightarrow> jget k w)"

definition truthy_opt :: "json option \<Rightarrow> bool" where
  "truthy_opt v = (case v of None \<Rightarrow> False | Some w \<Rightarrow> truthy w)"

section \<open>Parsing what was printed\<close>

fun wf_json :: "json \<Rightarrow> bool"
  and wf_elems :: "json list \<Rightarrow> bool"
  and wf_members :: "(string \<times> json) list \<Rightarrow> bool" where
  "wf_json (JArr vs) = wf_elems vs"
| "wf_json (JObj ms) = (distinct (map fst ms) \<and> wf_members ms)"
| "wf_json _ = True"
| "wf_elems [] = True"
| "wf_elems (v # vs) = (wf_json v \<and> wf_elems vs)"
| "wf_members [] = True"
| "wf_members ((k, v) # ms) = (wf_json v \<and> wf_members ms)"

fun jsize :: "json \<Rightarrow> nat"
  and elems_size :: "json list \<Rightarrow> nat"
  and members_size :: "(string \<times> json) list \<Rightarrow> nat" where
  "jsize (JArr vs) = Suc (elems_size vs)"
| "jsize (JObj ms) = Suc (members_size ms)"
| "jsize _ = 1"
| "elems_size [] = 0"
| "elems_size (v # vs) = Suc (jsize v + elems_size vs)"
| "members_size [] = 0"
| "members_size ((k, v) # ms) = Suc (jsize v + members_size ms)"

lemma hex_val_digit: "n < 16 \<Longrightarrow> hex_val (hex_digit n) = Some n"
  by (simp add: hex_val_def hex_digit_def Let_def)

lemma hex_val_zero: "hex_val (CHR ''0'') = Some 0"
  by (simp add: hex_val_def Let_def)

lemma hex4_esc: "(of_char c :: nat) < 32 \<Longrightarrow>
  hex4 (CHR ''0'') (CHR ''0'') (hex_digit (of_char c div 16)) (hex_digit (of_char c mod 16)) = Some c"
  by (simp add: hex4_def hex_val_zero hex_val_digit)

lemma parse_chars_plain:
  "c \<noteq> CHR 0x22 \<Longrightarrow> c \<noteq> CHR 0x5C \<Longrightarrow> \<not> (of_char c :: nat) < 32 \<Longrightarrow>
   parse_chars (c # r) = map_option (cons_fst c) (parse_chars r)"
  by (subst parse_chars.simps) simp

lemma parse_chars_short:
  "e \<noteq> CHR ''u'' \<Longrightarrow> unesc_char e = Some h \<Longrightarrow>
   parse_chars (CHR 0x5C # e # r) = map_option (cons_fst h) (parse_chars r)"
  by (subst parse_chars.simps) (simp del: parse_chars.simps)

lemma parse_chars_hex:
  "hex4 w x y z = Some h \<Longrightarrow>
   parse_chars (CHR 0x5C # CHR ''u'' # w # x # y # z # r) = map_option (cons_fst h) (parse_chars r)"
  by (subst parse_chars.simps) (simp del: parse_chars.simps)

lemma parse_chars_esc: "parse_chars (esc_char c @ r) = map_option (cons_fst c) (parse_chars r)"
  unfolding esc_char_def
  by (simp add: parse_chars_plain parse_chars_short parse_chars_hex hex4_esc unesc_char_def
      del: parse_chars.simps)

lemma parse_chars_quoted: "parse_chars (concat (map esc_char s) @ CHR 0x22 # r) = Some (s, r)"
proof (induction s)
  case (Cons c s)
  then show ?case by (simp add: parse_chars_esc cons_fst_def del: parse_chars.simps)
qed simp

definition no_digit :: "string \<Rightarrow> bool" where
  "no_digit r \<longleftrightarrow> (case r of [] \<Rightarrow> True | c # _ \<Rightarrow> \<not> is_digit c)"

lemma hd_show_nat: "0 < n \<Longrightarrow> hd (show_nat n) \<noteq> CHR ''0''"
proof (induction n rule: show_nat.induct)
  case (1 n)
  show ?case
  proof (cases "n < 10")
    case True
    have "list_all (\<lambda>n. char_of (48 + n) \<noteq> CHR ''0'') [1..<10]" by code_simp
    with True 1 show ?thesis by (subst show_nat.simps) (simp add: list_all_iff)
  next
    case False
    then have "0 < n div 10" by (simp add: div_greater_zero_iff)
    with 1 False show ?thesis by (subst show_nat.simps) simp
  qed
qed

lemma parse_nat_text:
  assumes "no_digit r"
  shows "takeWhile is_digit (show_nat n @ r) = show_nat n" and "dropWhile is_digit (show_nat n @ r) = r"
    and "\<not> (hd (show_nat n) = CHR ''0'' \<and> length (show_nat n) > 1)"
proof -
  have all: "\<forall>c \<in> set (show_nat n). is_digit c" by (rule show_nat_digits)
  then show "takeWhile is_digit (show_nat n @ r) = show_nat n" and "dropWhile is_digit (show_nat n @ r) = r"
    using assms by (simp_all add: takeWhile_append2 dropWhile_append2 no_digit_def split: list.splits)
  have "length (show_nat 0) = 1" by (subst show_nat.simps) simp
  then show "\<not> (hd (show_nat n) = CHR ''0'' \<and> length (show_nat n) > 1)"
    using hd_show_nat [of n] by (cases "n = 0") auto
qed

lemma show_nat_hd_digit: "\<exists>c t. show_nat n = c # t \<and> is_digit c"
  using show_nat_digits [of n] by (cases "show_nat n") auto

lemma parse_number_show:
  assumes "no_digit r"
  shows "parse_number (show_int i @ r) = Some (JNum i, r)"
proof (cases "i < 0")
  case True
  then show ?thesis
    using parse_nat_text [OF assms, of "nat (- i)"]
    by (simp add: show_int_def parse_number_def digits_val_show_nat Let_def)
next
  case False
  obtain c t where c: "show_nat (nat i) = c # t" and d: "is_digit c" using show_nat_hd_digit by blast
  then have "\<not> starts_with ''-'' (show_nat (nat i) @ r)" using digit_not_space [OF d] by auto
  with False show ?thesis
    using parse_nat_text [OF assms, of "nat i"]
    by (simp add: show_int_def parse_number_def digits_val_show_nat Let_def)
qed


lemma skip_ws_Cons [simp]: "\<not> json_space c \<Longrightarrow> skip_ws (c # t) = c # t"
  by (simp add: skip_ws_def)

definition json_head :: "char \<Rightarrow> bool" where
  "json_head c \<longleftrightarrow> \<not> json_space c \<and> c \<noteq> CHR '']'' \<and> c \<noteq> CHR ''}'' \<and> c \<noteq> CHR '',''"

lemma digit_head: "is_digit c \<Longrightarrow> json_head c \<and> c \<noteq> CHR 0x22 \<and> c \<noteq> CHR ''['' \<and> c \<noteq> CHR ''{'' \<and>
    c \<noteq> CHR ''n'' \<and> c \<noteq> CHR ''t'' \<and> c \<noteq> CHR ''f''"
  by (auto simp: is_digit_def json_head_def json_space_def)

lemma stringify_head: "\<exists>c t. stringify v = c # t \<and> json_head c"
proof (cases v)
  case (JNum i)
  then show ?thesis
    using show_nat_hd_digit [of "nat i"] digit_head
    by (auto simp: show_int_def json_head_def json_space_def)
qed (auto simp: json_head_def json_space_def quote_str_def)

lemma stringify_number_text:
  assumes "no_digit r"
  shows "parse_value (Suc n) (show_int i @ r) = Some (JNum i, r)"
proof -
  have "\<exists>c t. show_int i = c # t \<and> (is_digit c \<or> c = CHR ''-'')"
    using show_nat_hd_digit [of "nat i"] by (auto simp: show_int_def)
  then obtain c t where e: "show_int i = c # t" and c: "is_digit c \<or> c = CHR ''-''" by blast
  from c have "\<not> json_space c \<and> c \<noteq> CHR 0x22 \<and> c \<noteq> CHR ''['' \<and> c \<noteq> CHR ''{'' \<and> c \<noteq> CHR ''n'' \<and>
    c \<noteq> CHR ''t'' \<and> c \<noteq> CHR ''f''"
  proof
    assume "is_digit c"
    from digit_head [OF this] show ?thesis unfolding json_head_def by blast
  next
    assume "c = CHR ''-''"
    then show ?thesis by (simp add: json_space_def)
  qed
  then have "parse_value (Suc n) ((c # t) @ r) = parse_number ((c # t) @ r)"
    by (simp add: eq_commute [of _ c])
  then show ?thesis using parse_number_show [OF assms, of i] e by simp
qed

lemma oset_new: "k \<notin> set (map fst a) \<Longrightarrow> oset k v a = a @ [(k, v)]"
  by (induction a) auto

lemma ospread_fresh: "distinct (map fst (a @ ms)) \<Longrightarrow> ospread a ms = a @ ms"
proof (induction ms arbitrary: a)
  case (Cons m ms)
  then show ?case by (cases m) (simp add: oset_new)
qed simp

lemma no_digit_sep [simp]: "no_digit (CHR '','' # r)" "no_digit (CHR '']'' # r)" "no_digit (CHR ''}'' # r)" "no_digit []"
  by (simp_all add: no_digit_def is_digit_def)

lemma json_space_sep [simp]: "\<not> json_space (CHR '','')" "\<not> json_space (CHR '']'')" "\<not> json_space (CHR ''}'')"
  "\<not> json_space (CHR '':'')" "\<not> json_space (CHR 0x22)" "\<not> json_space (CHR ''['')" "\<not> json_space (CHR ''{'')"
  by (simp_all add: json_space_def)

lemma parse_quoted: "parse_value (Suc n) (quote_str s @ r) = Some (JStr s, r)"
  by (simp add: quote_str_def parse_chars_quoted del: parse_chars.simps)

lemma stringify_elems_Nil [simp]: "stringify_elems vs = [] \<longleftrightarrow> vs = []"
  by (cases vs) auto

lemma stringify_members_Nil [simp]: "stringify_members ms = [] \<longleftrightarrow> ms = []"
  by (cases ms rule: stringify_members.cases) auto

lemma elems_head: "vs \<noteq> [] \<Longrightarrow> \<exists>c t. join_str '','' (stringify_elems vs) = c # t \<and> json_head c"
  using stringify_head by (cases vs) (fastforce simp: join_str_Cons)+

lemma members_head: "ms \<noteq> [] \<Longrightarrow> \<exists>t. join_str '','' (stringify_members ms) = CHR 0x22 # t"
  by (cases ms rule: stringify_members.cases) (auto simp: join_str_Cons quote_str_def)

lemma parse_elems_Suc:
  assumes "parse_value n s = Some (v, c # q)" and "c = CHR '','' \<or> c = CHR '']''"
  shows "parse_elems (Suc n) s = (if c = CHR '','' then map_option (cons_fst v) (parse_elems n q) else Some ([v], q))"
  using assms(2) by (elim disjE) (simp_all add: assms(1) del: parse_value.simps)

lemma parse_members_Suc:
  assumes "parse_value n r = Some (v, c # q)" and "c = CHR '','' \<or> c = CHR ''}''"
  shows "parse_members (Suc n) (quote_str k @ CHR '':'' # r) =
    (if c = CHR '','' then map_option (cons_fst (k, v)) (parse_members n q) else Some ([(k, v)], q))"
  using assms(2) by (elim disjE) (simp_all add: quote_str_def parse_chars_quoted assms(1) del: parse_chars.simps parse_value.simps)

lemma parse_stringify:
  "jsize v \<le> n \<Longrightarrow> wf_json v \<Longrightarrow> no_digit r \<Longrightarrow> parse_value n (stringify v @ r) = Some (v, r)"
  "elems_size vs \<le> n \<Longrightarrow> wf_elems vs \<Longrightarrow> vs \<noteq> [] \<Longrightarrow>
     parse_elems n (join_str '','' (stringify_elems vs) @ CHR '']'' # r) = Some (vs, r)"
  "members_size ms \<le> n \<Longrightarrow> wf_members ms \<Longrightarrow> ms \<noteq> [] \<Longrightarrow>
     parse_members n (join_str '','' (stringify_members ms) @ CHR ''}'' # r) = Some (ms, r)"
proof (induction v and vs and ms arbitrary: n r and n r and n r
    rule: stringify_stringify_elems_stringify_members.induct)
  case 1
  then show ?case by (cases n) (simp_all add: json_space_def)
next
  case (2 b)
  then show ?case by (cases n) (simp_all add: json_space_def)
next
  case (3 i)
  then show ?case by (cases n) (simp_all add: stringify_number_text del: parse_value.simps)
next
  case (4 s)
  then show ?case by (cases n) (simp_all add: parse_quoted del: parse_value.simps)
next
  case (5 vs)
  then obtain m where n: "n = Suc m" and le: "elems_size vs \<le> m" by (cases n) auto
  show ?case
  proof (cases "vs = []")
    case False
    then obtain c t where h: "join_str '','' (stringify_elems vs) = c # t" and c: "json_head c"
      using elems_head by blast
    from 5 le False have "parse_elems m (join_str '','' (stringify_elems vs) @ CHR '']'' # r) = Some (vs, r)"
      by simp
    then show ?thesis using c by (simp add: n h json_head_def del: parse_elems.simps)
  qed (simp add: n)
next
  case (6 ms)
  then obtain m where n: "n = Suc m" and le: "members_size ms \<le> m" by (cases n) auto
  show ?case
  proof (cases "ms = []")
    case False
    then obtain t where h: "join_str '','' (stringify_members ms) = CHR 0x22 # t"
      using members_head by blast
    from 6 le False have "parse_members m (join_str '','' (stringify_members ms) @ CHR ''}'' # r) = Some (ms, r)"
      by simp
    moreover have "ospread [] ms = ms" using 6(3) ospread_fresh [of "[]" ms] by simp
    ultimately show ?thesis by (simp add: n h del: parse_members.simps)
  qed (simp add: n)
next
  case 7
  then show ?case by simp
next
  case (8 v vs)
  then obtain m where n: "n = Suc m" by (cases n) auto
  show ?case
  proof (cases "vs = []")
    case True
    then have "parse_value m (stringify v @ CHR '']'' # r) = Some (v, CHR '']'' # r)"
      using 8(1) [of m "CHR '']'' # r"] 8(3,4) n by simp
    from parse_elems_Suc [OF this] True show ?thesis by (simp add: n)
  next
    case False
    let ?q = "join_str '','' (stringify_elems vs) @ CHR '']'' # r"
    have "parse_value m (stringify v @ CHR '','' # ?q) = Some (v, CHR '','' # ?q)"
      using 8(1) [of m "CHR '','' # ?q"] 8(3,4) n by simp
    moreover have "parse_elems m ?q = Some (vs, r)" using 8(2) 8(3,4) False n by simp
    ultimately show ?thesis using parse_elems_Suc False
      by (simp add: n join_str_Cons cons_fst_def del: parse_elems.simps)
  qed
next
  case 9
  then show ?case by simp
next
  case (10 k v ms)
  then obtain m where n: "n = Suc m" by (cases n) auto
  show ?case
  proof (cases "ms = []")
    case True
    then have "parse_value m (stringify v @ CHR ''}'' # r) = Some (v, CHR ''}'' # r)"
      using 10(1) [of m "CHR ''}'' # r"] 10(3,4) n by simp
    from parse_members_Suc [OF this] True show ?thesis by (simp add: n)
  next
    case False
    let ?q = "join_str '','' (stringify_members ms) @ CHR ''}'' # r"
    have "parse_value m (stringify v @ CHR '','' # ?q) = Some (v, CHR '','' # ?q)"
      using 10(1) [of m "CHR '','' # ?q"] 10(3,4) n by simp
    moreover have "parse_members m ?q = Some (ms, r)" using 10(2) 10(3,4) False n by simp
    ultimately show ?thesis using parse_members_Suc False
      by (simp add: n join_str_Cons cons_fst_def del: parse_members.simps)
  qed
qed

lemma jsize_le:
  "jsize v \<le> length (stringify v)"
  "elems_size vs \<le> length (join_str '','' (stringify_elems vs)) + 1"
  "members_size ms \<le> length (join_str '','' (stringify_members ms)) + 1"
  by (induction v and vs and ms rule: stringify_stringify_elems_stringify_members.induct)
     (auto simp: join_str_Cons quote_str_def show_int_def Suc_le_eq)

text \<open>
  Parsing the text of a value gives the value back, whatever it contains (escapes,
  control characters, nesting), as long as no object repeats a key.
\<close>

lemma json_round_trip:
  assumes "wf_json v"
  shows "json_parse (stringify v) = Some v"
  using parse_stringify(1) [of v "length (stringify v) + 1" "[]"] jsize_le(1) [of v] assms
  by (simp add: json_parse_def skip_ws_def del: parse_value.simps)

lemma json_round_trip_example:
  "json_parse (stringify (JObj [(''open'', JArr [JStr [CHR 0x22, CHR 0x0A], JNum (-12)])])) =
     Some (JObj [(''open'', JArr [JStr [CHR 0x22, CHR 0x0A], JNum (-12)])])"
  by (rule json_round_trip) simp

section \<open>Well-formed objects\<close>

lemma wf_members_iff: "wf_members ms \<longleftrightarrow> (\<forall>e \<in> set ms. wf_json (snd e))"
proof (induction ms)
  case (Cons m ms)
  then show ?case by (cases m) auto
qed simp

lemma wf_json_oget: "wf_members ms \<Longrightarrow> oget ms k = Some v \<Longrightarrow> wf_json v"
  by (auto simp: wf_members_iff dest!: map_of_SomeD)

lemma wf_members_oset: "wf_members ms \<Longrightarrow> wf_json v \<Longrightarrow> wf_members (oset k v ms)"
proof (induction ms)
  case (Cons m ms)
  then show ?case by (cases m) auto
qed simp

lemma wf_json_oset: "wf_json (JObj ms) \<Longrightarrow> wf_json v \<Longrightarrow> wf_json (JObj (oset k v ms))"
  by (simp add: wf_members_oset distinct_update)

lemma wf_json_obj: "wf_json (JObj ms) \<Longrightarrow> wf_obj ms"
  by (simp add: wf_obj_def)

end
