(* ===== verification/Echarts.thy ===== *)
theory Echarts
  imports Json
begin

text \<open>
  Theme overrides for charts: \<open>nautobot/ui/src/js/echarts.js\<close>. Options are JSON values from
  the server; the two colors are read from the computed style of the document and passed
  in. Keys that look like array indices, which JavaScript would move to the front, do not
  occur in chart options.
\<close>

section \<open>The script\<close>

definition theme_color :: "string \<Rightarrow> json \<Rightarrow> json" where
  "theme_color theme c =
     (case jget theme c of
        Some v \<Rightarrow> if truthy v then v else (case jget ''light'' c of Some w \<Rightarrow> if truthy w then w else c | None \<Rightarrow> c)
      | None \<Rightarrow> (case jget ''light'' c of Some w \<Rightarrow> if truthy w then w else c | None \<Rightarrow> c))"

definition color_override :: "string \<Rightarrow> json \<Rightarrow> json" where
  "color_override theme c = (case c of JArr cs \<Rightarrow> JArr (map (theme_color theme) cs) | _ \<Rightarrow> c)"

text \<open>\<open>{ color: c, ...style }\<close>.\<close>

definition colored :: "string \<Rightarrow> json option \<Rightarrow> json" where
  "colored c style = JObj (ospread [(''color'', JStr c)] (own_entries style))"

definition legend_override :: "string \<Rightarrow> json \<Rightarrow> json" where
  "legend_override secondary l =
     JObj (ospread [(''textStyle'', colored secondary (jget ''textStyle'' l))] (own_entries (Some l)))"

definition title_override :: "string \<Rightarrow> json \<Rightarrow> json" where
  "title_override secondary t =
     JObj (ospread
       [(''subtextStyle'', colored secondary (jget ''subtextStyle'' t)),
        (''textStyle'', colored secondary (jget ''textStyle'' t))] (own_entries (Some t)))"

definition line_override :: "string \<Rightarrow> json option \<Rightarrow> json" where
  "line_override border l =
     JObj (ospread [(''lineStyle'', colored border (jopt ''lineStyle'' l))] (own_entries l))"

definition axis_override :: "string \<Rightarrow> string \<Rightarrow> json \<Rightarrow> json" where
  "axis_override border secondary a =
     JObj (ospread
       [(''axisLabel'', colored secondary (jget ''axisLabel'' a)),
        (''axisLine'', line_override border (jget ''axisLine'' a)),
        (''splitLine'', line_override border (jget ''splitLine'' a))] (own_entries (Some a)))"

definition when_truthy :: "string \<Rightarrow> (json \<Rightarrow> json) \<Rightarrow> json option \<Rightarrow> json obj" where
  "when_truthy k f v = (case v of Some w \<Rightarrow> if truthy w then [(k, f w)] else [] | None \<Rightarrow> [])"

text \<open>\<open>None\<close> when the options are \<open>null\<close>, whose properties cannot be read.\<close>

definition theme_overrides :: "string \<Rightarrow> string \<Rightarrow> json \<Rightarrow> string \<Rightarrow> json option" where
  "theme_overrides border secondary options theme =
     (if options = JNull then None
      else Some (JObj
        ((''darkMode'', JBool (theme = ''dark'')) #
         when_truthy ''color'' (color_override theme) (jget ''color'' options) @
         when_truthy ''legend'' (legend_override (js_trim secondary)) (jget ''legend'' options) @
         when_truthy ''title'' (title_override (js_trim secondary)) (jget ''title'' options) @
         when_truthy ''xAxis'' (axis_override (js_trim border) (js_trim secondary)) (jget ''xAxis'' options) @
         when_truthy ''yAxis'' (axis_override (js_trim border) (js_trim secondary)) (jget ''yAxis'' options))))"

section \<open>What the overrides are\<close>

lemma oget_when_truthy:
  "oget (when_truthy k f v) k' = (if k' = k \<and> truthy_opt v then map_option f v else None)"
  by (auto simp: when_truthy_def truthy_opt_def split: option.split)

lemma oget_append: "oget (a @ b) k = (case oget b k of None \<Rightarrow> oget a k | Some v \<Rightarrow> (case oget a k of None \<Rightarrow> Some v | Some w \<Rightarrow> Some w))"
  by (auto simp: map_add_def split: option.split)

lemma override_members:
  assumes "theme_overrides border secondary options theme = Some r"
  shows "jget ''darkMode'' r = Some (JBool (theme = ''dark''))"
    and "jget ''color'' r = (if truthy_opt (jget ''color'' options) then map_option (color_override theme) (jget ''color'' options) else None)"
    and "jget ''legend'' r = (if truthy_opt (jget ''legend'' options)
      then map_option (legend_override (js_trim secondary)) (jget ''legend'' options) else None)"
    and "jget ''title'' r = (if truthy_opt (jget ''title'' options)
      then map_option (title_override (js_trim secondary)) (jget ''title'' options) else None)"
    and "jget ''xAxis'' r = (if truthy_opt (jget ''xAxis'' options)
      then map_option (axis_override (js_trim border) (js_trim secondary)) (jget ''xAxis'' options) else None)"
    and "jget ''yAxis'' r = (if truthy_opt (jget ''yAxis'' options)
      then map_option (axis_override (js_trim border) (js_trim secondary)) (jget ''yAxis'' options) else None)"
  using assms
  by (auto simp: theme_overrides_def oget_when_truthy map_add_def split: if_splits option.splits)

lemma oget_spread_json:
  "wf_obj b \<Longrightarrow> oget (ospread a b) k = (case oget b k of Some v \<Rightarrow> Some v | None \<Rightarrow> oget a k)"
  by (rule oget_ospread)

lemma jget_JObj_spread:
  "wf_obj ms \<Longrightarrow> jget k (JObj (ospread a (own_entries (Some (JObj ms))))) =
    (case oget ms k of Some v \<Rightarrow> Some v | None \<Rightarrow> oget a k)"
  by (simp add: own_entries_def oget_spread_json)

text \<open>A palette entry, a light/dark pair or a plain color, and the color of it for a theme.\<close>

fun palette_entry :: "(string \<times> string) + string \<Rightarrow> json" where
  "palette_entry (Inl (l, d)) = JObj [(''light'', JStr l), (''dark'', JStr d)]"
| "palette_entry (Inr c) = JStr c"

fun palette_pick :: "string \<Rightarrow> (string \<times> string) + string \<Rightarrow> json" where
  "palette_pick theme (Inl (l, d)) = JStr (if theme = ''dark'' then d else l)"
| "palette_pick theme (Inr c) = JStr c"

text \<open>
  A palette of light/dark pairs becomes the list of the colors of the theme, in order,
  and plain color names stay as they are.
\<close>

theorem palette_follows_theme:
  assumes "jget ''color'' options = Some (JArr (map palette_entry ps))"
    and "\<And>l d. Inl (l, d) \<in> set ps \<Longrightarrow> l \<noteq> [] \<and> d \<noteq> []" and "theme \<in> {''light'', ''dark''}"
  shows "\<exists>r. theme_overrides border secondary options theme = Some r \<and>
    jget ''color'' r = Some (JArr (map (palette_pick theme) ps))"
proof -
  have "options \<noteq> JNull" using assms(1) by auto
  then obtain r where r: "theme_overrides border secondary options theme = Some r"
    by (simp add: theme_overrides_def)
  have "theme_color theme (palette_entry p) = palette_pick theme p" if "p \<in> set ps" for p
    using that assms(2,3) by (cases p rule: palette_entry.cases) (auto simp: theme_color_def)
  then show ?thesis
    using override_members(2) [OF r] assms(1)
    by (simp add: r truthy_opt_def color_override_def)
qed

text \<open>
  What the server says about an axis is what the chart gets, member by member; the
  colors of the theme are used only for a member the server does not mention at all. A
  partial style from the server (a label rotation, say) is therefore not completed with
  the color of the theme.
\<close>

theorem axis_defaults_only_when_absent:
  assumes "theme_overrides border secondary options theme = Some r"
    and "jget ''xAxis'' options = Some (JObj ms)" and "wf_obj ms"
  shows "\<exists>ax. jget ''xAxis'' r = Some ax \<and> (\<forall>k. jget k ax =
    (case oget ms k of
       Some v \<Rightarrow> Some v
     | None \<Rightarrow>
         if k = ''axisLabel'' then Some (JObj [(''color'', JStr (js_trim secondary))])
         else if k = ''axisLine'' \<or> k = ''splitLine''
         then Some (JObj [(''lineStyle'', JObj [(''color'', JStr (js_trim border))])])
         else None))"
proof -
  let ?ax = "axis_override (js_trim border) (js_trim secondary) (JObj ms)"
  have "jget ''xAxis'' r = Some ?ax"
    using override_members(5) [OF assms(1)] assms(2) by (simp add: truthy_opt_def)
  moreover have "jget k ?ax =
    (case oget ms k of
       Some v \<Rightarrow> Some v
     | None \<Rightarrow>
         if k = ''axisLabel'' then Some (JObj [(''color'', JStr (js_trim secondary))])
         else if k = ''axisLine'' \<or> k = ''splitLine''
         then Some (JObj [(''lineStyle'', JObj [(''color'', JStr (js_trim border))])])
         else None)" for k
    unfolding axis_override_def jget_JObj_spread [OF assms(3)]
    by (auto simp: colored_def line_override_def own_entries_def jopt_def split: option.split)
  ultimately show ?thesis by blast
qed

section \<open>Options on which the hypotheses hold\<close>

theorem palette_follows_theme_witness:
  "\<exists>r. theme_overrides ''#ccc'' ''#999''
      (JObj [(''color'', JArr [JObj [(''light'', JStr ''#fff''), (''dark'', JStr ''#000'')], JStr ''red''])]) ''dark'' = Some r \<and>
    jget ''color'' r = Some (JArr [JStr ''#000'', JStr ''red''])"
  using palette_follows_theme
    [of "JObj [(''color'', JArr [JObj [(''light'', JStr ''#fff''), (''dark'', JStr ''#000'')], JStr ''red''])]"
      "[Inl (''#fff'', ''#000''), Inr ''red'']" "''dark''" "''#ccc''" "''#999''"]
  by simp

theorem axis_defaults_only_when_absent_witness:
  "\<exists>ax. jget ''axisLabel'' ax = Some (JObj [(''rotate'', JNum 30)]) \<and>
    jget ''splitLine'' ax = Some (JObj [(''lineStyle'', JObj [(''color'', JStr ''#ccc'')])])"
proof -
  let ?ms = "[(''axisLabel'', JObj [(''rotate'', JNum 30)])]"
  obtain r where h: "theme_overrides '' #ccc'' ''#999'' (JObj [(''xAxis'', JObj ?ms)]) ''dark'' = Some r"
    by (simp add: theme_overrides_def)
  have i: "jget ''xAxis'' (JObj [(''xAxis'', JObj ?ms)]) = Some (JObj ?ms)" "wf_obj ?ms"
    by (simp_all add: wf_obj_def)
  obtain ax where ax: "\<forall>k. jget k ax =
    (case oget ?ms k of
       Some v \<Rightarrow> Some v
     | None \<Rightarrow>
         if k = ''axisLabel'' then Some (JObj [(''color'', JStr (js_trim ''#999''))])
         else if k = ''axisLine'' \<or> k = ''splitLine''
         then Some (JObj [(''lineStyle'', JObj [(''color'', JStr (js_trim '' #ccc''))])])
         else None)"
    using axis_defaults_only_when_absent [OF h i] by blast
  have "js_trim '' #ccc'' = ''#ccc''" by code_simp
  with spec [OF ax, of "''axisLabel''"] spec [OF ax, of "''splitLine''"]
  have "jget ''axisLabel'' ax = Some (JObj [(''rotate'', JNum 30)]) \<and>
    jget ''splitLine'' ax = Some (JObj [(''lineStyle'', JObj [(''color'', JStr ''#ccc'')])])" by simp
  then show ?thesis by blast
qed

end
