(* ===== verification/Theme.thy ===== *)
theory Theme
  imports Preferences Echarts
begin

text \<open>
  The color theme: \<open>nautobot/ui/src/js/theme.js\<close>. The user's choice (dark, light or
  system) lives in one cookie, the theme in effect in another; a choice from before the
  cookies is moved over from local storage. Setting the theme also marks the button of the
  choice, swaps the style sheet of the syntax highlighter and restyles the charts.
\<close>

section \<open>State\<close>

text \<open>
  The browser's part: the preferred color scheme (\<open>None\<close> without \<open>matchMedia\<close>), how it
  resolves a link, the two computed colors; the chart library's part: which elements hold
  a chart and the options it was given last; and whether the theme dialog is open.
\<close>

record theme_page = prefs_page +
  prefers_dark :: "bool option"
  abs_url :: "string \<Rightarrow> string"
  border_color :: string
  secondary_color :: string
  charts :: "uid list"
  chart_options :: "uid \<rightharpoonup> json"
  modal_open :: bool
  load_hooks :: "uid list"

definition theme_modal_id :: string where "theme_modal_id = ''theme_modal''"
definition theme_dark :: string where "theme_dark = ''dark''"
definition theme_light :: string where "theme_light = ''light''"
definition theme_system :: string where "theme_system = ''system''"
definition theme_choice_cookie :: string where "theme_choice_cookie = ''theme_choice''"
definition theme_determined_cookie :: string where "theme_determined_cookie = ''theme''"

section \<open>Choice and effective theme\<close>

definition is_valid_theme_choice :: "string option \<Rightarrow> bool" where
  "is_valid_theme_choice c \<longleftrightarrow>
     (case c of None \<Rightarrow> False | Some t \<Rightarrow> List.member [theme_dark, theme_light, theme_system] t)"

definition browser_preference :: "theme_page \<Rightarrow> string" where
  "browser_preference s =
     (case prefers_dark s of Some b \<Rightarrow> if b then theme_dark else theme_light | None \<Rightarrow> theme_light)"

definition determine_theme :: "theme_page \<Rightarrow> string" where
  "determine_theme s =
     (case get_cookie theme_choice_cookie (cookie_jar s) of
        Some c \<Rightarrow> if List.member [theme_dark, theme_light] c then c else browser_preference s
      | None \<Rightarrow> browser_preference s)"

definition persist_theme_choice :: "string \<Rightarrow> theme_page \<Rightarrow> theme_page" where
  "persist_theme_choice th s =
     (if is_valid_theme_choice (Some th)
      then s\<lparr>cookie_jar := set_cookie theme_choice_cookie th year_options (cookie_jar s)\<rparr> else s)"

section \<open>Style sheet and charts\<close>

fun replace_css :: "string \<Rightarrow> string \<Rightarrow> string" where
  "replace_css css [] = []"
| "replace_css css (c # r) =
     (if starts_with ''github-dark.min.css'' (c # r) then css @ drop 19 (c # r)
      else if starts_with ''github.min.css'' (c # r) then css @ drop 14 (c # r)
      else c # replace_css css r)"

definition highlighter_sel :: "elem \<Rightarrow> bool" where
  "highlighter_sel e \<longleftrightarrow> tag e = ''LINK'' \<and> get_attr ''rel'' e = Some ''stylesheet'' \<and>
     (case get_attr ''href'' e of None \<Rightarrow> False | Some h \<Rightarrow> includes_str ''github'' h)"

definition href_prop :: "theme_page \<Rightarrow> uid \<Rightarrow> string" where
  "href_prop s u = (case get_attr ''href'' (heap s u) of None \<Rightarrow> [] | Some h \<Rightarrow> abs_url s h)"

definition css_file :: "string \<Rightarrow> string" where
  "css_file th = (if th = theme_dark then ''github-dark.min.css'' else ''github.min.css'')"

definition highlighter_change :: "string \<Rightarrow> theme_page \<Rightarrow> theme_page" where
  "highlighter_change th s =
     (case doc_qsa s highlighter_sel of
        [l] \<Rightarrow> upd l (set_attr ''href'' (replace_css (css_file th) (href_prop s l))) s
      | _ \<Rightarrow> s)"

definition chart_sel :: "elem \<Rightarrow> bool" where
  "chart_sel e \<longleftrightarrow> tag e = ''DIV'' \<and> get_attr ''_echarts_instance_'' e \<noteq> None"

definition elem_id :: "elem \<Rightarrow> string" where
  "elem_id e = (case get_attr ''id'' e of None \<Rightarrow> [] | Some i \<Rightarrow> i)"

definition restyle_chart :: "string \<Rightarrow> uid \<Rightarrow> theme_page \<Rightarrow> theme_page outcome" where
  "restyle_chart th u s =
     (case by_id s (''echarts-config-'' @ elem_id (heap s u)) of
        None \<Rightarrow> Throw TypeError s
      | Some c \<Rightarrow>
          (case json_parse (inner (heap s c)) of
             None \<Rightarrow> Throw SyntaxError s
           | Some options \<Rightarrow>
               if List.member (charts s) u
               then (case theme_overrides (border_color s) (secondary_color s) options th of
                       None \<Rightarrow> Throw TypeError s
                     | Some o' \<Rightarrow> Done (s\<lparr>chart_options := (chart_options s)(u \<mapsto> o')\<rparr>))
               else Done s))"

definition echarts_change :: "string \<Rightarrow> theme_page \<Rightarrow> theme_page outcome" where
  "echarts_change th s = run_all (restyle_chart th) (doc_qsa s chart_sel) s"

section \<open>Setting the theme\<close>

definition theme_button_sel :: "elem \<Rightarrow> bool" where
  "theme_button_sel e \<longleftrightarrow> tag e = ''BUTTON'' \<and> get_attr ''data-nb-theme'' e \<noteq> None"

definition theme_buttons :: "theme_page \<Rightarrow> uid list" where
  "theme_buttons s = (case by_id s theme_modal_id of None \<Rightarrow> [] | Some m \<Rightarrow> qsa s m theme_button_sel)"

definition mark_button :: "string option \<Rightarrow> elem \<Rightarrow> elem" where
  "mark_button choice e =
     (let b = get_attr ''data-nb-theme'' e = choice
      in class_toggle ''border-primary'' (Some b) (class_toggle ''border'' (Some b) e))"

definition root_elem :: "'a page_scheme \<Rightarrow> uid" where
  "root_elem s = root_of (doc s)"

definition set_theme :: "string option \<Rightarrow> theme_page \<Rightarrow> theme_page outcome" where
  "set_theme theme s0 =
     (let s1 = (case theme of
                  Some th \<Rightarrow> if is_valid_theme_choice theme then persist_theme_choice th s0 else s0
                | None \<Rightarrow> s0);
          choice = get_cookie theme_choice_cookie (cookie_jar s1);
          det = determine_theme s1;
          s2 = s1\<lparr>cookie_jar := set_cookie theme_determined_cookie det year_options (cookie_jar s1)\<rparr>;
          s3 = upd_all (theme_buttons s2) (mark_button choice) s2;
          s4 = upd (root_elem s3) (set_attr ''data-theme'' det) s3;
          s5 = upd (root_elem s4) (set_attr ''data-bs-theme'' det) s4
      in and_then (echarts_change det (highlighter_change det s5))
           (\<lambda>s6. Done (if det = theme_dark
                       then s6\<lparr>load_hooks := load_hooks s6 @ doc_qsa s6 (\<lambda>e. tag e = ''OBJECT'')\<rparr>
                       else s6)))"

text \<open>The load listener of an embedded drawing: it inverts images and device names there.\<close>

definition inverted_sel :: "(elem \<Rightarrow> bool) list" where
  "inverted_sel = [\<lambda>e. tag e = ''image'', has_class ''rack-device-shortname'', has_class ''rack-device-fullname'']"

definition on_object_load :: "'a page_scheme option \<Rightarrow> 'a page_scheme option" where
  "on_object_load content =
     map_option (\<lambda>d. upd_all (concat (map (doc_qsa d) inverted_sel)) (set_attr ''filter'' ''url(#darkmodeinvert)'') d) content"

definition upgrade_theme_choice :: "theme_page \<Rightarrow> theme_page" where
  "upgrade_theme_choice s =
     (let s1 = (if is_valid_theme_choice (get_cookie theme_choice_cookie (cookie_jar s)) then s
                else (let stored = get_item ''theme'' (local_store s);
                          c = (if is_valid_theme_choice stored then the stored else theme_system)
                      in s\<lparr>cookie_jar := set_cookie theme_choice_cookie c year_options (cookie_jar s)\<rparr>))
      in s1\<lparr>local_store := remove_item ''theme'' (local_store s1)\<rparr>)"

text \<open>Initialization, the click listener of the buttons, and the listener of the color scheme.\<close>

definition init_theme :: "theme_page \<Rightarrow> theme_page outcome" where
  "init_theme s =
     and_then (set_theme None (upgrade_theme_choice s))
       (\<lambda>s1. if prefers_dark s1 = None then Throw TypeError s1 else Done s1)"

definition on_click_theme :: "uid \<Rightarrow> theme_page \<Rightarrow> theme_page outcome" where
  "on_click_theme b s =
     and_then (set_theme (get_attr ''data-nb-theme'' (heap s b)) s) (\<lambda>s1. Done (s1\<lparr>modal_open := False\<rparr>))"

definition on_scheme_change :: "bool \<Rightarrow> theme_page \<Rightarrow> theme_page outcome" where
  "on_scheme_change dark s = set_theme None (s\<lparr>prefers_dark := Some dark\<rparr>)"

section \<open>Cookies of the theme\<close>

lemma theme_names [simp]:
  "good_name theme_choice_cookie" "good_name theme_determined_cookie" "theme_choice_cookie \<noteq> theme_determined_cookie"
  "good_value theme_dark" "good_value theme_light" "good_value theme_system"
  by code_simp+

lemma theme_values_distinct [simp]:
  "theme_dark \<noteq> theme_light" "theme_light \<noteq> theme_dark" "theme_system \<noteq> theme_dark" "theme_system \<noteq> theme_light"
  by code_simp+

lemma valid_theme_choice_iff:
  "is_valid_theme_choice c \<longleftrightarrow> c \<in> {Some theme_dark, Some theme_light, Some theme_system}"
  by (auto simp: is_valid_theme_choice_def split: option.split)

lemma valid_theme_value: "is_valid_theme_choice (Some t) \<Longrightarrow> good_value t"
  by (auto simp: valid_theme_choice_iff)

lemma browser_preference_range: "browser_preference s \<in> {theme_dark, theme_light}"
  by (simp add: browser_preference_def split: option.split)

lemma determine_theme_range: "determine_theme s \<in> {theme_dark, theme_light}"
  using browser_preference_range [of s] by (auto simp: determine_theme_def split: option.split)

lemma theme_value_good: "good_value (determine_theme s)"
  using determine_theme_range [of s] by auto

lemma determine_theme_cong:
  "get_cookie theme_choice_cookie (cookie_jar s') = get_cookie theme_choice_cookie (cookie_jar s) \<Longrightarrow>
   prefers_dark s' = prefers_dark s \<Longrightarrow> determine_theme s' = determine_theme s"
  by (simp add: determine_theme_def browser_preference_def split: option.split)

section \<open>What restyling leaves alone\<close>

lemma restyle_chart_keeps:
  "doc (final_state (restyle_chart th u s)) = doc s" "heap (final_state (restyle_chart th u s)) = heap s"
  "cookie_jar (final_state (restyle_chart th u s)) = cookie_jar s"
  "local_store (final_state (restyle_chart th u s)) = local_store s"
  "prefers_dark (final_state (restyle_chart th u s)) = prefers_dark s"
  "charts (final_state (restyle_chart th u s)) = charts s"
  "border_color (final_state (restyle_chart th u s)) = border_color s"
  "secondary_color (final_state (restyle_chart th u s)) = secondary_color s"
  by (simp_all add: restyle_chart_def split: option.split)

lemma echarts_change_keeps [simp]:
  "doc (final_state (echarts_change th s)) = doc s" "heap (final_state (echarts_change th s)) = heap s"
  "cookie_jar (final_state (echarts_change th s)) = cookie_jar s"
  "local_store (final_state (echarts_change th s)) = local_store s"
  "prefers_dark (final_state (echarts_change th s)) = prefers_dark s"
  unfolding echarts_change_def by (rule run_all_keeps, rule restyle_chart_keeps)+

lemma highlighter_change_keeps [simp]:
  "doc (highlighter_change th s) = doc s" "cookie_jar (highlighter_change th s) = cookie_jar s"
  "local_store (highlighter_change th s) = local_store s" "prefers_dark (highlighter_change th s) = prefers_dark s"
  "charts (highlighter_change th s) = charts s" "border_color (highlighter_change th s) = border_color s"
  "secondary_color (highlighter_change th s) = secondary_color s"
  "a \<noteq> ''href'' \<Longrightarrow> get_attr a (heap (highlighter_change th s) u) = get_attr a (heap s u)"
  "has_class c (heap (highlighter_change th s) u) = has_class c (heap s u)"
  "inner (heap (highlighter_change th s) u) = inner (heap s u)"
  "tag (heap (highlighter_change th s) u) = tag (heap s u)"
  by (auto simp: highlighter_change_def upd_def split: list.split)

lemma mark_button_simps [simp]:
  "get_attr a (mark_button c e) = get_attr a e" "inner (mark_button c e) = inner e" "tag (mark_button c e) = tag e"
  "has_class d (mark_button c e) =
     (if d = ''border'' \<or> d = ''border-primary'' then get_attr ''data-nb-theme'' e = c else has_class d e)"
  by (auto simp: mark_button_def Let_def)

text \<open>The state after the cookies and the page are written, before charts are restyled.\<close>

definition chosen :: "string option \<Rightarrow> theme_page \<Rightarrow> theme_page" where
  "chosen theme s = (case theme of
     Some th \<Rightarrow> if is_valid_theme_choice theme then persist_theme_choice th s else s | None \<Rightarrow> s)"

definition painted :: "string option \<Rightarrow> theme_page \<Rightarrow> theme_page" where
  "painted theme s0 =
     (let s1 = chosen theme s0; det = determine_theme s1;
          s2 = s1\<lparr>cookie_jar := set_cookie theme_determined_cookie det year_options (cookie_jar s1)\<rparr>;
          s3 = upd_all (theme_buttons s2) (mark_button (get_cookie theme_choice_cookie (cookie_jar s1))) s2
      in upd (root_elem s3) (set_attr ''data-bs-theme'' det) (upd (root_elem s3) (set_attr ''data-theme'' det) s3))"

lemma set_theme_painted:
  "set_theme theme s =
     (let det = determine_theme (chosen theme s)
      in and_then (echarts_change det (highlighter_change det (painted theme s)))
        (\<lambda>s6. Done (if det = theme_dark
                    then s6\<lparr>load_hooks := load_hooks s6 @ doc_qsa s6 (\<lambda>e. tag e = ''OBJECT'')\<rparr> else s6)))"
  by (simp add: set_theme_def painted_def chosen_def Let_def root_elem_def)

lemma chosen_keeps [simp]:
  "doc (chosen theme s) = doc s" "heap (chosen theme s) = heap s" "prefers_dark (chosen theme s) = prefers_dark s"
  "local_store (chosen theme s) = local_store s" "charts (chosen theme s) = charts s"
  "border_color (chosen theme s) = border_color s" "secondary_color (chosen theme s) = secondary_color s"
  by (simp_all add: chosen_def persist_theme_choice_def split: option.split)

lemma cookie_chosen:
  assumes "wf_jar (cookie_jar s)"
  shows "get_cookie theme_choice_cookie (cookie_jar (chosen theme s)) =
      (if is_valid_theme_choice theme then theme else get_cookie theme_choice_cookie (cookie_jar s))"
    and "wf_jar (cookie_jar (chosen theme s))"
  using assms valid_theme_value
  by (auto simp: chosen_def persist_theme_choice_def cky.lookup_put cky.wf_put is_valid_theme_choice_def split: option.splits)

lemma upd_all_theme_fields [simp]:
  "prefers_dark (upd_all us f s) = prefers_dark s" "cookie_jar (upd_all us f s) = cookie_jar s"
  "local_store (upd_all us f s) = local_store s"
  "charts (upd_all us f s) = charts s" "border_color (upd_all us f s) = border_color s"
  "secondary_color (upd_all us f s) = secondary_color s"
  by (induction us arbitrary: s) (simp_all add: upd_def)

lemma upd_theme_fields [simp]:
  "prefers_dark (upd u f s) = prefers_dark s" "charts (upd u f s) = charts s"
  "border_color (upd u f s) = border_color s" "secondary_color (upd u f s) = secondary_color s"
  by (simp_all add: upd_def)

lemma mark_all_keeps:
  "get_attr a (heap (upd_all us (mark_button c) p) u) = get_attr a (heap p u)"
  "inner (heap (upd_all us (mark_button c) p) u) = inner (heap p u)"
  "tag (heap (upd_all us (mark_button c) p) u) = tag (heap p u)"
  by (rule heap_upd_all_pres, simp)+

lemma painted_keeps [simp]:
  "doc (painted theme s) = doc s" "prefers_dark (painted theme s) = prefers_dark s"
  "local_store (painted theme s) = local_store s"
  "charts (painted theme s) = charts s" "border_color (painted theme s) = border_color s"
  "secondary_color (painted theme s) = secondary_color s"
  "a \<notin> {''data-theme'', ''data-bs-theme''} \<Longrightarrow> get_attr a (heap (painted theme s) u) = get_attr a (heap s u)"
  "inner (heap (painted theme s) u) = inner (heap s u)" "tag (heap (painted theme s) u) = tag (heap s u)"
  by (simp_all add: painted_def Let_def) (auto simp: heap_upd mark_all_keeps)

lemma painted_root:
  "get_attr ''data-theme'' (heap (painted theme s) (root_elem s)) = Some (determine_theme (chosen theme s))"
  "get_attr ''data-bs-theme'' (heap (painted theme s) (root_elem s)) = Some (determine_theme (chosen theme s))"
  by (simp_all add: painted_def Let_def root_elem_def)

lemma cookie_painted:
  assumes "wf_jar (cookie_jar s)"
  shows "get_cookie theme_choice_cookie (cookie_jar (painted theme s)) =
      (if is_valid_theme_choice theme then theme else get_cookie theme_choice_cookie (cookie_jar s))"
    and "get_cookie theme_determined_cookie (cookie_jar (painted theme s)) = Some (determine_theme (chosen theme s))"
    and "wf_jar (cookie_jar (painted theme s))"
  using cookie_chosen [OF assms, of theme] theme_value_good
  by (simp_all add: painted_def Let_def cky.lookup_put cky.wf_put)

lemma set_theme_final:
  fixes theme s
  defines "s' \<equiv> final_state (set_theme theme s)"
  shows "doc s' = doc s" and "cookie_jar s' = cookie_jar (painted theme s)" and "prefers_dark s' = prefers_dark s"
    and "local_store s' = local_store s"
    and "a \<noteq> ''href'' \<Longrightarrow> get_attr a (heap s' u) = get_attr a (heap (painted theme s) u)"
    and "has_class c (heap s' u) = has_class c (heap (painted theme s) u)"
proof -
  let ?det = "determine_theme (chosen theme s)"
  let ?p = "highlighter_change ?det (painted theme s)"
  have f: "f s' = f (final_state (echarts_change ?det ?p))"
    if "\<And>t h. f (t\<lparr>load_hooks := h\<rparr>) = f t" for f :: "theme_page \<Rightarrow> 'x"
    unfolding s'_def set_theme_painted Let_def using that
    by (cases "echarts_change ?det ?p") simp_all
  show "doc s' = doc s" "cookie_jar s' = cookie_jar (painted theme s)" "prefers_dark s' = prefers_dark s"
    "local_store s' = local_store s"
    by (simp_all add: f [of doc] f [of cookie_jar] f [of prefers_dark] f [of local_store])
  show "a \<noteq> ''href'' \<Longrightarrow> get_attr a (heap s' u) = get_attr a (heap (painted theme s) u)"
    "has_class c (heap s' u) = has_class c (heap (painted theme s) u)"
    by (simp_all add: f [of heap])
qed

lemma theme_in_effect:
  assumes "wf_jar (cookie_jar s)"
  shows "determine_theme (final_state (set_theme theme s)) = determine_theme (chosen theme s)"
    and "get_attr ''data-theme'' (heap (final_state (set_theme theme s)) (root_elem s)) =
      Some (determine_theme (final_state (set_theme theme s)))"
    and "get_cookie theme_determined_cookie (cookie_jar (final_state (set_theme theme s))) =
      Some (determine_theme (final_state (set_theme theme s)))"
proof -
  show "determine_theme (final_state (set_theme theme s)) = determine_theme (chosen theme s)"
    using cookie_painted [OF assms] cookie_chosen [OF assms]
    by (intro determine_theme_cong) (simp_all add: set_theme_final)
  then show "get_attr ''data-theme'' (heap (final_state (set_theme theme s)) (root_elem s)) =
      Some (determine_theme (final_state (set_theme theme s)))"
    and "get_cookie theme_determined_cookie (cookie_jar (final_state (set_theme theme s))) =
      Some (determine_theme (final_state (set_theme theme s)))"
    using painted_root cookie_painted [OF assms] by (simp_all add: set_theme_final)
qed

text \<open>
  However setting the theme ends (a broken chart may stop it), the page shows the
  effective theme, the cookie for the server names the same theme, and that theme is dark
  or light and agrees with the remembered choice and the preference of the system.
\<close>

theorem effective_theme_applied:
  assumes "wf_jar (cookie_jar s)"
  shows "let s' = final_state (set_theme theme s) in
    get_attr ''data-theme'' (heap s' (root_elem s)) = Some (determine_theme s') \<and>
    get_attr ''data-bs-theme'' (heap s' (root_elem s)) = Some (determine_theme s') \<and>
    get_cookie theme_determined_cookie (cookie_jar s') = Some (determine_theme s') \<and>
    determine_theme s' \<in> {theme_dark, theme_light} \<and> wf_jar (cookie_jar s')"
  using theme_in_effect [OF assms] painted_root cookie_painted [OF assms] determine_theme_range
  by (simp add: Let_def set_theme_final)

lemma choice_after_set_theme:
  assumes "wf_jar (cookie_jar s)"
  shows "get_cookie theme_choice_cookie (cookie_jar (final_state (set_theme theme s))) =
      (if is_valid_theme_choice theme then theme else get_cookie theme_choice_cookie (cookie_jar s))"
    and "wf_jar (cookie_jar (final_state (set_theme theme s)))"
  using cookie_painted [OF assms] by (simp_all add: set_theme_final)


text \<open>
  After setting the theme exactly the button of the remembered choice is marked.
\<close>

theorem chosen_button_marked:
  assumes "wf_jar (cookie_jar s)" and "wf_page s" and "u \<in> set (theme_buttons s)"
  shows "let s' = final_state (set_theme theme s) in
    has_class ''border-primary'' (heap s' u) \<longleftrightarrow>
      get_attr ''data-nb-theme'' (heap s u) = get_cookie theme_choice_cookie (cookie_jar s')"
proof -
  have q: "by_id s1 i = by_id s i" "qsa s1 m sel = qsa s m sel" if "doc s1 = doc s" "heap s1 = heap s"
    for s1 :: theme_page and i m sel
    using that by (simp_all add: by_id_def doc_qs_def doc_qsa_def qsa_def split: option.split)
  have b: "theme_buttons ((chosen theme s)\<lparr>cookie_jar := j\<rparr>) = theme_buttons s" for j
    using q(1) [of "(chosen theme s)\<lparr>cookie_jar := j\<rparr>"] q(2) [of "(chosen theme s)\<lparr>cookie_jar := j\<rparr>"]
    unfolding theme_buttons_def by (simp del: prefs_queries split: option.split)
  have idem: "mark_button c (mark_button c e) = mark_button c e" for c e
    by (simp add: mark_button_def Let_def class_toggle_def class_add_def class_remove_def has_class_def get_attr_def)
  have "has_class ''border-primary'' (heap (painted theme s) u) \<longleftrightarrow>
      get_attr ''data-nb-theme'' (heap s u) = get_cookie theme_choice_cookie (cookie_jar (chosen theme s))"
    using assms(3) by (auto simp: painted_def Let_def b heap_upd heap_upd_all [OF idem])
  moreover have "get_cookie theme_choice_cookie (cookie_jar (chosen theme s)) =
      get_cookie theme_choice_cookie (cookie_jar (final_state (set_theme theme s)))"
    using cookie_chosen(1) [OF assms(1)] choice_after_set_theme(1) [OF assms(1)] by simp
  ultimately show ?thesis by (simp add: Let_def set_theme_final)
qed

section \<open>Moving an old choice into the cookie\<close>

text \<open>
  The upgrade leaves a valid choice in the cookie: the cookie's own if it was valid,
  else the one in local storage if that is valid, else "system"; local storage no longer
  holds a theme, and upgrading again changes nothing.
\<close>

theorem upgrade_migrates_choice:
  assumes "wf_jar (cookie_jar s)"
  shows "let s' = upgrade_theme_choice s; old = get_cookie theme_choice_cookie (cookie_jar s);
      stored = get_item ''theme'' (local_store s) in
    get_cookie theme_choice_cookie (cookie_jar s') =
      (if is_valid_theme_choice old then old
       else if is_valid_theme_choice stored then stored else Some theme_system) \<and>
    get_item ''theme'' (local_store s') = None \<and>
    upgrade_theme_choice s' = s'"
proof -
  define c where "c = (if is_valid_theme_choice (get_item ''theme'' (local_store s))
    then the (get_item ''theme'' (local_store s)) else theme_system)"
  have valid: "is_valid_theme_choice (Some c)" by (auto simp: c_def valid_theme_choice_iff)
  let ?old = "get_cookie theme_choice_cookie (cookie_jar s)"
  let ?j = "if is_valid_theme_choice ?old then cookie_jar s else set_cookie theme_choice_cookie c year_options (cookie_jar s)"
  have s': "upgrade_theme_choice s = s\<lparr>cookie_jar := ?j, local_store := remove_item ''theme'' (local_store s)\<rparr>"
    by (simp add: upgrade_theme_choice_def c_def Let_def)
  have ck: "get_cookie theme_choice_cookie ?j = (if is_valid_theme_choice ?old then ?old else Some c)"
    using assms valid_theme_value [OF valid] by (simp add: cky.lookup_put)
  have twice: "remove_item ''theme'' (remove_item ''theme'' (local_store s)) = remove_item ''theme'' (local_store s)"
    by (cases "local_store s") (simp_all add: remove_item_def)
  have "is_valid_theme_choice (get_cookie theme_choice_cookie ?j)" using ck valid by simp
  then have "upgrade_theme_choice (upgrade_theme_choice s) = upgrade_theme_choice s"
    unfolding s' by (simp add: upgrade_theme_choice_def twice)
  with s' ck show ?thesis by (auto simp: Let_def c_def is_valid_theme_choice_def split: option.splits)
qed

section \<open>Swapping the style sheet\<close>

lemma starts_with_replace_css:
  "CHR ''g'' \<notin> set pat \<Longrightarrow> starts_with pat (replace_css (CHR ''g'' # css) r) \<Longrightarrow> starts_with pat r"
proof (induction r arbitrary: pat)
  case (Cons c r)
  show ?case
  proof (cases pat)
    case (Cons p ps)
    with Cons.prems show ?thesis
      by (auto split: if_splits intro: Cons.IH [of ps])
  qed simp
qed simp

lemma replace_css_twice:
  assumes "css \<in> {''github-dark.min.css'', ''github.min.css''}"
  shows "replace_css css' (replace_css css s) = replace_css css' s"
proof (induction s)
  case (Cons c r)
  obtain t where css: "css = CHR ''g'' # t" using assms by auto
  show ?case
  proof (cases "starts_with ''github-dark.min.css'' (c # r) \<or> starts_with ''github.min.css'' (c # r)")
    case True
    have m: "replace_css css' (css @ x) = css' @ x" for x using assms by (elim insertE) simp_all
    from True m show ?thesis by auto
  next
    case False
    have n: "starts_with (CHR ''g'' # pat) (c # replace_css css r) \<Longrightarrow> starts_with (CHR ''g'' # pat) (c # r)"
      if "CHR ''g'' \<notin> set pat" for pat
      using that starts_with_replace_css unfolding css by auto
    have "\<not> starts_with ''github-dark.min.css'' (c # replace_css css r)"
      and "\<not> starts_with ''github.min.css'' (c # replace_css css r)"
      using False n [of "''ithub-dark.min.css''"] n [of "''ithub.min.css''"] by auto
    with False Cons show ?thesis by (simp del: starts_with.simps)
  qed
qed simp

text \<open>
  Only the last switch of the highlighter's style sheet counts: switching an address
  to one theme and then to another gives the address switched to the other directly.
\<close>

theorem stylesheet_swap_last_wins:
  "replace_css (css_file a) (replace_css (css_file b) href) = replace_css (css_file a) href"
  by (rule replace_css_twice) (simp add: css_file_def)

section \<open>Charts\<close>

definition chart_config :: "theme_page \<Rightarrow> uid \<Rightarrow> json option" where
  "chart_config s u =
     (case by_id s (''echarts-config-'' @ elem_id (heap s u)) of
        None \<Rightarrow> None | Some c \<Rightarrow> json_parse (inner (heap s c)))"

definition charts_ok :: "theme_page \<Rightarrow> bool" where
  "charts_ok s \<longleftrightarrow> list_all (\<lambda>u. chart_config s u \<notin> {None, Some JNull}) (doc_qsa s chart_sel)"

lemma restyle_one:
  assumes "chart_config s u \<notin> {None, Some JNull}"
  shows "restyle_chart th u (s\<lparr>chart_options := co\<rparr>) = Done (s\<lparr>chart_options :=
    (if u \<in> set (charts s)
     then co(u := theme_overrides (border_color s) (secondary_color s) (the (chart_config s u)) th) else co)\<rparr>)"
proof -
  obtain options where o: "chart_config s u = Some options" "options \<noteq> JNull" using assms by auto
  then obtain c where c: "by_id s (''echarts-config-'' @ elem_id (heap s u)) = Some c"
    and p: "json_parse (inner (heap s c)) = Some options"
    by (auto simp: chart_config_def split: option.splits)
  have q: "by_id (s\<lparr>chart_options := co\<rparr>) i = by_id s i" for i by (simp add: by_id_def doc_qs_def doc_qsa_def)
  obtain o' where o': "theme_overrides (border_color s) (secondary_color s) options th = Some o'"
    using o(2) by (simp add: theme_overrides_def)
  show ?thesis
    unfolding restyle_chart_def q
    using c p o(1) o' by simp
qed

lemma restyle_all:
  assumes "\<forall>u \<in> set us. chart_config s u \<notin> {None, Some JNull}"
  shows "\<exists>co. run_all (restyle_chart th) us s = Done (s\<lparr>chart_options := co\<rparr>) \<and>
    (\<forall>u \<in> set us. u \<in> set (charts s) \<longrightarrow>
       co u = theme_overrides (border_color s) (secondary_color s) (the (chart_config s u)) th)"
  using assms
proof (induction us rule: rev_induct)
  case Nil
  show ?case by (rule exI [of _ "chart_options s"]) simp
next
  case (snoc u us)
  then obtain co where r: "run_all (restyle_chart th) us s = Done (s\<lparr>chart_options := co\<rparr>)"
    and co: "\<forall>u \<in> set us. u \<in> set (charts s) \<longrightarrow>
       co u = theme_overrides (border_color s) (secondary_color s) (the (chart_config s u)) th" by auto
  have "chart_config s u \<notin> {None, Some JNull}" using snoc.prems by simp
  from restyle_one [OF this, of th co] r
  have "run_all (restyle_chart th) (us @ [u]) s = Done (s\<lparr>chart_options :=
    (if u \<in> set (charts s)
     then co(u := theme_overrides (border_color s) (secondary_color s) (the (chart_config s u)) th) else co)\<rparr>)"
    unfolding run_all_append r by simp
  then show ?case using co by (intro exI conjI) (assumption, auto)
qed

lemma painted_chart_config:
  "chart_config (highlighter_change th (painted theme s)) u = chart_config s u"
  "doc_qsa (highlighter_change th (painted theme s)) chart_sel = doc_qsa s chart_sel"
proof -
  let ?p = "highlighter_change th (painted theme s)"
  have "by_id ?p i = by_id s i" for i
    by (auto simp: by_id_def has_id_def intro!: doc_qs_cong)
  then show "chart_config ?p u = chart_config s u"
    by (simp add: chart_config_def elem_id_def split: option.split)
  show "doc_qsa ?p chart_sel = doc_qsa s chart_sel"
    by (intro doc_qsa_cong) (simp_all add: chart_sel_def)
qed


section \<open>A page on which the hypotheses hold\<close>

definition demo_theme :: "jar \<Rightarrow> theme_page" where
  "demo_theme j =
     \<lparr>doc = Node 0 [Node 2 [Node 3 [], Node 4 []], Node 5 [], Node 6 []],
      heap = (\<lambda>u. if u = 2 then (new_elem ''DIV'')\<lparr>attrs := [(''id'', ''theme_modal'')]\<rparr>
        else if u = 3 then (new_elem ''BUTTON'')\<lparr>attrs := [(''data-nb-theme'', ''dark'')]\<rparr>
        else if u = 4 then (new_elem ''BUTTON'')\<lparr>attrs := [(''data-nb-theme'', ''system'')]\<rparr>
        else if u = 5 then (new_elem ''DIV'')\<lparr>attrs := [(''id'', ''c''), (''_echarts_instance_'', ''x'')]\<rparr>
        else if u = 6 then (new_elem ''SCRIPT'')\<lparr>attrs := [(''id'', ''echarts-config-c'')], inner := ''{}''\<rparr>
        else new_elem ''HTML''),
      focus = None, cookie_jar = j, local_store = Some (\<lambda>k. if k = ''theme'' then Some ''dark'' else None),
      prefers_dark = Some False, abs_url = (\<lambda>h. h), border_color = ''#ccc'', secondary_color = ''#999'',
      charts = [5], chart_options = (\<lambda>u. None), modal_open = True, load_hooks = []\<rparr>"

theorem effective_theme_applied_witness:
  "get_attr ''data-theme'' (heap (final_state (set_theme (Some ''dark'') (demo_theme []))) 0) =
     Some (determine_theme (final_state (set_theme (Some ''dark'') (demo_theme []))))"
proof -
  have h: "wf_jar (cookie_jar (demo_theme []))" and r: "root_elem (demo_theme []) = 0" by code_simp+
  show ?thesis using effective_theme_applied [OF h, of "Some ''dark''"] r by (simp add: Let_def)
qed


theorem chosen_button_marked_witness:
  "has_class ''border-primary'' (heap (final_state (set_theme (Some ''dark'') (demo_theme []))) 3)"
proof -
  let ?s = "demo_theme []"
  have h: "wf_jar (cookie_jar ?s)" "wf_page ?s" "3 \<in> set (theme_buttons ?s)"
    and a: "get_attr ''data-nb-theme'' (heap ?s 3) = Some ''dark''" and v: "is_valid_theme_choice (Some ''dark'')"
    by code_simp+
  show ?thesis
    using chosen_button_marked [OF h, of "Some ''dark''"] a v choice_after_set_theme(1) [OF h(1), of "Some ''dark''"]
    by (simp add: Let_def)
qed

theorem upgrade_migrates_choice_witness:
  "get_cookie theme_choice_cookie (cookie_jar (upgrade_theme_choice (demo_theme []))) = Some ''dark''"
proof -
  let ?s = "demo_theme []"
  have h: "wf_jar (cookie_jar ?s)" and "\<not> is_valid_theme_choice (get_cookie theme_choice_cookie (cookie_jar ?s))"
    and "get_item ''theme'' (local_store ?s) = Some ''dark''" and "is_valid_theme_choice (Some ''dark'')"
    by code_simp+
  with upgrade_migrates_choice [OF h] show ?thesis by (simp add: Let_def)
qed


end
