(* ===== verification/History_State.thy ===== *)
theory History_State
  imports Dom Json Web_Storage
begin

text \<open>
  The state of the history entry and how it survives a full reload:
  \<open>nautobot/ui/src/js/history.js\<close>. \<open>history_state\<close> is \<open>None\<close> in a browser without the
  History API; a reload keeps the session storage and starts with an empty state.
\<close>

record nav_page = page +
  history_state :: "json option"
  entry_url :: string
  loc_path :: string
  loc_search :: string
  loc_hash :: string
  session_store :: storage

definition session_storage_key :: string where
  "session_storage_key = ''historyState''"

definition current_url :: "'a nav_page_scheme \<Rightarrow> string" where
  "current_url s = loc_path s @ loc_search s @ loc_hash s"

definition replace_state :: "json \<Rightarrow> string \<Rightarrow> 'a nav_page_scheme \<Rightarrow> 'a nav_page_scheme" where
  "replace_state v url s =
     (case history_state s of None \<Rightarrow> s | Some w \<Rightarrow> s\<lparr>history_state := Some v, entry_url := url\<rparr>)"

definition stored_state :: "'a nav_page_scheme \<Rightarrow> json option" where
  "stored_state s =
     (case get_item session_storage_key (session_store s) of
        None \<Rightarrow> None
      | Some i \<Rightarrow> if i = [] then None else json_parse i)"

definition load_state :: "'a nav_page_scheme \<Rightarrow> 'a nav_page_scheme" where
  "load_state s =
     (case stored_state s of
        None \<Rightarrow> s
      | Some v \<Rightarrow>
          (let s1 = replace_state v (current_url s) s
           in s1\<lparr>session_store := remove_item session_storage_key (session_store s1)\<rparr>))"

text \<open>The argument may be \<open>undefined\<close> (\<open>None\<close>) and may be \<open>null\<close> (\<open>Some JNull\<close>).\<close>

definition save_state :: "json option \<Rightarrow> 'a nav_page_scheme \<Rightarrow> 'a nav_page_scheme" where
  "save_state state s =
     (case (case state of None \<Rightarrow> history_state s | Some v \<Rightarrow> Some v) of
        None \<Rightarrow> s
      | Some v \<Rightarrow> s\<lparr>session_store := set_item session_storage_key (stringify v) (session_store s)\<rparr>)"

text \<open>A full reload: another document, another address, the session storage as it was.\<close>

definition reloaded :: "'a nav_page_scheme \<Rightarrow> 'b nav_page_scheme \<Rightarrow> bool" where
  "reloaded s s' \<longleftrightarrow> session_store s' = session_store s \<and> history_state s' \<noteq> None"

lemma replace_state_simps [simp]:
  "session_store (replace_state v u s) = session_store s"
  "history_state (replace_state v u s) = (if history_state s = None then None else Some v)"
  "doc (replace_state v u s) = doc s" "heap (replace_state v u s) = heap s" "focus (replace_state v u s) = focus s"
  by (auto simp: replace_state_def split: option.split)

lemma stringify_nonempty [simp]: "stringify v \<noteq> []"
  using stringify_head [of v] by auto

lemma stored_after_save:
  assumes "wf_json v" and "session_store s \<noteq> None"
  shows "stored_state (save_state (Some v) s) = Some v"
  using assms json_round_trip [OF assms(1)] by (simp add: stored_state_def save_state_def get_set_item)

lemma load_after_reload:
  assumes "stored_state s = Some v" and "reloaded s s'"
  shows "history_state (load_state s') = Some v" and "stored_state (load_state s') = None"
    and "load_state (load_state s') = load_state s'"
proof -
  have st: "stored_state s' = Some v" using assms by (simp add: stored_state_def reloaded_def)
  with assms(2) show "history_state (load_state s') = Some v"
    by (simp add: load_state_def Let_def reloaded_def)
  show n: "stored_state (load_state s') = None"
    unfolding load_state_def st by (simp add: Let_def stored_state_def)
  then show "load_state (load_state s') = load_state s'" by (simp add: load_state_def [of "load_state s'"])
qed


text \<open>
  Saving \<open>null\<close> does not remove the saved state: it stores the text "null", and the
  next load replaces the state of the history entry by \<open>null\<close>.
\<close>

theorem saving_null_is_not_removal:
  assumes "session_store s \<noteq> None" and "reloaded (save_state (Some JNull) s) s'"
  shows "get_item session_storage_key (session_store (save_state (Some JNull) s)) = Some ''null'' \<and>
    history_state (load_state s') = Some JNull"
  using load_after_reload [OF stored_after_save [of JNull s] assms(2)] assms(1)
  by (auto simp: save_state_def get_set_item)

text \<open>A damaged entry is ignored and stays where it is.\<close>

lemma damaged_state_ignored:
  "get_item session_storage_key (session_store s) = Some i \<Longrightarrow> json_parse i = None \<Longrightarrow> load_state s = s"
  by (simp add: load_state_def stored_state_def)

definition demo_nav :: "json \<Rightarrow> (string \<rightharpoonup> string) \<Rightarrow> nav_page" where
  "demo_nav h m = \<lparr>doc = Node 0 [], heap = (\<lambda>u. new_elem ''BODY''), focus = None, history_state = Some h,
     entry_url = ''/'', loc_path = ''/dcim/'', loc_search = ''?q=a'', loc_hash = [], session_store = Some m\<rparr>"


theorem saving_null_is_not_removal_witness:
  "history_state (load_state (demo_nav (JBool True) [session_storage_key \<mapsto> ''null''])) = Some JNull"
proof -
  have h: "session_store (demo_nav JNull Map.empty) \<noteq> None"
    "reloaded (save_state (Some JNull) (demo_nav JNull Map.empty)) (demo_nav (JBool True) [session_storage_key \<mapsto> ''null''])"
    by (simp_all add: demo_nav_def reloaded_def save_state_def set_item_def)
  show ?thesis using saving_null_is_not_removal [OF h] by blast
qed

end
