(* ===== verification/Drawer.thy ===== *)
theory Drawer
  imports History_State Event_Loop
begin

text \<open>
  Drawers: \<open>nautobot/ui/src/js/drawer.js\<close>. Opening a drawer closes the others, focuses it
  once it is visible (polling with animation frames, at most 100 retries) and writes its id
  into the history state; closing gives the focus back and removes the id.
\<close>

section \<open>State\<close>

text \<open>
  The browser's part: the pending animation frames (a drawer and its remaining retries),
  which elements are visible and which can take the focus, and the query
  \<open>querySelector\<close> makes for a selector given as text.
\<close>

record drawer_page = nav_page +
  frames :: "(uid \<times> nat) list"
  visible :: "uid list"
  focusable :: "uid list"
  select_one :: "string \<Rightarrow> dtree \<Rightarrow> (uid \<Rightarrow> elem) \<Rightarrow> uid option"

definition drawer_class :: string where "drawer_class = ''nb-drawer''"
definition drawer_open_class :: string where "drawer_open_class = ''nb-drawer-open''"

definition open_sel :: "elem \<Rightarrow> bool" where
  "open_sel e \<longleftrightarrow> has_class drawer_open_class e"

definition id_prop :: "elem \<Rightarrow> string" where
  "id_prop e = (case get_attr ''id'' e of None \<Rightarrow> [] | Some i \<Rightarrow> i)"

definition drawer_toggle_sel :: "string \<Rightarrow> elem \<Rightarrow> bool" where
  "drawer_toggle_sel i e \<longleftrightarrow> get_attr ''data-nb-toggle'' e = Some ''drawer'' \<and>
     get_attr ''data-nb-target'' e = Some (CHR ''#'' # i)"

section \<open>Opening and closing\<close>

definition focus_on :: "uid \<Rightarrow> drawer_page \<Rightarrow> drawer_page" where
  "focus_on u s = (if List.member (focusable s) u then s\<lparr>focus := Some u\<rparr> else s)"

definition on_opened :: "uid \<Rightarrow> drawer_page \<Rightarrow> drawer_page" where
  "on_opened d s =
     (let i = id_prop (heap s d) in
      if i = [] then s
      else replace_state (JObj (oset ''drawer'' (JStr i) (ospread [] (own_entries (history_state s))))) (current_url s) s)"

definition on_closed :: "drawer_page \<Rightarrow> drawer_page" where
  "on_closed s =
     (let rest = (case history_state s of
                    Some (JObj ms) \<Rightarrow> odel ''drawer'' ms
                  | Some (JArr vs) \<Rightarrow> own_entries (Some (JArr vs))
                  | _ \<Rightarrow> [])
      in replace_state (if rest \<noteq> [] then JObj rest else JNull) (current_url s) s)"

definition drawer_toggles :: "uid \<Rightarrow> drawer_page \<Rightarrow> uid list" where
  "drawer_toggles d s = doc_qsa s (drawer_toggle_sel (id_prop (heap s d)))"

definition toggle_base :: "uid \<Rightarrow> bool option \<Rightarrow> drawer_page \<Rightarrow> drawer_page" where
  "toggle_base d force s =
     (let s1 = upd d (class_toggle drawer_open_class force) s;
          is_open = open_sel (heap s1 d);
          s2 = upd d (set_attr ''aria-hidden'' (if is_open then ''false'' else ''true'')) s1
      in upd_all (drawer_toggles d s2) (set_attr ''aria-expanded'' (if is_open then ''true'' else ''false'')) s2)"

definition release_focus :: "uid \<Rightarrow> drawer_page \<Rightarrow> drawer_page" where
  "release_focus d s =
     (case focus s of
        None \<Rightarrow> s
      | Some a \<Rightarrow>
          if contains s d a
          then (case (case drawer_toggles d s of t # _ \<Rightarrow> Some t | [] \<Rightarrow> doc_qs s (\<lambda>e. tag e = ''MAIN'')) of
                  None \<Rightarrow> s
                | Some n \<Rightarrow> focus_on n s)
          else s)"

text \<open>\<open>toggleDrawer(drawer, false)\<close>, the recursive call that closes another drawer.\<close>

definition close_drawer :: "uid \<Rightarrow> drawer_page \<Rightarrow> drawer_page" where
  "close_drawer d s = on_closed (release_focus d (toggle_base d (Some False) s))"

definition toggle_drawer :: "uid option \<Rightarrow> bool option \<Rightarrow> drawer_page \<Rightarrow> drawer_page" where
  "toggle_drawer drawer force s =
     (case drawer of
        None \<Rightarrow> s
      | Some d \<Rightarrow>
          (let s1 = toggle_base d force s in
           if open_sel (heap s1 d)
           then (let others = filter (\<lambda>u. u \<noteq> d) (doc_qsa s1 open_sel);
                     s2 = fold close_drawer others s1;
                     s3 = s2\<lparr>frames := frames s2 @ [(d, 100)]\<rparr>
                 in on_opened d s3)
           else on_closed (release_focus d s1)))"

text \<open>\<open>focusDrawer\<close>, run in an animation frame.\<close>

definition focus_drawer :: "uid \<times> nat \<Rightarrow> drawer_page \<Rightarrow> drawer_page" where
  "focus_drawer fr s =
     (case fr of
        (d, retries) \<Rightarrow>
          (let s1 = s\<lparr>frames := tl (frames s)\<rparr> in
           if List.member (visible s1) d then focus_on d s1
           else if retries > 0 then s1\<lparr>frames := frames s1 @ [(d, retries - 1)]\<rparr>
           else s1))"

section \<open>Events\<close>

definition dataset_is :: "string \<Rightarrow> string \<Rightarrow> uid option \<Rightarrow> drawer_page \<Rightarrow> bool" where
  "dataset_is a v u s = (case u of None \<Rightarrow> False | Some x \<Rightarrow> get_attr a (heap s x) = Some v)"

definition target_of :: "uid \<Rightarrow> drawer_page \<Rightarrow> uid option" where
  "target_of t s =
     select_one s (case get_attr ''data-nb-target'' (heap s t) of None \<Rightarrow> ''undefined'' | Some q \<Rightarrow> q) (doc s) (heap s)"

definition on_click_drawer :: "uid \<Rightarrow> drawer_page \<Rightarrow> drawer_page" where
  "on_click_drawer target s =
     (let dismiss = closest s (\<lambda>e. get_attr ''data-nb-dismiss'' e \<noteq> None) target;
          toggle = closest s (\<lambda>e. get_attr ''data-nb-toggle'' e \<noteq> None) target
      in if dataset_is ''data-nb-dismiss'' ''drawer'' dismiss s
         then toggle_drawer (closest s (has_class drawer_class) (the dismiss)) (Some False) s
         else if dataset_is ''data-nb-toggle'' ''drawer'' toggle s
         then toggle_drawer (target_of (the toggle) s) None s
         else s)"

text \<open>\<open>String(v)\<close> of a history entry used as an id; objects do not name a drawer.\<close>

definition json_id :: "json \<Rightarrow> string" where
  "json_id v = (case v of JStr t \<Rightarrow> t | JNum i \<Rightarrow> show_int i | JBool b \<Rightarrow> show_bool b | _ \<Rightarrow> ''[object Object]'')"

definition init_drawers :: "drawer_page \<Rightarrow> drawer_page" where
  "init_drawers s =
     (case history_state s of
        None \<Rightarrow> s
      | Some st \<Rightarrow>
          (case jget ''drawer'' st of
             None \<Rightarrow> s
           | Some v \<Rightarrow> if truthy v then toggle_drawer (by_id s (json_id v)) (Some True) s else s))"

datatype drawer_event = Close uid | Open uid | Toggle uid | Click uid

definition handle_drawer :: "drawer_event \<Rightarrow> drawer_page \<Rightarrow> drawer_page" where
  "handle_drawer e s =
     (case e of
        Close d \<Rightarrow> toggle_drawer (Some d) (Some False) s
      | Open d \<Rightarrow> toggle_drawer (Some d) (Some True) s
      | Toggle d \<Rightarrow> toggle_drawer (Some d) None s
      | Click u \<Rightarrow> on_click_drawer u s)"

section \<open>What opening and closing change\<close>

abbreviation dw_frame :: "drawer_page \<Rightarrow> drawer_page \<Rightarrow> bool" where
  "dw_frame \<equiv> untouched [''aria-hidden'', ''aria-expanded''] [drawer_open_class]"

lemma dw_frame_trans: "dw_frame s s' \<Longrightarrow> dw_frame s' t \<Longrightarrow> dw_frame s t"
  by (rule untouched_trans)

lemma dw_frame_upd_all: "dw_frame s (upd_all us (set_attr ''aria-expanded'' v) s)"
proof (induction us arbitrary: s)
  case (Cons u us)
  have "dw_frame s (upd u (set_attr ''aria-expanded'' v) s)" by simp
  from dw_frame_trans [OF this Cons.IH] show ?case by simp
qed simp

lemma dw_frame_same: "doc t = doc s \<Longrightarrow> heap t = heap s \<Longrightarrow> dw_frame s t"
  by (simp add: untouched_def)

lemma dw_frame_base: "dw_frame s (toggle_base d force s)"
proof -
  let ?s1 = "upd d (class_toggle drawer_open_class force) s"
  let ?s2 = "upd d (set_attr ''aria-hidden'' (if open_sel (heap ?s1 d) then ''false'' else ''true'')) ?s1"
  have "dw_frame s ?s1" by simp
  moreover have "dw_frame ?s1 ?s2" by simp
  ultimately have "dw_frame s ?s2" by (rule dw_frame_trans)
  then show ?thesis unfolding toggle_base_def Let_def using dw_frame_upd_all dw_frame_trans by blast
qed

definition opens :: "bool option \<Rightarrow> elem \<Rightarrow> bool" where
  "opens force e = (case force of Some b \<Rightarrow> b | None \<Rightarrow> \<not> open_sel e)"

lemma expand_all_keeps [simp]:
  "has_class c (heap (upd_all us (set_attr ''aria-expanded'' v) s) u) = has_class c (heap s u)"
  "a \<noteq> ''aria-expanded'' \<Longrightarrow>
     get_attr a (heap (upd_all us (set_attr ''aria-expanded'' v) s) u) = get_attr a (heap s u)"
  by (rule heap_upd_all_pres, simp)+

lemma toggle_base_effect:
  "open_sel (heap (toggle_base d force s) u) = (if u = d then opens force (heap s d) else open_sel (heap s u))"
  "get_attr ''aria-hidden'' (heap (toggle_base d force s) u) =
     (if u = d then Some (show_bool (\<not> opens force (heap s d))) else get_attr ''aria-hidden'' (heap s u))"
  by (auto simp: toggle_base_def Let_def open_sel_def opens_def heap_upd show_bool_def split: option.split)

lemma upd_all_nav [simp]:
  "history_state (upd_all us f s) = history_state s" "session_store (upd_all us f s) = session_store s"
  by (induction us arbitrary: s) (simp_all add: upd_def)

lemma upd_all_frames [simp]: "frames (upd_all us f s) = frames s"
  by (induction us arbitrary: s) (simp_all add: upd_def)

lemma toggle_base_keeps [simp]:
  "history_state (toggle_base d force s) = history_state s" "frames (toggle_base d force s) = frames s"
  by (simp_all add: toggle_base_def Let_def upd_def)

lemma focus_on_keeps [simp]:
  "heap (focus_on u s) = heap s" "doc (focus_on u s) = doc s" "history_state (focus_on u s) = history_state s"
  "frames (focus_on u s) = frames s" "visible (focus_on u s) = visible s"
  by (simp_all add: focus_on_def)

lemma release_focus_keeps [simp]:
  "heap (release_focus u s) = heap s" "doc (release_focus u s) = doc s"
  "history_state (release_focus u s) = history_state s" "frames (release_focus u s) = frames s"
  by (simp_all add: release_focus_def split: option.split list.split)

lemma on_closed_keeps [simp]: "heap (on_closed s) = heap s" "doc (on_closed s) = doc s"
  by (simp_all add: on_closed_def Let_def)

lemma on_opened_keeps [simp]: "heap (on_opened d s) = heap s" "doc (on_opened d s) = doc s"
  by (simp_all add: on_opened_def Let_def)

lemma replace_state_frames [simp]: "frames (replace_state v u s) = frames s" for s :: drawer_page
  by (simp add: replace_state_def split: option.split)

lemma close_drawer_effect:
  "open_sel (heap (close_drawer d s) u) = (u \<noteq> d \<and> open_sel (heap s u))"
  "get_attr ''aria-hidden'' (heap (close_drawer d s) u) =
     (if u = d then Some ''true'' else get_attr ''aria-hidden'' (heap s u))"
  "dw_frame s (close_drawer d s)"
proof -
  have h: "heap (close_drawer d s) = heap (toggle_base d (Some False) s)"
    and dc: "doc (close_drawer d s) = doc (toggle_base d (Some False) s)" by (simp_all add: close_drawer_def)
  then show "open_sel (heap (close_drawer d s) u) = (u \<noteq> d \<and> open_sel (heap s u))"
    "get_attr ''aria-hidden'' (heap (close_drawer d s) u) =
     (if u = d then Some ''true'' else get_attr ''aria-hidden'' (heap s u))"
    by (auto simp: toggle_base_effect opens_def show_bool_def)
  from dw_frame_same [OF dc h] show "dw_frame s (close_drawer d s)"
    using dw_frame_base dw_frame_trans by blast
qed

lemma close_all_effect:
  "open_sel (heap (fold close_drawer us s) u) = (u \<notin> set us \<and> open_sel (heap s u)) \<and>
   get_attr ''aria-hidden'' (heap (fold close_drawer us s) u) =
     (if u \<in> set us then Some ''true'' else get_attr ''aria-hidden'' (heap s u)) \<and>
   dw_frame s (fold close_drawer us s)"
proof (induction us arbitrary: s)
  case (Cons o' us)
  have "dw_frame s (fold close_drawer us (close_drawer o' s))"
    using Cons close_drawer_effect(3) dw_frame_trans by blast
  with Cons [of "close_drawer o' s"] show ?case by (auto simp: close_drawer_effect)
qed simp

text \<open>The page after the drawer's own change and, when it opened, after the others are closed.\<close>

definition settled :: "uid \<Rightarrow> bool option \<Rightarrow> drawer_page \<Rightarrow> drawer_page" where
  "settled d force s =
     (let s1 = toggle_base d force s in
      if open_sel (heap s1 d) then fold close_drawer (filter (\<lambda>u. u \<noteq> d) (doc_qsa s1 open_sel)) s1 else s1)"

lemma toggle_drawer_heap:
  "heap (toggle_drawer (Some d) force s) = heap (settled d force s)"
  "doc (toggle_drawer (Some d) force s) = doc (settled d force s)"
  by (simp_all add: toggle_drawer_def settled_def Let_def)

lemma settled_effect:
  assumes "u \<in> set (preorder (doc s))"
  shows "open_sel (heap (settled d force s) u) =
      (if u = d then opens force (heap s d) else \<not> opens force (heap s d) \<and> open_sel (heap s u))"
    and "get_attr ''aria-hidden'' (heap (settled d force s) u) =
      (if u = d then Some (show_bool (\<not> opens force (heap s d)))
       else if opens force (heap s d) \<and> open_sel (heap s u) then Some ''true''
       else get_attr ''aria-hidden'' (heap s u))"
    and "dw_frame s (settled d force s)"
proof -
  note f = dw_frame_base [of s d force]
  have mem: "u \<in> set (preorder (doc (toggle_base d force s)))" using assms untouched_doc [OF f] by simp
  note c = close_all_effect [of "filter (\<lambda>u. u \<noteq> d) (doc_qsa (toggle_base d force s) open_sel)" "toggle_base d force s"]
  show "open_sel (heap (settled d force s) u) =
      (if u = d then opens force (heap s d) else \<not> opens force (heap s d) \<and> open_sel (heap s u))"
    and "get_attr ''aria-hidden'' (heap (settled d force s) u) =
      (if u = d then Some (show_bool (\<not> opens force (heap s d)))
       else if opens force (heap s d) \<and> open_sel (heap s u) then Some ''true''
       else get_attr ''aria-hidden'' (heap s u))"
    using c [of u] mem by (auto simp: settled_def Let_def toggle_base_effect doc_qsa_iff)
  show "dw_frame s (settled d force s)"
    using c f dw_frame_trans by (auto simp: settled_def Let_def)
qed

lemma doc_fold_close [simp]: "doc (fold close_drawer us s) = doc s"
  using close_all_effect [of us s] untouched_doc by blast

lemma doc_settled [simp]: "doc (settled d force s) = doc s"
  using untouched_doc [OF dw_frame_base [of s d force]] by (simp add: settled_def Let_def)

text \<open>
  At most one drawer is open, and what assistive technology is told agrees with the class.
\<close>

definition drawers_ok :: "drawer_page \<Rightarrow> bool" where
  "drawers_ok s \<longleftrightarrow> length (doc_qsa s open_sel) \<le> 1 \<and>
     list_all (\<lambda>u. (has_class drawer_class (heap s u) \<or> open_sel (heap s u)) \<longrightarrow>
       get_attr ''aria-hidden'' (heap s u) = Some (show_bool (\<not> open_sel (heap s u)))) (preorder (doc s))"

lemma open_one:
  assumes "wf_page s" and "\<And>u. u \<in> set (preorder (doc s)) \<Longrightarrow> open_sel (heap s u) \<Longrightarrow> u = d"
  shows "length (doc_qsa s open_sel) \<le> 1"
proof -
  have "set (doc_qsa s open_sel) \<subseteq> {d}" using assms(2) by (auto simp: doc_qsa_iff)
  moreover have "distinct (doc_qsa s open_sel)" using assms(1) by (simp add: doc_qsa_def wf_page_def)
  ultimately show ?thesis using card_mono [of "{d}"] by (fastforce simp: distinct_card [symmetric])
qed

lemma drawers_ok_toggle:
  assumes "wf_page s" and "drawers_ok s"
  shows "drawers_ok (toggle_drawer drawer force s) \<and> doc (toggle_drawer drawer force s) = doc s"
proof (cases drawer)
  case (Some d)
  let ?t = "toggle_drawer (Some d) force s"
  have dc: "doc ?t = doc s" by (simp add: toggle_drawer_heap)
  have wf: "wf_page ?t" using assms(1) dc by (simp add: wf_page_def)
  have fr: "has_class drawer_class (heap ?t u) = has_class drawer_class (heap s u)" if "u \<in> set (preorder (doc s))" for u
    using untouched_class [OF settled_effect(3) [OF that]]
    by (simp add: toggle_drawer_heap drawer_class_def drawer_open_class_def)
  obtain x where "\<forall>u \<in> set (preorder (doc s)). open_sel (heap ?t u) \<longrightarrow> u = x"
  proof (cases "opens force (heap s d)")
    case True
    with that [of d] show ?thesis by (simp add: toggle_drawer_heap settled_effect)
  next
    case False
    then have sub: "open_sel (heap ?t u) \<Longrightarrow> open_sel (heap s u)" if "u \<in> set (preorder (doc s))" for u
      using that by (simp add: toggle_drawer_heap settled_effect split: if_splits)
    have le: "length (doc_qsa s open_sel) \<le> 1" using assms(2) by (simp add: drawers_ok_def)
    show ?thesis
    proof (cases "doc_qsa s open_sel")
      case Nil
      then have "\<forall>u \<in> set (preorder (doc s)). \<not> open_sel (heap s u)" using doc_qsa_iff [of _ s open_sel] by auto
      with sub that show ?thesis by blast
    next
      case (Cons y ys)
      with le have "\<forall>u \<in> set (preorder (doc s)). open_sel (heap s u) \<longrightarrow> u = y"
        using doc_qsa_iff [of _ s open_sel] by auto
      with sub that show ?thesis by blast
    qed
  qed
  then have "length (doc_qsa ?t open_sel) \<le> 1" using open_one [OF wf, of x] dc by auto
  with assms(2) dc fr show ?thesis
    by (auto simp: Some drawers_ok_def list_all_iff toggle_drawer_heap settled_effect show_bool_def)
qed (use assms in \<open>simp add: toggle_drawer_def\<close>)

lemma wf_page_same: "doc t = doc s \<Longrightarrow> wf_page t = wf_page s"
  by (simp add: wf_page_def)

lemma drawers_ok_handle:
  assumes "wf_page s" and "drawers_ok s"
  shows "drawers_ok (handle_drawer e s) \<and> doc (handle_drawer e s) = doc s"
proof (cases e)
  case (Click u)
  then show ?thesis
    using assms drawers_ok_toggle [OF assms]
    by (simp add: handle_drawer_def on_click_drawer_def Let_def)
qed (use drawers_ok_toggle [OF assms] in \<open>simp_all add: handle_drawer_def\<close>)

interpretation drawer_page: machine handle_drawer "\<lambda>s. wf_page s \<and> drawers_ok s"
  using drawers_ok_handle wf_page_same by unfold_locales blast

text \<open>
  C6: Through any sequence of open, close and toggle events and clicks, at most one drawer
  is open, and every drawer's aria-hidden agrees with its being open.
\<close>

theorem at_most_one_drawer:
  assumes "wf_page s" and "drawers_ok s"
  shows "drawers_ok (fold handle_drawer es s)"
  using drawer_page.run_inv [of s es] assms by blast

lemma opening_leaves_one:
  assumes "wf_page s" and "d \<in> set (preorder (doc s))" and "opens force (heap s d)"
  shows "doc_qsa (toggle_drawer (Some d) force s) open_sel = [d]"
proof -
  have "open_sel (heap (settled d force s) u) = (u = d)" if "u \<in> set (preorder (doc s))" for u
    using that assms(3) by (simp add: settled_effect)
  then have "doc_qsa (toggle_drawer (Some d) force s) open_sel = filter (\<lambda>u. u = d) (preorder (doc s))"
    by (auto simp: doc_qsa_def toggle_drawer_heap intro: filter_cong)
  also have "\<dots> = [d]"
    using assms(1,2) by (simp add: wf_page_def filter_eq_single)
  finally show ?thesis .
qed

section \<open>The history state\<close>

definition hist_ok :: "json option \<Rightarrow> bool" where
  "hist_ok h \<longleftrightarrow> (case h of Some (JObj ms) \<Rightarrow> wf_obj ms | Some JNull \<Rightarrow> True | _ \<Rightarrow> False)"

abbreviation hist_get :: "drawer_page \<Rightarrow> string \<Rightarrow> json option" where
  "hist_get s \<equiv> oget (own_entries (history_state s))"

lemma hist_on_closed:
  assumes "hist_ok (history_state s)"
  shows "hist_ok (history_state (on_closed s))"
    and "hist_get (on_closed s) k = (if k = ''drawer'' then None else hist_get s k)"
  using assms
  by (auto simp: on_closed_def hist_ok_def own_entries_def Let_def split: option.splits json.splits if_splits)
     (metis oget_odel map_of.simps(1))+

lemma hist_close_drawer:
  assumes "hist_ok (history_state s)"
  shows "hist_ok (history_state (close_drawer d s))"
    and "hist_get (close_drawer d s) k = (if k = ''drawer'' then None else hist_get s k)"
  using assms hist_on_closed [of "release_focus d (toggle_base d (Some False) s)"]
  by (simp_all add: close_drawer_def)

lemma hist_close_all:
  "hist_ok (history_state s) \<Longrightarrow> hist_ok (history_state (fold close_drawer us s)) \<and>
   (k \<noteq> ''drawer'' \<longrightarrow> hist_get (fold close_drawer us s) k = hist_get s k)"
proof (induction us arbitrary: s)
  case (Cons u us)
  then show ?case using hist_close_drawer [OF Cons.prems, of u] by simp
qed simp

lemma hist_on_opened:
  assumes "hist_ok (history_state s)" and "id_prop (heap s d) \<noteq> []"
  shows "hist_ok (history_state (on_opened d s))"
    and "hist_get (on_opened d s) k = (if k = ''drawer'' then Some (JStr (id_prop (heap s d))) else hist_get s k)"
proof -
  have e: "wf_obj (own_entries (history_state s))" and n: "history_state s \<noteq> None"
    using assms(1) by (auto simp: hist_ok_def own_entries_def wf_obj_def split: option.splits json.splits)
  have w: "wf_obj (ospread [] (own_entries (history_state s)))" by (rule wf_obj_ospread) (simp add: wf_obj_def)
  show "hist_ok (history_state (on_opened d s))" using assms(2) n w by (simp add: on_opened_def Let_def hist_ok_def)
  show "hist_get (on_opened d s) k = (if k = ''drawer'' then Some (JStr (id_prop (heap s d))) else hist_get s k)"
    using assms(2) n oget_ospread [OF e, of "[]" k]
    by (auto simp: on_opened_def Let_def own_entries_def [of "Some (JObj ms)" for ms] split: option.splits)
qed

text \<open>
  After a drawer was toggled, the history state names it exactly when it is open, names
  no drawer when it is closed, and every other entry of the history state is as before.
\<close>

theorem history_names_open_drawer:
  assumes "hist_ok (history_state s)" and "d \<in> set (preorder (doc s))" and "id_prop (heap s d) \<noteq> []"
  shows "let s' = toggle_drawer (Some d) force s in
    hist_get s' k =
      (if k = ''drawer'' then (if open_sel (heap s' d) then Some (JStr (id_prop (heap s d))) else None)
       else hist_get s k)"
proof -
  let ?s1 = "toggle_base d force s"
  let ?s2 = "fold close_drawer (filter (\<lambda>u. u \<noteq> d) (doc_qsa ?s1 open_sel)) ?s1"
  let ?s3 = "?s2\<lparr>frames := frames ?s2 @ [(d, 100)]\<rparr>"
  have i: "id_prop (heap (settled d force s) d) = id_prop (heap s d)"
    using untouched_attr [OF settled_effect(3) [OF assms(2)], of "''id''" d force] by (simp add: id_prop_def)
  show ?thesis
  proof (cases "open_sel (heap ?s1 d)")
    case True
    then have h2: "heap ?s3 = heap (settled d force s)" by (simp add: settled_def Let_def)
    have ok: "hist_ok (history_state ?s3)" using hist_close_all [where s = ?s1] assms(1) by simp
    have o: "open_sel (heap (settled d force s) d)"
      using True settled_effect(1) [OF assms(2)] toggle_base_effect(1) by simp
    have "hist_get ?s3 k = hist_get s k" if "k \<noteq> ''drawer''"
      using hist_close_all [where s = ?s1 and k = k] assms(1) that by simp
    with True o i h2 assms(3) hist_on_opened(2) [OF ok, of d k] show ?thesis
      by (auto simp: Let_def toggle_drawer_heap) (simp_all add: toggle_drawer_def Let_def)
  next
    case False
    then have "\<not> open_sel (heap (settled d force s) d)"
      using settled_effect(1) [OF assms(2)] toggle_base_effect(1) by simp
    with False assms(1) hist_on_closed(2) [of "release_focus d ?s1" k] show ?thesis
      by (auto simp: Let_def toggle_drawer_heap) (simp_all add: toggle_drawer_def Let_def)
  qed
qed

section \<open>Reloading the page\<close>

lemma load_state_page [simp]: "doc (load_state s) = doc s" "heap (load_state s) = heap s"
  by (simp_all add: load_state_def Let_def split: option.split)

text \<open>
  When the history state was saved before a full reload while it named a drawer, then
  after the reload, once the state is loaded and the drawers are initialized, exactly the
  drawer of that id is open.
\<close>

theorem open_drawer_survives_reload:
  assumes "history_state s = Some st" and "wf_json st" and "jget ''drawer'' st = Some (JStr i)" and "i \<noteq> []"
    and "session_store s \<noteq> None" and "reloaded (save_state None s) s'"
    and "wf_page s'" and "by_id s' i = Some d"
  shows "doc_qsa (init_drawers (load_state s')) open_sel = [d]"
proof -
  have "save_state None s = save_state (Some st) s" using assms(1) by (simp add: save_state_def)
  then have "reloaded (save_state (Some st) s) s'" using assms(6) by simp
  from load_after_reload(1) [OF stored_after_save [OF assms(2,5)] this]
  have h: "history_state (load_state s') = Some st" .
  have b: "by_id (load_state s') i = Some d" using assms(8) by (simp add: by_id_def doc_qs_def doc_qsa_def)
  have "init_drawers (load_state s') = toggle_drawer (Some d) (Some True) (load_state s')"
    using h b assms(3,4) by (simp add: init_drawers_def json_id_def)
  moreover have "d \<in> set (preorder (doc s'))" using assms(8) doc_qs_Some by (auto simp: by_id_def)
  ultimately show ?thesis
    using opening_leaves_one [of "load_state s'" d "Some True"] assms(7)
    by (simp add: opens_def wf_page_def)
qed

section \<open>Waiting for the drawer to become visible\<close>

definition frame_cost :: "drawer_page \<Rightarrow> nat" where
  "frame_cost s = sum_list (map (\<lambda>f. snd f + 1) (frames s))"

interpretation raf: task_loop frames focus_drawer "\<lambda>_. True" frame_cost
  by unfold_locales (auto simp: focus_drawer_def focus_on_def frame_cost_def Let_def split: prod.splits)


section \<open>A page on which the hypotheses hold\<close>

definition demo_drawer :: "json \<Rightarrow> drawer_page" where
  "demo_drawer h =
     \<lparr>doc = Node 0 [Node 2 [], Node 3 [], Node 4 []],
      heap = (\<lambda>u. if u = 2 then (new_elem ''DIV'')\<lparr>classes := [''nb-drawer''],
            attrs := [(''id'', ''d''), (''aria-hidden'', ''true'')]\<rparr>
        else if u = 3 then (new_elem ''DIV'')\<lparr>classes := [''nb-drawer'', ''nb-drawer-open''],
            attrs := [(''id'', ''e''), (''aria-hidden'', ''false'')]\<rparr>
        else new_elem ''MAIN''),
      focus = None, history_state = Some h, entry_url = ''/'', loc_path = ''/'', loc_search = [], loc_hash = [],
      session_store = Some Map.empty, frames = [], visible = [2], focusable = [2, 3],
      select_one = (\<lambda>q t h. if q = ''#d'' then Some 2 else None)\<rparr>"

theorem at_most_one_drawer_witness:
  "drawers_ok (fold handle_drawer [Open 2, Toggle 3, Click 4] (demo_drawer JNull))"
proof -
  have h: "wf_page (demo_drawer JNull)" "drawers_ok (demo_drawer JNull)" by code_simp+
  show ?thesis using at_most_one_drawer [OF h] .
qed

theorem history_names_open_drawer_witness:
  "hist_get (toggle_drawer (Some 2) None (demo_drawer (JObj [(''tab'', JStr ''main'')]))) ''tab'' = Some (JStr ''main'')"
proof -
  let ?s = "demo_drawer (JObj [(''tab'', JStr ''main'')])"
  have h: "hist_ok (history_state ?s)" "2 \<in> set (preorder (doc ?s))" "id_prop (heap ?s 2) \<noteq> []"
    and g: "hist_get ?s ''tab'' = Some (JStr ''main'')" by code_simp+
  show ?thesis using history_names_open_drawer [OF h, of None "''tab''"] g by (simp add: Let_def)
qed

theorem open_drawer_survives_reload_witness:
  "doc_qsa (init_drawers (load_state ((demo_drawer JNull)\<lparr>session_store := Some [session_storage_key \<mapsto>
     stringify (JObj [(''drawer'', JStr ''d'')])]\<rparr>))) open_sel = [2]"
proof -
  let ?st = "JObj [(''drawer'', JStr ''d'')]"
  let ?s = "demo_drawer ?st"
  let ?t = "(demo_drawer JNull)\<lparr>session_store := Some [session_storage_key \<mapsto> stringify ?st]\<rparr>"
  have h: "history_state ?s = Some ?st" "wf_json ?st" "jget ''drawer'' ?st = Some (JStr ''d'')" "''d'' \<noteq> []"
    "session_store ?s \<noteq> None" "reloaded (save_state None ?s) ?t"
    by (simp_all add: demo_drawer_def reloaded_def save_state_def set_item_def)
  have i: "wf_page ?t" "by_id ?t ''d'' = Some 2" by code_simp+
  show ?thesis using open_drawer_survives_reload [OF h i] .
qed


end
