(* ===== verification/Collapse.thy ===== *)
theory Collapse
  imports Dom Json Web_Storage
begin

text \<open>
  The "Collapse All" buttons: \<open>nautobot/ui/src/js/collapse.js\<close>. The state of the groups is
  one JSON text in local storage, keyed by the target selector of the button and then by
  the group; saving and relabelling is batched into one animation frame.
\<close>

section \<open>State\<close>

text \<open>
  The browser's part: the number of pending animation frames of this script and the query
  \<open>querySelectorAll\<close> makes for a selector given as text. Bootstrap's part: the collapses it
  was asked to show or hide (oldest first).
\<close>

record collapse_page = page +
  local_store :: storage
  scheduled :: bool
  frames_pending :: nat
  requested :: "(uid \<times> bool) list"
  select_all :: "string \<Rightarrow> dtree \<Rightarrow> (uid \<Rightarrow> elem) \<Rightarrow> uid list"

definition collapse_key :: string where "collapse_key = ''nautobot.collapsedState''"
definition panel_key_prefix :: string where "panel_key_prefix = ''collapseme-''"
definition default_state_key :: string where "default_state_key = ''__default''"

section \<open>Helpers\<close>

definition is_shown :: "elem \<Rightarrow> bool" where
  "is_shown e \<longleftrightarrow> has_class ''show'' e"

definition target_selector :: "elem \<Rightarrow> string" where
  "target_selector e =
     (case get_attr ''data-nb-target'' e of None \<Rightarrow> ''.collapse'' | Some q \<Rightarrow> if q = [] then ''.collapse'' else q)"

definition toggle_all_sel :: "elem \<Rightarrow> bool" where
  "toggle_all_sel e \<longleftrightarrow> get_attr ''data-nb-toggle'' e = Some ''collapse-all''"

definition toggle_all_buttons :: "collapse_page \<Rightarrow> uid list" where
  "toggle_all_buttons s = doc_qsa s toggle_all_sel"

definition panels_of :: "collapse_page \<Rightarrow> uid \<Rightarrow> uid list" where
  "panels_of s b = select_all s (target_selector (heap s b)) (doc s) (heap s)"

definition panel_key :: "elem \<Rightarrow> string option" where
  "panel_key e = List.find (starts_with panel_key_prefix) (classes e)"

section \<open>Persistence\<close>

definition read_collapsed :: "storage \<Rightarrow> json" where
  "read_collapsed st =
     (case get_item collapse_key st of
        None \<Rightarrow> JObj []
      | Some t \<Rightarrow> (case json_parse t of None \<Rightarrow> JObj [] | Some v \<Rightarrow> if truthy v then v else JObj []))"

definition write_collapsed :: "json \<Rightarrow> storage \<Rightarrow> storage" where
  "write_collapsed v st = set_item collapse_key (stringify v) st"

text \<open>
  Writing a member: an object gets it, an array gets a property that its JSON text does not
  show, a primitive value throws.
\<close>

fun put_member :: "string \<Rightarrow> json \<Rightarrow> json \<Rightarrow> json option" where
  "put_member k v (JObj ms) = Some (JObj (oset k v ms))"
| "put_member k v (JArr vs) = Some (JArr vs)"
| "put_member k v _ = None"

definition member_or_empty :: "string \<Rightarrow> json \<Rightarrow> json" where
  "member_or_empty k v = (case jget k v of None \<Rightarrow> JObj [] | Some w \<Rightarrow> if truthy w then w else JObj [])"

definition reset_namespace :: "string \<Rightarrow> string \<Rightarrow> collapse_page \<Rightarrow> collapse_page outcome" where
  "reset_namespace ns d s =
     (case put_member ns (JObj [(default_state_key, JStr d)]) (read_collapsed (local_store s)) of
        None \<Rightarrow> Throw TypeError s
      | Some v \<Rightarrow> Done (s\<lparr>local_store := write_collapsed v (local_store s)\<rparr>))"

definition panel_state :: "elem \<Rightarrow> string" where
  "panel_state e = (if is_shown e then ''expanded'' else ''collapsed'')"

definition save_panel :: "collapse_page \<Rightarrow> uid \<Rightarrow> json obj \<Rightarrow> json obj" where
  "save_panel s u ms =
     (case panel_key (heap s u) of None \<Rightarrow> ms | Some k \<Rightarrow> oset k (JStr (panel_state (heap s u))) ms)"

definition save_namespace :: "collapse_page \<Rightarrow> uid \<Rightarrow> json \<Rightarrow> json option" where
  "save_namespace s b v =
     (let ns = target_selector (heap s b);
          ms = ospread [] (own_entries (Some (member_or_empty ns v)))
      in put_member ns (JObj (fold (save_panel s) (panels_of s b) ms)) v)"

fun save_all :: "collapse_page \<Rightarrow> uid list \<Rightarrow> json \<Rightarrow> json option" where
  "save_all s [] v = Some v"
| "save_all s (b # bs) v = (case save_namespace s b v of None \<Rightarrow> None | Some w \<Rightarrow> save_all s bs w)"

definition save_state :: "collapse_page \<Rightarrow> collapse_page outcome" where
  "save_state s =
     (case save_all s (toggle_all_buttons s) (read_collapsed (local_store s)) of
        None \<Rightarrow> Throw TypeError s
      | Some v \<Rightarrow> Done (s\<lparr>local_store := write_collapsed v (local_store s)\<rparr>))"

section \<open>View\<close>

definition relabel :: "bool \<Rightarrow> elem \<Rightarrow> elem" where
  "relabel expanded e =
     (set_attr ''aria-expanded'' (show_bool expanded) e)
       \<lparr>inner := if expanded then ''Collapse All Groups'' else ''Expand All Groups''\<rparr>"

definition sync_button :: "uid \<Rightarrow> collapse_page \<Rightarrow> collapse_page" where
  "sync_button b s =
     (let us = panels_of s b in
      if us = [] then s
      else if list_all (\<lambda>u. \<not> is_shown (heap s u)) us then upd b (relabel False) s
      else if list_all (\<lambda>u. is_shown (heap s u)) us then upd b (relabel True) s
      else s)"

definition sync_view :: "collapse_page \<Rightarrow> collapse_page" where
  "sync_view s = fold sync_button (toggle_all_buttons s) s"

definition is_str :: "string \<Rightarrow> json option \<Rightarrow> bool" where
  "is_str t v \<longleftrightarrow> v = Some (JStr t)"

definition stored_expanded :: "json \<Rightarrow> string option \<Rightarrow> bool" where
  "stored_expanded nsv key =
     (let d = (case jget default_state_key nsv of Some v \<Rightarrow> if truthy v then v else JStr ''expanded'' | None \<Rightarrow> JStr ''expanded'');
          st = (case key of
                  None \<Rightarrow> d
                | Some k \<Rightarrow> (case jget k nsv of Some v \<Rightarrow> if truthy v then v else d | None \<Rightarrow> d))
      in st = JStr ''expanded'')"

definition restore_panel :: "bool \<Rightarrow> uid \<Rightarrow> collapse_page \<Rightarrow> collapse_page" where
  "restore_panel b u s =
     (let s1 = upd u (class_toggle ''show'' (Some b)) s in
      case panel_key (heap s u) of
        None \<Rightarrow> s1
      | Some k \<Rightarrow>
          upd_all (doc_qsa s1 (\<lambda>e. get_attr ''data-bs-target'' e = Some (CHR ''.'' # k)))
            (set_attr ''aria-expanded'' (show_bool b)) s1)"

definition restore_button :: "json \<Rightarrow> uid \<Rightarrow> collapse_page \<Rightarrow> collapse_page" where
  "restore_button v b s =
     (let nsv = member_or_empty (target_selector (heap s b)) v
      in fold (\<lambda>u t. restore_panel (stored_expanded nsv (panel_key (heap t u))) u t) (panels_of s b) s)"

definition restore_state :: "collapse_page \<Rightarrow> collapse_page" where
  "restore_state s = sync_view (fold (restore_button (read_collapsed (local_store s))) (toggle_all_buttons s) s)"

section \<open>Events\<close>

definition schedule_save :: "collapse_page \<Rightarrow> collapse_page" where
  "schedule_save s =
     (if scheduled s then s else s\<lparr>scheduled := True, frames_pending := frames_pending s + 1\<rparr>)"

text \<open>The animation frame; a throw while saving skips the relabelling.\<close>

definition run_frame :: "collapse_page \<Rightarrow> collapse_page outcome" where
  "run_frame s0 =
     (let s = s0\<lparr>frames_pending := frames_pending s0 - 1\<rparr> in
      if scheduled s
      then and_then (save_state (s\<lparr>scheduled := False\<rparr>)) (\<lambda>t. Done (sync_view t))
      else Done s)"

definition on_click_collapse :: "uid \<Rightarrow> collapse_page \<Rightarrow> collapse_page outcome" where
  "on_click_collapse target s =
     (case closest s toggle_all_sel target of
        None \<Rightarrow> Done s
      | Some b \<Rightarrow>
          (let us = panels_of s b;
               expand = get_attr ''aria-expanded'' (heap s b) \<noteq> Some ''true''
           in and_then (reset_namespace (target_selector (heap s b)) (if expand then ''expanded'' else ''collapsed'') s)
                (\<lambda>t. Done (schedule_save (t\<lparr>requested := requested t @ map (\<lambda>u. (u, expand)) us\<rparr>)))))"

datatype collapse_event = Click_Toggle uid | Bootstrap_Done uid bool | After_Swap | Frame

text \<open>Bootstrap toggles the class \<open>show\<close> of a collapse and then fires the event listened for.\<close>

definition handle_collapse :: "collapse_event \<Rightarrow> collapse_page \<Rightarrow> collapse_page" where
  "handle_collapse ev s =
     (case ev of
        Click_Toggle u \<Rightarrow> final_state (on_click_collapse u s)
      | Bootstrap_Done u b \<Rightarrow> schedule_save (upd u (class_toggle ''show'' (Some b)) s)
      | After_Swap \<Rightarrow> restore_state s
      | Frame \<Rightarrow> if frames_pending s = 0 then s else final_state (run_frame s))"

section \<open>One save per repaint\<close>

definition frames_ok :: "collapse_page \<Rightarrow> bool" where
  "frames_ok s \<longleftrightarrow> frames_pending s = (if scheduled s then 1 else 0)"

lemma upd_collapse_fields [simp]:
  "scheduled (upd u f s) = scheduled s" "frames_pending (upd u f s) = frames_pending s"
  "local_store (upd u f s) = local_store s" "select_all (upd u f s) = select_all s"
  by (simp_all add: upd_def)

lemma upd_all_collapse_fields [simp]:
  "scheduled (upd_all us f s) = scheduled s" "frames_pending (upd_all us f s) = frames_pending s"
  "local_store (upd_all us f s) = local_store s" "select_all (upd_all us f s) = select_all s"
  by (induction us arbitrary: s) simp_all

lemma sync_view_fields [simp]:
  "scheduled (sync_view s) = scheduled s" "frames_pending (sync_view s) = frames_pending s"
  "local_store (sync_view s) = local_store s"
  unfolding sync_view_def by (rule fold_frame, simp add: sync_button_def Let_def)+

lemma restore_panel_fields [simp]:
  "scheduled (restore_panel b u s) = scheduled s" "frames_pending (restore_panel b u s) = frames_pending s"
  "local_store (restore_panel b u s) = local_store s" "select_all (restore_panel b u s) = select_all s"
  by (simp_all add: restore_panel_def Let_def split: option.split)

lemma restore_button_fields [simp]:
  "scheduled (restore_button v b s) = scheduled s" "frames_pending (restore_button v b s) = frames_pending s"
  "local_store (restore_button v b s) = local_store s"
  unfolding restore_button_def Let_def by (rule fold_frame, simp)+

lemma restore_state_fields [simp]:
  "scheduled (restore_state s) = scheduled s" "frames_pending (restore_state s) = frames_pending s"
  "local_store (restore_state s) = local_store s"
  unfolding restore_state_def sync_view_fields by (rule fold_frame, simp)+

lemma frames_ok_handle: "frames_ok s \<Longrightarrow> frames_ok (handle_collapse ev s)"
  by (cases ev)
     (auto simp: handle_collapse_def frames_ok_def schedule_save_def on_click_collapse_def reset_namespace_def
       run_frame_def save_state_def final_and_then Let_def split: option.splits outcome.splits if_splits)

interpretation collapse_events: machine handle_collapse frames_ok
  by unfold_locales (rule frames_ok_handle)

lemmas frames_ok_fold = collapse_events.run_inv

text \<open>
  However many collapses finish, buttons are clicked and contents are swapped between
  two repaints, at most one animation frame is pending, and one is pending exactly when a
  save is scheduled.
\<close>

theorem one_save_per_repaint:
  assumes "frames_ok s"
  shows "frames_pending (fold handle_collapse es s) \<le> 1 \<and>
    (frames_pending (fold handle_collapse es s) = 1 \<longleftrightarrow> scheduled (fold handle_collapse es s))"
  using frames_ok_fold [OF assms, of es] by (auto simp: frames_ok_def)

section \<open>Restoring\<close>

text \<open>
  What restoring leaves alone, and pages whose selectors do not look at what restoring
  writes (the class \<open>show\<close> and aria-expanded).
\<close>

definition cframe :: "collapse_page \<Rightarrow> collapse_page \<Rightarrow> bool" where
  "cframe s t \<longleftrightarrow> untouched [''aria-expanded''] [''show''] s t \<and> select_all t = select_all s \<and>
     (\<forall>u. panel_key (heap t u) = panel_key (heap s u))"

definition stable_selectors :: "collapse_page \<Rightarrow> bool" where
  "stable_selectors s \<longleftrightarrow> (\<forall>q h. untouched [''aria-expanded''] [''show''] s (s\<lparr>heap := h\<rparr>) \<longrightarrow>
     select_all s q (doc s) h = select_all s q (doc s) (heap s))"

lemma cframe_refl [simp]: "cframe s s"
  by (simp add: cframe_def)

lemma cframe_trans: "cframe s t \<Longrightarrow> cframe t r \<Longrightarrow> cframe s r"
  by (auto simp: cframe_def intro: untouched_trans)

lemma cframe_queries:
  assumes "stable_selectors s" and "cframe s t"
  shows "panels_of t b = panels_of s b" and "target_selector (heap t b) = target_selector (heap s b)"
    and "toggle_all_buttons t = toggle_all_buttons s" and "panel_key (heap t u) = panel_key (heap s u)"
proof -
  have u: "untouched [''aria-expanded''] [''show''] s t" and q: "select_all t = select_all s"
    using assms(2) by (simp_all add: cframe_def)
  have "untouched [''aria-expanded''] [''show''] s (s\<lparr>heap := heap t\<rparr>)" using u by (simp add: untouched_def)
  then have sel: "select_all s q (doc s) (heap t) = select_all s q (doc s) (heap s)" for q
    by (rule assms(1) [unfolded stable_selectors_def, rule_format])
  show t: "target_selector (heap t b) = target_selector (heap s b)"
    by (simp add: target_selector_def untouched_attr [OF u])
  show "panels_of t b = panels_of s b" by (simp add: panels_of_def t q sel untouched_doc [OF u])
  show "toggle_all_buttons t = toggle_all_buttons s"
    unfolding toggle_all_buttons_def
    by (rule doc_qsa_cong) (simp_all add: toggle_all_sel_def untouched_doc [OF u] untouched_attr [OF u])
  show "panel_key (heap t u) = panel_key (heap s u)" using assms(2) by (simp add: cframe_def)
qed

lemma panel_key_toggle [simp]: "panel_key (class_toggle ''show'' (Some b) e) = panel_key e"
proof -
  have n: "\<not> starts_with panel_key_prefix ''show''" by code_simp
  have r: "List.find (starts_with panel_key_prefix) (removeAll ''show'' cs) = List.find (starts_with panel_key_prefix) cs" for cs
    using n by (induction cs) auto
  have a: "List.find (starts_with panel_key_prefix) (cs @ [''show'']) = List.find (starts_with panel_key_prefix) cs" for cs
    using n by (induction cs) auto
  show ?thesis
    using r a by (simp add: panel_key_def class_toggle_def class_add_def class_remove_def)
qed

lemma panel_key_set_attr [simp]: "panel_key (set_attr a v e) = panel_key e"
  by (simp add: panel_key_def)

lemma cframe_expand_all: "cframe s (upd_all us (set_attr ''aria-expanded'' v) s)"
proof (induction us arbitrary: s)
  case (Cons u us)
  have "cframe s (upd u (set_attr ''aria-expanded'' v) s)" by (simp add: cframe_def heap_upd)
  from cframe_trans [OF this Cons.IH] show ?case by simp
qed simp

lemma restore_panel_effect:
  "cframe s (restore_panel b u s)"
  "is_shown (heap (restore_panel b u s) v) = (if v = u then b else is_shown (heap s v))"
proof -
  let ?s1 = "upd u (class_toggle ''show'' (Some b)) s"
  have 1: "cframe s ?s1" by (simp add: cframe_def heap_upd)
  then show "cframe s (restore_panel b u s)"
    using cframe_trans [OF 1 cframe_expand_all] by (simp add: restore_panel_def Let_def split: option.split)
  have "has_class ''show'' (heap (upd_all us (set_attr ''aria-expanded'' x) p) w) = has_class ''show'' (heap p w)"
    for us x w and p :: collapse_page
    by (rule heap_upd_all_pres) simp
  then show "is_shown (heap (restore_panel b u s) v) = (if v = u then b else is_shown (heap s v))"
    by (simp add: restore_panel_def Let_def is_shown_def heap_upd split: option.split)
qed

lemma restore_panels_effect:
  "cframe s t \<Longrightarrow>
   cframe s (fold (\<lambda>u r. restore_panel (stored_expanded nsv (panel_key (heap r u))) u r) us t) \<and>
   is_shown (heap (fold (\<lambda>u r. restore_panel (stored_expanded nsv (panel_key (heap r u))) u r) us t) v) =
     (if v \<in> set us then stored_expanded nsv (panel_key (heap s v)) else is_shown (heap t v))"
proof (induction us arbitrary: t)
  case (Cons u us)
  let ?t = "restore_panel (stored_expanded nsv (panel_key (heap t u))) u t"
  have k: "panel_key (heap t u) = panel_key (heap s u)" using Cons.prems by (simp add: cframe_def)
  have "cframe s ?t" using Cons.prems restore_panel_effect(1) cframe_trans by blast
  from Cons.IH [OF this] k show ?case by (auto simp: restore_panel_effect(2))
qed simp

lemma restore_button_effect:
  assumes "stable_selectors s" and "cframe s t"
  shows "cframe s (restore_button v b t)"
    and "is_shown (heap (restore_button v b t) u) =
      (if u \<in> set (panels_of s b)
       then stored_expanded (member_or_empty (target_selector (heap s b)) v) (panel_key (heap s u))
       else is_shown (heap t u))"
  using restore_panels_effect [OF assms(2)]
  by (simp_all add: restore_button_def Let_def cframe_queries [OF assms])

lemma restore_buttons_effect:
  assumes "stable_selectors s" and "cframe s t" and "\<forall>b' \<in> set bs. u \<in> set (panels_of s b') \<longrightarrow> b' = b"
    and "u \<in> set (panels_of s b)"
  shows "is_shown (heap (fold (restore_button v) bs t) u) =
    (if b \<in> set bs
     then stored_expanded (member_or_empty (target_selector (heap s b)) v) (panel_key (heap s u))
     else is_shown (heap t u))"
  using assms(2,3)
proof (induction bs arbitrary: t)
  case (Cons c bs)
  note r = restore_button_effect [OF assms(1) Cons.prems(1)]
  have no: "\<forall>b' \<in> set bs. u \<in> set (panels_of s b') \<longrightarrow> b' = b" and c: "u \<in> set (panels_of s c) \<longrightarrow> c = b"
    using Cons.prems(2) by simp_all
  note ih = Cons.IH [OF r(1) no, of v c]
  show ?case
  proof (cases "c = b")
    case True
    with ih r(2) [of v c u] assms(4) show ?thesis by simp
  next
    case False
    with ih r(2) [of v c u] c show ?thesis by (simp split: if_splits)
  qed
qed simp

lemma sync_view_shown [simp]: "is_shown (heap (sync_view s) u) = is_shown (heap s u)"
proof -
  have "is_shown (heap (fold sync_button bs t) u) = is_shown (heap t u)" for bs t
  proof (rule fold_frame [where g = "\<lambda>t. is_shown (heap t u)"])
    show "is_shown (heap (sync_button x p) u) = is_shown (heap p u)" for x p
      by (auto simp: sync_button_def Let_def is_shown_def heap_upd relabel_def)
  qed
  then show ?thesis by (simp add: sync_view_def)
qed

lemma restore_shows_stored:
  assumes "stable_selectors s" and "b \<in> set (toggle_all_buttons s)" and "u \<in> set (panels_of s b)"
    and "\<forall>b' \<in> set (toggle_all_buttons s). u \<in> set (panels_of s b') \<longrightarrow> b' = b"
  shows "is_shown (heap (restore_state s) u) =
    stored_expanded (member_or_empty (target_selector (heap s b)) (read_collapsed (local_store s))) (panel_key (heap s u))"
  using restore_buttons_effect [OF assms(1) cframe_refl assms(4,3)] assms(2) by (simp add: restore_state_def)

section \<open>Collapse all\<close>

definition namespaces_ok :: "json obj \<Rightarrow> bool" where
  "namespaces_ok ms \<longleftrightarrow> list_all (\<lambda>e. case snd e of JObj _ \<Rightarrow> True | _ \<Rightarrow> False) ms"

text \<open>Local storage is there and what it holds, if anything, is what the script writes.\<close>

definition store_ok :: "collapse_page \<Rightarrow> bool" where
  "store_ok s \<longleftrightarrow> local_store s \<noteq> None \<and>
     (case read_collapsed (local_store s) of JObj ms \<Rightarrow> wf_json (JObj ms) \<and> namespaces_ok ms | _ \<Rightarrow> False)"

lemma store_okE:
  assumes "store_ok s"
  obtains ms where "read_collapsed (local_store s) = JObj ms" and "wf_json (JObj ms)" and "namespaces_ok ms"
  using assms by (auto simp: store_ok_def split: json.splits)

lemma read_write_collapsed:
  "wf_json v \<Longrightarrow> truthy v \<Longrightarrow> st \<noteq> None \<Longrightarrow> read_collapsed (write_collapsed v st) = v"
  using json_round_trip [of v] by (auto simp: read_collapsed_def write_collapsed_def get_set_item)

lemma panel_key_prefix_of: "panel_key e = Some k \<Longrightarrow> k \<noteq> default_state_key"
proof
  assume "panel_key e = Some k" and d: "k = default_state_key"
  then have "starts_with panel_key_prefix default_state_key" by (auto simp: panel_key_def find_Some_iff)
  moreover have "\<not> starts_with panel_key_prefix default_state_key" by code_simp
  ultimately show False by simp
qed

lemma stored_default:
  "d \<noteq> [] \<Longrightarrow> key \<noteq> Some default_state_key \<Longrightarrow>
   stored_expanded (JObj [(default_state_key, JStr d)]) key = (d = ''expanded'')"
  by (auto simp: stored_expanded_def Let_def split: option.split)

text \<open>
  After a click on "Collapse All" or "Expand All", every page that is restored from the
  saved state shows every group of that target selector in the state the button offered,
  also groups that were not on the page of the click.
\<close>

theorem collapse_all_governs_all_groups:
  assumes "store_ok s" and "closest s toggle_all_sel x = Some b"
    and "local_store t = local_store (final_state (on_click_collapse x s))"
    and "stable_selectors t" and "c \<in> set (toggle_all_buttons t)" and "u \<in> set (panels_of t c)"
    and "\<forall>c' \<in> set (toggle_all_buttons t). u \<in> set (panels_of t c') \<longrightarrow> c' = c"
    and "target_selector (heap t c) = target_selector (heap s b)"
  shows "is_shown (heap (restore_state t) u) = (get_attr ''aria-expanded'' (heap s b) \<noteq> Some ''true'')"
proof -
  let ?expand = "get_attr ''aria-expanded'' (heap s b) \<noteq> Some ''true''"
  let ?d = "if ?expand then ''expanded'' else ''collapsed''" and ?ns = "target_selector (heap s b)"
  obtain ms where ms: "read_collapsed (local_store s) = JObj ms" and wf: "wf_json (JObj ms)"
    using assms(1) by (rule store_okE)
  let ?v = "JObj (oset ?ns (JObj [(default_state_key, JStr ?d)]) ms)"
  have "local_store (final_state (on_click_collapse x s)) = write_collapsed ?v (local_store s)"
    using assms(2) ms by (simp add: on_click_collapse_def reset_namespace_def Let_def schedule_save_def)
  moreover have "wf_json ?v" using wf by (intro wf_json_oset) simp_all
  moreover have "local_store s \<noteq> None" using assms(1) by (simp add: store_ok_def)
  ultimately have "read_collapsed (local_store t) = ?v" using assms(3) read_write_collapsed by simp
  then have n: "member_or_empty (target_selector (heap t c)) (read_collapsed (local_store t)) =
      JObj [(default_state_key, JStr ?d)]"
    using assms(8) by (simp add: member_or_empty_def)
  have "?d \<noteq> []" and "panel_key (heap t u) \<noteq> Some default_state_key" using panel_key_prefix_of by auto
  from stored_default [OF this] restore_shows_stored [OF assms(4,5,6,7)] n show ?thesis by auto
qed

section \<open>Saving\<close>

lemma fold_save_panel:
  assumes "\<forall>w \<in> set us. panel_key (heap s w) = Some k \<longrightarrow> panel_state (heap s w) = st"
  shows "oget (fold (save_panel s) us ms) k =
    (if \<exists>w \<in> set us. panel_key (heap s w) = Some k then Some (JStr st) else oget ms k)"
  using assms
proof (induction us arbitrary: ms)
  case (Cons u us)
  then have ih: "oget (fold (save_panel s) us (save_panel s u ms)) k =
    (if \<exists>w \<in> set us. panel_key (heap s w) = Some k then Some (JStr st) else oget (save_panel s u ms) k)" by simp
  have "oget (save_panel s u ms) k = (if panel_key (heap s u) = Some k then Some (JStr st) else oget ms k)"
    using Cons.prems by (auto simp: save_panel_def split: option.split)
  with ih show ?case by auto
qed simp

lemma wf_fold_save_panel: "wf_json (JObj ms) \<Longrightarrow> wf_json (JObj (fold (save_panel s) us ms))"
proof (induction us arbitrary: ms)
  case (Cons u us)
  have "wf_json (JObj (save_panel s u ms))"
    using Cons.prems
    by (cases "panel_key (heap s u)") (simp_all add: save_panel_def wf_json_oset [OF Cons.prems] del: wf_json.simps(2))
  from Cons.IH [OF this] show ?case by simp
qed simp

definition namespace_of :: "json obj \<Rightarrow> string \<Rightarrow> json obj" where
  "namespace_of ms ns = (case oget ms ns of Some (JObj xs) \<Rightarrow> xs | _ \<Rightarrow> [])"

lemma save_namespace_eq:
  assumes "wf_json (JObj ms)" and "namespaces_ok ms"
  shows "save_namespace s b (JObj ms) = Some (JObj (oset (target_selector (heap s b))
      (JObj (fold (save_panel s) (panels_of s b) (namespace_of ms (target_selector (heap s b))))) ms))"
    and "wf_json (JObj (namespace_of ms ns))"
proof -
  have o: "\<exists>xs. v = JObj xs \<and> wf_json (JObj xs)" if "oget ms k = Some v" for k v
  proof -
    have "wf_json v" using that assms(1) wf_json_oget [of ms k v] by simp
    moreover have "case v of JObj _ \<Rightarrow> True | _ \<Rightarrow> False"
      using map_of_SomeD [OF that] assms(2) by (fastforce simp: namespaces_ok_def list_all_iff)
    ultimately show ?thesis by (cases v) simp_all
  qed
  then show "wf_json (JObj (namespace_of ms ns))"
    by (cases "oget ms ns") (fastforce simp: namespace_of_def)+
  have "ospread [] (own_entries (Some (member_or_empty k (JObj ms)))) = namespace_of ms k" for k
    using o [of k] ospread_fresh [of "[]"]
    by (cases "oget ms k") (fastforce simp: namespace_of_def member_or_empty_def own_entries_def)+
  then show "save_namespace s b (JObj ms) = Some (JObj (oset (target_selector (heap s b))
      (JObj (fold (save_panel s) (panels_of s b) (namespace_of ms (target_selector (heap s b))))) ms))"
    by (simp add: save_namespace_def Let_def)
qed

lemma namespaces_ok_oset: "namespaces_ok ms \<Longrightarrow> namespaces_ok (oset k (JObj xs) ms)"
  by (induction ms) (auto simp: namespaces_ok_def)

lemma save_all_effect:
  assumes "wf_json (JObj ms)" and "namespaces_ok ms" and "distinct (map (\<lambda>b. target_selector (heap s b)) bs)"
  shows "\<exists>ms'. save_all s bs (JObj ms) = Some (JObj ms') \<and> wf_json (JObj ms') \<and>
    (\<forall>ns. ns \<notin> (\<lambda>b. target_selector (heap s b)) ` set bs \<longrightarrow> oget ms' ns = oget ms ns) \<and>
    (\<forall>b \<in> set bs. oget ms' (target_selector (heap s b)) =
       Some (JObj (fold (save_panel s) (panels_of s b) (namespace_of ms (target_selector (heap s b))))))"
  using assms
proof (induction bs arbitrary: ms)
  case (Cons b bs)
  let ?sel = "\<lambda>b. target_selector (heap s b)"
  note e = save_namespace_eq [OF Cons.prems(1,2)]
  let ?ms = "oset (?sel b) (JObj (fold (save_panel s) (panels_of s b) (namespace_of ms (?sel b)))) ms"
  have "wf_json (JObj ?ms)" by (intro wf_json_oset Cons.prems(1) wf_fold_save_panel e(2))
  moreover have "namespaces_ok ?ms" using Cons.prems(2) by (rule namespaces_ok_oset)
  ultimately obtain ms' where ms': "save_all s bs (JObj ?ms) = Some (JObj ms')" "wf_json (JObj ms')"
    "\<forall>ns. ns \<notin> ?sel ` set bs \<longrightarrow> oget ms' ns = oget ?ms ns"
    "\<forall>c \<in> set bs. oget ms' (?sel c) = Some (JObj (fold (save_panel s) (panels_of s c) (namespace_of ?ms (?sel c))))"
    using Cons.IH [of ?ms] Cons.prems(3) by auto
  have b: "?sel b \<notin> ?sel ` set bs" using Cons.prems(3) by simp
  have "namespace_of ?ms (?sel c) = namespace_of ms (?sel c)" if "c \<in> set bs" for c
  proof -
    have "?sel c \<noteq> ?sel b" using that b by (metis imageI)
    then show ?thesis by (simp add: namespace_of_def)
  qed
  with ms' b e(1) show ?case by (intro exI [of _ ms']) (auto simp del: wf_json.simps(2))
qed simp

text \<open>
  C13: What is saved in an animation frame is what a later page restores: a group with a key
  is shown there exactly when it was shown when the state was saved.
\<close>

theorem restored_as_saved:
  assumes "store_ok s" and "distinct (map (\<lambda>b. target_selector (heap s b)) (toggle_all_buttons s))"
    and "b \<in> set (toggle_all_buttons s)" and "w \<in> set (panels_of s b)" and "panel_key (heap s w) = Some k"
    and "\<And>v. v \<in> set (panels_of s b) \<Longrightarrow> panel_key (heap s v) = Some k \<Longrightarrow> is_shown (heap s v) = is_shown (heap s w)"
    and "local_store t = local_store (final_state (save_state s))"
    and "stable_selectors t" and "c \<in> set (toggle_all_buttons t)" and "u \<in> set (panels_of t c)"
    and "\<forall>c' \<in> set (toggle_all_buttons t). u \<in> set (panels_of t c') \<longrightarrow> c' = c"
    and "target_selector (heap t c) = target_selector (heap s b)" and "panel_key (heap t u) = Some k"
  shows "is_shown (heap (restore_state t) u) = is_shown (heap s w)"
proof -
  let ?ns = "target_selector (heap s b)"
  obtain ms where ms: "read_collapsed (local_store s) = JObj ms" and wf: "wf_json (JObj ms)" and no: "namespaces_ok ms"
    using assms(1) by (rule store_okE)
  obtain ms' where sv: "save_all s (toggle_all_buttons s) (JObj ms) = Some (JObj ms')" and wf': "wf_json (JObj ms')"
    and g: "oget ms' ?ns = Some (JObj (fold (save_panel s) (panels_of s b) (namespace_of ms ?ns)))"
    using save_all_effect [OF wf no assms(2)] assms(3) by blast
  have "local_store (final_state (save_state s)) = write_collapsed (JObj ms') (local_store s)"
    by (simp add: save_state_def ms sv)
  moreover have "local_store s \<noteq> None" using assms(1) by (simp add: store_ok_def)
  ultimately have "read_collapsed (local_store t) = JObj ms'"
    using assms(7) read_write_collapsed [OF wf'] by simp
  then have n: "member_or_empty (target_selector (heap t c)) (read_collapsed (local_store t)) =
      JObj (fold (save_panel s) (panels_of s b) (namespace_of ms ?ns))"
    using assms(12) g by (simp add: member_or_empty_def)
  have "\<forall>v \<in> set (panels_of s b). panel_key (heap s v) = Some k \<longrightarrow> panel_state (heap s v) = panel_state (heap s w)"
    using assms(6) by (simp add: panel_state_def)
  from fold_save_panel [OF this, of "namespace_of ms ?ns"] assms(4,5)
  have "oget (fold (save_panel s) (panels_of s b) (namespace_of ms ?ns)) k = Some (JStr (panel_state (heap s w)))" by auto
  then have "stored_expanded (JObj (fold (save_panel s) (panels_of s b) (namespace_of ms ?ns))) (Some k) = is_shown (heap s w)"
    by (simp add: stored_expanded_def Let_def panel_state_def)
  with restore_shows_stored [OF assms(8-11)] n assms(13) show ?thesis by simp
qed

section \<open>The label\<close>

text \<open>
  The label of a button follows its groups at the extremes and keeps the action it was
  offering in a mixed state and while there are no groups.
\<close>

theorem label_follows_extremes:
  "let us = panels_of s b; e' = heap (sync_button b s) b in
    (us \<noteq> [] \<and> (\<forall>u \<in> set us. \<not> is_shown (heap s u)) \<longrightarrow>
       get_attr ''aria-expanded'' e' = Some ''false'' \<and> inner e' = ''Expand All Groups'') \<and>
    (us \<noteq> [] \<and> (\<forall>u \<in> set us. is_shown (heap s u)) \<longrightarrow>
       get_attr ''aria-expanded'' e' = Some ''true'' \<and> inner e' = ''Collapse All Groups'') \<and>
    ((\<exists>u \<in> set us. is_shown (heap s u)) \<and> (\<exists>u \<in> set us. \<not> is_shown (heap s u)) \<or> us = [] \<longrightarrow>
       sync_button b s = s)"
  by (cases "panels_of s b") (auto simp: sync_button_def Let_def relabel_def list_all_iff show_bool_def)

section \<open>A page on which the hypotheses hold\<close>

definition demo_collapse :: "storage \<Rightarrow> bool \<Rightarrow> collapse_page" where
  "demo_collapse st b =
     \<lparr>doc = Node 0 [Node 2 [], Node 3 [], Node 4 []],
      heap = (\<lambda>u. if u = 2 then (new_elem ''BUTTON'')\<lparr>attrs := [(''data-nb-toggle'', ''collapse-all''), (''aria-expanded'', ''true'')]\<rparr>
        else if u = 3 then (new_elem ''TR'')\<lparr>classes := [''collapseme-x''] @ (if b then [''show''] else [])\<rparr>
        else new_elem ''TR''),
      focus = None, local_store = st, scheduled = False, frames_pending = 0, requested = [],
      select_all = (\<lambda>q t h. filter (\<lambda>u. has_class ''collapseme-x'' (h u)) (preorder t))\<rparr>"

lemma demo_stable: "stable_selectors (demo_collapse st b)"
  by (auto simp: stable_selectors_def demo_collapse_def untouched_def intro!: filter_cong)

theorem one_save_per_repaint_witness:
  "frames_pending (fold handle_collapse [Bootstrap_Done 3 True, Bootstrap_Done 4 False] (demo_collapse None False)) \<le> 1"
proof -
  have h: "frames_ok (demo_collapse None False)" by code_simp
  show ?thesis using one_save_per_repaint [OF h] by blast
qed

theorem collapse_all_governs_all_groups_witness:
  "\<not> is_shown (heap (restore_state (demo_collapse
     (local_store (final_state (on_click_collapse 2 (demo_collapse (Some Map.empty) False)))) True)) 3)"
proof -
  let ?s = "demo_collapse (Some Map.empty) False"
  let ?t = "demo_collapse (local_store (final_state (on_click_collapse 2 ?s))) True"
  have ok: "store_ok ?s" by (simp add: store_ok_def demo_collapse_def read_collapsed_def get_item_def namespaces_ok_def)
  have c: "closest ?s toggle_all_sel 2 = Some 2" by code_simp
  have l: "local_store ?t = local_store (final_state (on_click_collapse 2 ?s))" by (simp add: demo_collapse_def)
  have bt: "toggle_all_buttons ?t = [2]" and p: "panels_of ?t 2 = [3]"
    by (simp_all add: toggle_all_buttons_def panels_of_def doc_qsa_def demo_collapse_def toggle_all_sel_def
        get_attr_def has_class_def new_elem_def)
  have m: "2 \<in> set (toggle_all_buttons ?t)" "3 \<in> set (panels_of ?t 2)"
    "\<forall>c' \<in> set (toggle_all_buttons ?t). 3 \<in> set (panels_of ?t c') \<longrightarrow> c' = 2" by (simp_all add: bt p)
  have e: "target_selector (heap ?t 2) = target_selector (heap ?s 2)"
    and a: "get_attr ''aria-expanded'' (heap ?s 2) = Some ''true''"
    by (simp_all add: demo_collapse_def get_attr_def)
  show ?thesis using collapse_all_governs_all_groups [OF ok c l demo_stable m e] a by simp
qed

theorem restored_as_saved_witness:
  "is_shown (heap (restore_state (demo_collapse
     (local_store (final_state (save_state (demo_collapse (Some Map.empty) True)))) False)) 3)"
proof -
  let ?s = "demo_collapse (Some Map.empty) True"
  let ?t = "demo_collapse (local_store (final_state (save_state ?s))) False"
  have ok: "store_ok ?s" by (simp add: store_ok_def demo_collapse_def read_collapsed_def get_item_def namespaces_ok_def)
  have l: "local_store ?t = local_store (final_state (save_state ?s))" by (simp add: demo_collapse_def)
  have bt: "toggle_all_buttons (demo_collapse st b) = [2]" and p: "panels_of (demo_collapse st b) 2 = [3]" for st b
    by (simp_all add: toggle_all_buttons_def panels_of_def doc_qsa_def demo_collapse_def toggle_all_sel_def
        get_attr_def has_class_def new_elem_def)
  have k: "panel_key (heap (demo_collapse st b) 3) = Some ''collapseme-x''" for st b
    by (simp add: panel_key_def demo_collapse_def panel_key_prefix_def)
  have e: "target_selector (heap ?t 2) = target_selector (heap ?s 2)" by (simp add: demo_collapse_def)
  have shown: "is_shown (heap ?s 3)" by (simp add: demo_collapse_def is_shown_def has_class_def)
  have d: "distinct (map (\<lambda>b. target_selector (heap ?s b)) (toggle_all_buttons ?s))"
    "2 \<in> set (toggle_all_buttons ?s)" "3 \<in> set (panels_of ?s 2)" by (simp_all add: bt p)
  have same: "is_shown (heap ?s v) = is_shown (heap ?s 3)" if "v \<in> set (panels_of ?s 2)" for v
    using that by (simp add: p)
  have m: "2 \<in> set (toggle_all_buttons ?t)" "3 \<in> set (panels_of ?t 2)"
    "\<forall>c' \<in> set (toggle_all_buttons ?t). 3 \<in> set (panels_of ?t c') \<longrightarrow> c' = 2" by (simp_all add: bt p)
  show ?thesis using restored_as_saved [OF ok d k same l demo_stable m e k] shown by simp
qed

theorem label_follows_extremes_witness:
  "inner (heap (sync_button 2 (demo_collapse None False)) 2) = ''Expand All Groups''"
proof -
  let ?s = "demo_collapse None False"
  have "panels_of ?s 2 = [3]" and "\<not> is_shown (heap ?s 3)" by code_simp+
  with label_follows_extremes [of ?s 2] show ?thesis by (simp add: Let_def)
qed

end
