(* ===== verification/Subtree.thy ===== *)
theory Subtree
  imports Dom
begin

text \<open>
  Expandable rows in hierarchical tables: \<open>nautobot/ui/src/js/tree.js\<close>. A table is the list
  of its rows; a row has the primary key and the \<open>nb-subtree\<close> marks of its tree cell, as
  many as its depth, the last of which may be the caret. The search parameters of the
  address remember which subtrees are expanded.
\<close>

section \<open>State\<close>

record trow =
  is_tree :: bool
  row_pk :: "string option"
  marks :: "elem list"

record tree_page =
  rows :: "trow list"
  params :: "(string \<times> string) list"
  clicked :: "nat list"

definition row_depth :: "trow \<Rightarrow> nat" where
  "row_depth r = (if is_tree r then length (marks r) else 0)"

definition pk_text :: "string option \<Rightarrow> string" where
  "pk_text pk = (case pk of None \<Rightarrow> ''null'' | Some t \<Rightarrow> t)"

definition delete_param :: "string \<Rightarrow> string \<Rightarrow> (string \<times> string) list \<Rightarrow> (string \<times> string) list" where
  "delete_param k v ps = filter (\<lambda>p. p \<noteq> (k, v)) ps"

definition caret_sel :: "elem \<Rightarrow> bool" where
  "caret_sel e \<longleftrightarrow> has_class ''nb-subtree-expandable'' e"

definition caret_index :: "trow \<Rightarrow> int" where
  "caret_index r = find_index caret_sel (marks r)"

definition upd_mark :: "nat \<Rightarrow> (elem \<Rightarrow> elem) \<Rightarrow> trow \<Rightarrow> trow" where
  "upd_mark j f r = r\<lparr>marks := (marks r)[j := f (marks r ! j)]\<rparr>"

definition upd_row :: "nat \<Rightarrow> (trow \<Rightarrow> trow) \<Rightarrow> tree_page \<Rightarrow> tree_page" where
  "upd_row i f s = s\<lparr>rows := (rows s)[i := f (rows s ! i)]\<rparr>"

section \<open>Collapsing\<close>

text \<open>\<open>el.setAttribute(a, el.getAttribute(b))\<close>: a missing attribute is written as "null".\<close>

definition copy_attr :: "string \<Rightarrow> string \<Rightarrow> elem \<Rightarrow> elem" where
  "copy_attr a b e = set_attr a (pk_text (get_attr b e)) e"

text \<open>The loop: while the next row is deeper, forget its key and remove it.\<close>

fun remove_deeper :: "nat \<Rightarrow> trow list \<Rightarrow> (string \<times> string) list \<Rightarrow> trow list \<times> (string \<times> string) list" where
  "remove_deeper n [] ps = ([], ps)"
| "remove_deeper n (r # rs) ps =
     (if row_depth r > n
      then remove_deeper n rs (delete_param ''expanded_subtree'' (pk_text (row_pk r)) ps)
      else (r # rs, ps))"

definition collapsed_caret :: "elem \<Rightarrow> elem" where
  "collapsed_caret e =
     copy_attr ''hx-get'' ''_hx-get''
       (set_attr ''aria-expanded'' ''false'' (class_toggle ''nb-subtree-expanded'' (Some False) e))"

definition collapse_subtree :: "nat \<Rightarrow> nat \<Rightarrow> tree_page \<Rightarrow> tree_page" where
  "collapse_subtree i j s =
     (let r = rows s ! i;
          (rest, ps) = remove_deeper (length (marks r)) (drop (Suc i) (rows s)) (params s);
          s1 = s\<lparr>rows := take (Suc i) (rows s) @ rest\<rparr>;
          s2 = upd_row i (upd_mark j collapsed_caret) s1
      in s2\<lparr>params := delete_param ''expanded_subtree'' (pk_text (row_pk r)) ps\<rparr>)"

section \<open>Expanding\<close>

definition expanded_caret :: "elem \<Rightarrow> elem" where
  "expanded_caret e =
     remove_attr ''hx-get''
       (copy_attr ''_hx-get'' ''hx-get''
         (set_attr ''aria-expanded'' ''true'' (class_toggle ''nb-subtree-expanded'' (Some True) e)))"

definition after_subtree_expansion :: "nat \<Rightarrow> nat \<Rightarrow> bool \<Rightarrow> tree_page \<Rightarrow> tree_page" where
  "after_subtree_expansion i j add s =
     (let s1 = upd_row i (upd_mark j expanded_caret) s;
          pk = pk_text (row_pk (rows s ! i))
      in if add
         then s1\<lparr>params := delete_param ''expanded_subtree'' pk (params s1) @ [(''expanded_subtree'', pk)]\<rparr>
         else s1)"

definition next_depth :: "tree_page \<Rightarrow> nat \<Rightarrow> nat option" where
  "next_depth s i = (if Suc i < length (rows s) then Some (row_depth (rows s ! Suc i)) else None)"

definition maybe_add_caret :: "nat \<Rightarrow> tree_page \<Rightarrow> tree_page" where
  "maybe_add_caret i s =
     (let r = rows s ! i; n = length (marks r); j = caret_index r in
      if j < 0 then s
      else (let s1 = upd_row i (upd_mark (nat j)
                  (set_attr ''hx-on:htmx:after-on-load'' ''window.nb.afterSubtreeExpansion(this, true)'')) s
            in case next_depth s1 i of
                 None \<Rightarrow> s1
               | Some d \<Rightarrow> if d > n then after_subtree_expansion i (nat j) False s1 else s1))"

section \<open>Connectors\<close>

text \<open>The depth of the first following row that is not deeper than a bound.\<close>

fun skip_deeper :: "nat \<Rightarrow> trow list \<Rightarrow> nat option" where
  "skip_deeper n [] = None"
| "skip_deeper n (r # rs) = (if row_depth r > n then skip_deeper n rs else Some (row_depth r))"

definition connector :: "nat \<Rightarrow> trow list \<Rightarrow> string \<Rightarrow> string \<Rightarrow> elem \<Rightarrow> elem" where
  "connector n rs yes no e =
     (case skip_deeper n rs of
        None \<Rightarrow> class_toggle yes (Some True) e
      | Some d \<Rightarrow> if d = n then class_toggle yes (Some True) e else class_toggle no (Some True) e)"

definition is_last_caret :: "trow \<Rightarrow> bool" where
  "is_last_caret r =
     (case js_at (-1) (marks r) of
        None \<Rightarrow> False
      | Some e \<Rightarrow> has_class ''nb-subtree-expandable'' e \<or> has_class ''nb-subtree-not-expandable'' e)"

definition fixup_display :: "nat \<Rightarrow> tree_page \<Rightarrow> tree_page" where
  "fixup_display i s =
     (let r = rows s ! i; depth = length (marks r);
          expandable = is_last_caret r;
          m = (if expandable then depth - 1 else depth);
          rest = drop (Suc i) (rows s);
          s1 = fold (\<lambda>k. upd_row i (upd_mark k (connector (if expandable then k + 2 else k + 1) rest
                 ''nb-subtree-ancestor-next-sibling'' ''nb-subtree-ancestor-no-next-sibling''))) [0..<m - 1] s
      in if m = 0 then s1
         else upd_row i (upd_mark (m - 1) (connector depth rest
                ''nb-subtree-next-sibling'' ''nb-subtree-no-next-sibling'')) s1)"

section \<open>Loading\<close>

definition tree_rows :: "tree_page \<Rightarrow> nat list" where
  "tree_rows s = filter (\<lambda>i. is_tree (rows s ! i)) [0..<length (rows s)]"

text \<open>The first row with that key whose caret is there and not expanded is clicked.\<close>

definition reopen :: "string \<Rightarrow> tree_page \<Rightarrow> tree_page" where
  "reopen pk s =
     (case filter (\<lambda>i. row_pk (rows s ! i) = Some pk \<and>
             list_ex (\<lambda>e. caret_sel e \<and> \<not> has_class ''nb-subtree-expanded'' e) (marks (rows s ! i)))
           [0..<length (rows s)] of
        [] \<Rightarrow> s
      | i # _ \<Rightarrow> s\<lparr>clicked := clicked s @ [i]\<rparr>)"

definition on_load_tree :: "tree_page \<Rightarrow> tree_page" where
  "on_load_tree s =
     (if tree_rows s = [] then s
      else fold reopen (map snd (filter (\<lambda>p. fst p = ''expanded_subtree'') (params s)))
             (fold (\<lambda>i t. fixup_display i (maybe_add_caret i t)) (tree_rows s) s))"

section \<open>Collapsing removes exactly the subtree\<close>

abbreviation deeper :: "nat \<Rightarrow> trow \<Rightarrow> bool" where
  "deeper n r \<equiv> row_depth r > n"

definition expanded_entry :: "trow \<Rightarrow> string \<times> string" where
  "expanded_entry r = (''expanded_subtree'', pk_text (row_pk r))"

lemma remove_deeper_eq:
  "remove_deeper n rs ps =
     (dropWhile (deeper n) rs, filter (\<lambda>p. p \<notin> expanded_entry ` set (takeWhile (deeper n) rs)) ps)"
proof (induction rs arbitrary: ps)
  case (Cons r rs)
  show ?case
  proof (cases "deeper n r")
    case True
    then have "remove_deeper n (r # rs) ps = remove_deeper n rs (delete_param ''expanded_subtree'' (pk_text (row_pk r)) ps)"
      by simp
    then show ?thesis
      unfolding Cons.IH using True
      by (auto simp: delete_param_def expanded_entry_def intro!: filter_cong)
  qed simp
qed simp

lemma upd_mark_simps [simp]:
  "is_tree (upd_mark j f r) = is_tree r" "row_pk (upd_mark j f r) = row_pk r"
  "length (marks (upd_mark j f r)) = length (marks r)" "row_depth (upd_mark j f r) = row_depth r"
  "expanded_entry (upd_mark j f r) = expanded_entry r"
  by (simp_all add: upd_mark_def row_depth_def expanded_entry_def)

lemma upd_row_simps [simp]:
  "length (rows (upd_row i f s)) = length (rows s)" "params (upd_row i f s) = params s"
  "clicked (upd_row i f s) = clicked s"
  "rows (upd_row i f s) = (rows s)[i := f (rows s ! i)]"
  by (simp_all add: upd_row_def)

lemma collapse_subtree_eq:
  assumes "i < length (rows s)"
  defines "r \<equiv> rows s ! i" and "rest \<equiv> drop (Suc i) (rows s)"
  shows "rows (collapse_subtree i j s) =
      take i (rows s) @ upd_mark j collapsed_caret r # dropWhile (deeper (length (marks r))) rest"
    and "params (collapse_subtree i j s) =
      filter (\<lambda>p. p \<notin> expanded_entry ` set (r # takeWhile (deeper (length (marks r))) rest)) (params s)"
proof -
  have t: "take (Suc i) (rows s) = take i (rows s) @ [r]" using assms by (simp add: take_Suc_conv_app_nth)
  show "rows (collapse_subtree i j s) =
      take i (rows s) @ upd_mark j collapsed_caret r # dropWhile (deeper (length (marks r))) rest"
    using assms(1) unfolding collapse_subtree_def Let_def
    by (simp add: remove_deeper_eq r_def [symmetric] rest_def [symmetric] t nth_append list_update_append)
  show "params (collapse_subtree i j s) =
      filter (\<lambda>p. p \<notin> expanded_entry ` set (r # takeWhile (deeper (length (marks r))) rest)) (params s)"
    unfolding collapse_subtree_def Let_def
    by (auto simp: remove_deeper_eq r_def [symmetric] rest_def [symmetric] delete_param_def expanded_entry_def intro!: filter_cong)
qed

text \<open>
  Collapsing a row removes exactly the rows below it up to the first that is not
  deeper, keeps all others in order, marks the caret as collapsed with its request
  restored, and drops from the address the keys of the row and of the removed rows only.
\<close>

theorem collapse_removes_exactly_subtree:
  assumes "i < length (rows s)" and "j < length (marks (rows s ! i))"
    and "rows s = pre @ r # sub @ post" and "length pre = i"
    and "\<forall>x \<in> set sub. row_depth x > length (marks r)"
    and "post = [] \<or> row_depth (hd post) \<le> length (marks r)"
  shows "let s' = collapse_subtree i j s; c = marks (rows s' ! i) ! j in
    rows s' = pre @ (r\<lparr>marks := (marks r)[j := c]\<rparr>) # post \<and>
    \<not> has_class ''nb-subtree-expanded'' c \<and> get_attr ''aria-expanded'' c = Some ''false'' \<and>
    get_attr ''hx-get'' c = Some (pk_text (get_attr ''_hx-get'' (marks r ! j))) \<and>
    params s' = filter (\<lambda>p. p \<notin> expanded_entry ` set (r # sub)) (params s)"
proof -
  have r: "rows s ! i = r" "drop (Suc i) (rows s) = sub @ post" "take i (rows s) = pre" using assms(3,4) by auto
  have d: "dropWhile (deeper (length (marks r))) post = post" using assms(6) by (cases post) auto
  have t: "takeWhile (deeper (length (marks r))) post = []" using assms(6) by (cases post) auto
  have rows: "rows (collapse_subtree i j s) = pre @ upd_mark j collapsed_caret r # post"
    using collapse_subtree_eq(1) [OF assms(1), of j] assms(5) d
    unfolding r by (simp add: dropWhile_append2)
  have params: "params (collapse_subtree i j s) = filter (\<lambda>p. p \<notin> expanded_entry ` set (r # sub)) (params s)"
    using collapse_subtree_eq(2) [OF assms(1), of j] assms(5) t
    unfolding r by (simp add: takeWhile_append2)
  have "marks (rows (collapse_subtree i j s) ! i) ! j = collapsed_caret (marks r ! j)"
    using rows assms(2,4) r(1) by (simp add: upd_mark_def nth_append)
  with rows params show ?thesis
    by (simp add: Let_def upd_mark_def collapsed_caret_def copy_attr_def)
qed

text \<open>
  C15: Expanding a row (its children arrive after it, the caret is marked) and collapsing it
  again restores the table: the same rows, the caret collapsed with the request it had,
  and no entry of the address lost but those of the row and its children.
\<close>

theorem expand_collapse_round_trip:
  assumes "rows s = pre @ r # post" and "length pre = i" and "j < length (marks r)"
    and "post = [] \<or> row_depth (hd post) \<le> length (marks r)"
    and "\<forall>x \<in> set children. row_depth x > length (marks r)"
    and "get_attr ''hx-get'' (marks r ! j) = Some u"
  shows "let s1 = s\<lparr>rows := pre @ r # children @ post\<rparr>;
      s2 = after_subtree_expansion i j True s1; s3 = collapse_subtree i j s2; c = marks (rows s3 ! i) ! j in
    rows s3 = pre @ (r\<lparr>marks := (marks r)[j := c]\<rparr>) # post \<and>
    get_attr ''hx-get'' c = Some u \<and> get_attr ''aria-expanded'' c = Some ''false'' \<and>
    \<not> has_class ''nb-subtree-expanded'' c \<and>
    List.count_list (params s2) (expanded_entry r) = 1 \<and>
    params s3 = filter (\<lambda>p. p \<notin> expanded_entry ` set (r # children)) (params s)"
proof -
  let ?s1 = "s\<lparr>rows := pre @ r # children @ post\<rparr>"
  let ?s2 = "after_subtree_expansion i j True ?s1"
  let ?r = "upd_mark j expanded_caret r"
  have rows2: "rows ?s2 = pre @ ?r # children @ post"
    using assms(2) by (simp add: after_subtree_expansion_def Let_def list_update_append nth_append)
  have params2: "params ?s2 = filter (\<lambda>p. p \<noteq> expanded_entry r) (params s) @ [expanded_entry r]"
    using assms(2) by (simp add: after_subtree_expansion_def Let_def delete_param_def expanded_entry_def nth_append)
  have i: "i < length (rows ?s2)" and r: "rows ?s2 ! i = ?r" "drop (Suc i) (rows ?s2) = children @ post" "take i (rows ?s2) = pre"
    using rows2 assms(2) by auto
  have n: "length (marks ?r) = length (marks r)" by simp
  have d: "dropWhile (deeper (length (marks r))) post = post" "takeWhile (deeper (length (marks r))) post = []"
    using assms(4) by (cases post, auto)+
  have rows3: "rows (collapse_subtree i j ?s2) = pre @ upd_mark j collapsed_caret ?r # post"
    using collapse_subtree_eq(1) [OF i, of j] assms(5) d unfolding r n by (simp add: dropWhile_append2)
  have params3: "params (collapse_subtree i j ?s2) =
      filter (\<lambda>p. p \<notin> expanded_entry ` set (r # children)) (params s)"
    using collapse_subtree_eq(2) [OF i, of j] assms(5) d unfolding r n params2
    by (auto simp: takeWhile_append2 intro!: filter_cong)
  have c: "marks (rows (collapse_subtree i j ?s2) ! i) ! j = collapsed_caret (expanded_caret (marks r ! j))"
    using rows3 assms(2,3) by (simp add: upd_mark_def nth_append)
  have one: "List.count_list (params ?s2) (expanded_entry r) = 1"
    by (simp add: params2 count_list_0_iff)
  show ?thesis
    unfolding Let_def c params3 one using rows3 assms(3,6)
    by (simp add: upd_mark_def collapsed_caret_def expanded_caret_def copy_attr_def pk_text_def)
qed

section \<open>A table on which the hypotheses hold\<close>

definition demo_caret :: elem where
  "demo_caret = (new_elem ''BUTTON'')\<lparr>classes := [''nb-subtree'', ''nb-subtree-expandable''],
     attrs := [(''hx-get'', ''/p/''), (''_hx-get'', ''/p/'')]\<rparr>"

definition demo_row :: "string \<Rightarrow> elem list \<Rightarrow> trow" where
  "demo_row pk ms = \<lparr>is_tree = True, row_pk = Some pk, marks = ms\<rparr>"

theorem collapse_removes_exactly_subtree_witness:
  "map row_pk (rows (collapse_subtree 0 0 \<lparr>rows = [demo_row ''a'' [demo_caret], demo_row ''b'' [demo_caret, demo_caret],
     demo_row ''c'' [demo_caret]], params = [(''expanded_subtree'', ''b''), (''q'', ''x'')], clicked = []\<rparr>)) =
   [Some ''a'', Some ''c'']"
proof -
  let ?a = "demo_row ''a'' [demo_caret]" and ?b = "demo_row ''b'' [demo_caret, demo_caret]" and ?c = "demo_row ''c'' [demo_caret]"
  let ?s = "\<lparr>rows = [?a, ?b, ?c], params = [(''expanded_subtree'', ''b''), (''q'', ''x'')], clicked = []\<rparr>"
  have h: "0 < length (rows ?s)" "0 < length (marks (rows ?s ! 0))" "rows ?s = [] @ ?a # [?b] @ [?c]" "length [] = 0"
    "\<forall>x \<in> set [?b]. row_depth x > length (marks ?a)" "[?c] = [] \<or> row_depth (hd [?c]) \<le> length (marks ?a)"
    by (simp_all add: demo_row_def row_depth_def)
  have "\<exists>c. rows (collapse_subtree 0 0 ?s) = [] @ (?a\<lparr>marks := (marks ?a)[0 := c]\<rparr>) # [?c]"
    using collapse_removes_exactly_subtree [OF h] unfolding Let_def by blast
  then show ?thesis by (auto simp: demo_row_def)
qed

theorem expand_collapse_round_trip_witness:
  "map row_pk (rows (collapse_subtree 0 0 (after_subtree_expansion 0 0 True \<lparr>rows = [demo_row ''a'' [demo_caret],
     demo_row ''b'' [demo_caret, demo_caret]], params = [], clicked = []\<rparr>))) = [Some ''a'']"
proof -
  let ?a = "demo_row ''a'' [demo_caret]" and ?b = "demo_row ''b'' [demo_caret, demo_caret]"
  let ?s = "\<lparr>rows = [?a], params = [], clicked = []\<rparr>"
  have h: "rows ?s = [] @ ?a # []" "length [] = 0" "0 < length (marks ?a)"
    "[] = [] \<or> row_depth (hd []) \<le> length (marks ?a)"
    "\<forall>x \<in> set [?b]. row_depth x > length (marks ?a)" "get_attr ''hx-get'' (marks ?a ! 0) = Some ''/p/''"
    by (simp_all add: demo_row_def row_depth_def demo_caret_def get_attr_def)
  have "\<exists>c. rows (collapse_subtree 0 0 (after_subtree_expansion 0 0 True (?s\<lparr>rows := [] @ ?a # [?b] @ []\<rparr>))) =
      [] @ (?a\<lparr>marks := (marks ?a)[0 := c]\<rparr>) # []"
    using expand_collapse_round_trip [OF h] unfolding Let_def by blast
  then show ?thesis by (auto simp: demo_row_def)
qed

end
