(* ===== verification/Search.thy ===== *)
theory Search
  imports Dom Json
begin

text \<open>
  The search popup of the header: \<open>nautobot/ui/src/js/search.js\<close>. The state is the text and
  cursor of the input, the badges (links of models to search in), the result list with its
  keyboard and mouse highlight, and the debounce timer. Fuzzy matching (fuse.js) and the
  requests (htmx) are third-party: a function of the environment and a log of requests.
\<close>

section \<open>The searchable models\<close>

text \<open>
  \<open>Object.entries\<close> of a member that may be missing throws; the menu of a page without the
  element \<open>nav_menu\<close>, or whose text does not parse, is the empty object.
\<close>

definition nav_menu :: "string option \<Rightarrow> json" where
  "nav_menu txt = (case txt of None \<Rightarrow> JObj [] | Some t \<Rightarrow> (case json_parse t of None \<Rightarrow> JObj [] | Some v \<Rightarrow> v))"

definition entries :: "json option \<Rightarrow> json obj option" where
  "entries v = (case v of None \<Rightarrow> None | Some JNull \<Rightarrow> None | Some w \<Rightarrow> Some (own_entries (Some w)))"

fun flat_entries :: "(string \<times> json \<Rightarrow> 'a list option) \<Rightarrow> json obj \<Rightarrow> 'a list option" where
  "flat_entries f [] = Some []"
| "flat_entries f (e # es) =
     (case f e of None \<Rightarrow> None | Some xs \<Rightarrow> (case flat_entries f es of None \<Rightarrow> None | Some ys \<Rightarrow> Some (xs @ ys)))"

definition member_entries :: "string \<Rightarrow> json \<Rightarrow> json obj option" where
  "member_entries k v = (if v = JNull then None else entries (jget k v))"

definition searchable_models :: "json \<Rightarrow> json obj option" where
  "searchable_models menu =
     (case member_entries ''tabs'' menu of
        None \<Rightarrow> None
      | Some tabs \<Rightarrow>
          map_option (ospread [])
            (flat_entries (\<lambda>tab.
               case member_entries ''groups'' (snd tab) of
                 None \<Rightarrow> None
               | Some groups \<Rightarrow> flat_entries (\<lambda>g. member_entries ''items'' (snd g)) groups) tabs))"

section \<open>State\<close>

datatype result_kind = Typeahead | Live

record ritem =
  kind :: result_kind
  active :: bool
  selected :: bool
  badge_link :: "string option"

record search_env =
  models :: "(string \<times> string) list"
  fuzzy :: "string \<Rightarrow> (string \<times> string) list"
  live_path :: string
  form_action :: string

record search =
  input_text :: string
  cursor :: "int \<times> int"
  badges :: "string list"
  results :: "ritem list"
  hidden :: bool
  spinning :: bool
  timer :: "string list option"
  requests :: "(string \<times> string) list"
  opened :: "ritem list"

definition max_badge_count :: nat where "max_badge_count = 1"
definition max_typeahead_result_count :: nat where "max_typeahead_result_count = 3"
definition min_live_phrase_length :: nat where "min_live_phrase_length = 3"

section \<open>The two regular expressions\<close>

text \<open>
  A regular expression is the list of the rests it can leave, in the order backtracking
  tries them. Model names are taken literally: they hold no metacharacters.
\<close>

fun ws_star :: "string \<Rightarrow> string list" where
  "ws_star [] = [[]]"
| "ws_star (c # r) = (if js_space c then ws_star r @ [c # r] else [c # r])"

definition ws_plus :: "string \<Rightarrow> string list" where
  "ws_plus s = (case s of [] \<Rightarrow> [] | c # r \<Rightarrow> if js_space c then ws_star r else [])"

definition literal :: "bool \<Rightarrow> string \<Rightarrow> string \<Rightarrow> string list" where
  "literal ignore_case w s =
     (if length w \<le> length s \<and>
         (if ignore_case then to_lower (take (length w) s) = to_lower w else take (length w) s = w)
      then [drop (length w) s] else [])"

definition in_separator :: "string \<Rightarrow> string list" where
  "in_separator s =
     (case s of
        [] \<Rightarrow> [[]]
      | c # r \<Rightarrow> if c = CHR '':'' \<or> js_space c then [r] else [])"

definition in_rests :: "bool \<Rightarrow> string \<Rightarrow> string list" where
  "in_rests ic s =
     concat (map (\<lambda>a. concat (map (\<lambda>b. concat (map (\<lambda>c. concat (map ws_star (in_separator c))) (ws_star b)))
       (literal ic ''in'' a))) (ws_star s))"

definition is_phrase_in :: "string \<Rightarrow> bool" where
  "is_phrase_in s \<longleftrightarrow> in_rests False s \<noteq> []"

fun collapse_spaces :: "string \<Rightarrow> string \<Rightarrow> string" where
  "collapse_spaces d [] = []"
| "collapse_spaces d (c # r) =
     (if js_space c then (case r of [] \<Rightarrow> d | e # _ \<Rightarrow> if js_space e then collapse_spaces d r else d @ collapse_spaces d r)
      else c # collapse_spaces d r)"

definition name_variants :: "(string \<times> string) list \<Rightarrow> string list" where
  "name_variants ms =
     (if ms = [] then [[]]
      else concat (map (\<lambda>m. [snd m, collapse_spaces [] (snd m), collapse_spaces ''_'' (snd m), collapse_spaces ''-'' (snd m)]) ms))"

text \<open>The rest and the text of the group of the first match.\<close>

definition badge_matches :: "(string \<times> string) list \<Rightarrow> string \<Rightarrow> (string \<times> string) list" where
  "badge_matches ms s =
     concat (map (\<lambda>a. concat (map (\<lambda>w. concat (map (\<lambda>b.
       map (\<lambda>c. (c, take (length w) a)) (ws_plus b)) (literal True w a))) (name_variants ms))) (in_rests True s))"

definition badge_match :: "(string \<times> string) list \<Rightarrow> string \<Rightarrow> (string \<times> string) option" where
  "badge_match ms s = first_of (badge_matches ms s)"

definition normalize :: "string \<Rightarrow> string" where
  "normalize t = filter (\<lambda>c. \<not> (js_space c \<or> c = CHR ''_'' \<or> c = CHR ''-'')) (to_lower (js_trim t))"

lemma ws_star_length: "t \<in> set (ws_star s) \<Longrightarrow> length t \<le> length s"
  by (induction s) (auto split: if_splits)

lemma in_separator_length: "t \<in> set (in_separator s) \<Longrightarrow> length t \<le> length s"
  by (auto simp: in_separator_def split: list.splits if_splits)

lemma literal_length: "t \<in> set (literal ic w s) \<Longrightarrow> length t \<le> length s"
  by (auto simp: literal_def split: if_splits)

lemma ws_plus_length: "t \<in> set (ws_plus s) \<Longrightarrow> length t < length s"
  using ws_star_length by (fastforce simp: ws_plus_def split: list.splits if_splits)

lemma in_rests_length: "t \<in> set (in_rests ic s) \<Longrightarrow> length t \<le> length s"
proof -
  assume "t \<in> set (in_rests ic s)"
  then obtain a b c d where "a \<in> set (ws_star s)" "b \<in> set (literal ic ''in'' a)" "c \<in> set (ws_star b)"
    "d \<in> set (in_separator c)" "t \<in> set (ws_star d)"
    unfolding in_rests_def set_concat set_map UN_iff image_iff bex_simps by blast
  then have "length a \<le> length s" "length b \<le> length a" "length c \<le> length b" "length d \<le> length c" "length t \<le> length d"
    by (simp_all add: ws_star_length in_separator_length literal_length)
  then show ?thesis by linarith
qed

lemma badge_match_length: "badge_match ms s = Some (rest, m) \<Longrightarrow> length rest < length s"
proof -
  assume "badge_match ms s = Some (rest, m)"
  then have "(rest, m) \<in> set (badge_matches ms s)" by (simp add: badge_match_def first_of_Some)
  then obtain a b w where "a \<in> set (in_rests True s)" "b \<in> set (literal True w a)" "rest \<in> set (ws_plus b)"
    by (auto simp: badge_matches_def)
  then have "length a \<le> length s" "length b \<le> length a" "length rest < length b"
    by (simp_all add: in_rests_length literal_length ws_plus_length)
  then show ?thesis by linarith
qed

section \<open>Badges and highlight\<close>

definition add_badge :: "string \<Rightarrow> search \<Rightarrow> search" where
  "add_badge link s =
     (let kept = filter (\<lambda>b. b \<noteq> link) (badges s); bs = kept @ [link]
      in s\<lparr>badges := drop (length bs - max_badge_count) bs\<rparr>)"

definition set_item :: "bool \<Rightarrow> bool \<Rightarrow> ritem \<Rightarrow> ritem" where
  "set_item act tentative i = i\<lparr>active := act, selected := tentative \<and> act\<rparr>"

text \<open>\<open>toggleResultItemActive(items.at(k), ...)\<close>; nothing happens out of range.\<close>

definition toggle_item_at :: "int \<Rightarrow> bool \<Rightarrow> bool \<Rightarrow> ritem list \<Rightarrow> ritem list" where
  "toggle_item_at k act tentative xs =
     (let n = int (length xs); j = (if k < 0 then n + k else k)
      in if 0 \<le> j \<and> j < n then xs[nat j := set_item act tentative (xs ! nat j)] else xs)"

definition show_results :: "search \<Rightarrow> search" where
  "show_results s = s\<lparr>hidden := False\<rparr>"

definition hide_results :: "search \<Rightarrow> search" where
  "hide_results s = s\<lparr>hidden := True, results := map (set_item False False) (results s)\<rparr>"

definition remove_results :: "result_kind \<Rightarrow> search \<Rightarrow> search" where
  "remove_results k s = s\<lparr>results := filter (\<lambda>i. kind i \<noteq> k) (results s)\<rparr>"

section \<open>Typing\<close>

definition typeahead_item :: "string \<times> string \<Rightarrow> ritem" where
  "typeahead_item m = \<lparr>kind = Typeahead, active = False, selected = False, badge_link = Some (fst m)\<rparr>"

definition begin_input :: "search \<Rightarrow> search" where
  "begin_input s = show_results ((remove_results Typeahead (s\<lparr>timer := None\<rparr>))\<lparr>spinning := False\<rparr>)"

definition model_link :: "search_env \<Rightarrow> string \<Rightarrow> string option" where
  "model_link env model = map_option fst (List.find (\<lambda>m. normalize (snd m) = normalize model) (models env))"

definition without_in :: "string \<Rightarrow> string" where
  "without_in s = (case first_of (in_rests False s) of None \<Rightarrow> s | Some r \<Rightarrow> r)"

function on_input_search :: "search_env \<Rightarrow> search \<Rightarrow> search" where
  "on_input_search env s =
     (let s1 = begin_input s in
      if badges s1 = [] \<and> is_phrase_in (input_text s1)
      then (case badge_match (models env) (input_text s1) of
              Some (rest, model) \<Rightarrow>
                (case model_link env model of
                   None \<Rightarrow> s1
                 | Some link \<Rightarrow> add_badge link (on_input_search env (s1\<lparr>input_text := rest\<rparr>)))
            | None \<Rightarrow>
                (let found = take max_typeahead_result_count (fuzzy env (without_in (input_text s1))) in
                 if found \<noteq> [] then s1\<lparr>results := results s1 @ map typeahead_item found\<rparr> else s1))
      else if badges s1 \<noteq> [] \<and> length (input_text s1) \<ge> min_live_phrase_length
      then s1\<lparr>spinning := True, timer := Some (badges s1)\<rparr>
      else remove_results Live s1)"
  by pat_completeness auto
termination
proof (relation "measure (\<lambda>(env, s). length (input_text s))")
  fix env :: search_env and s s1 :: search and x rest model link
  assume "s1 = begin_input s" and "badge_match (models env) (input_text s1) = Some x" and "(rest, model) = x"
  then show "((env, s1\<lparr>input_text := rest\<rparr>), (env, s)) \<in> measure (\<lambda>(env, s). length (input_text s))"
    using badge_match_length [of "models env" "input_text s1" rest model]
    by (simp add: begin_input_def show_results_def remove_results_def)
qed simp

definition replace_slashes :: "string \<Rightarrow> string \<Rightarrow> string" where
  "replace_slashes link path =
     (if ends_with ''/'' path then rev (dropWhile (\<lambda>c. c = CHR ''/'') (rev path)) @ link else path)"

definition on_timer :: "search_env \<Rightarrow> search \<Rightarrow> search" where
  "on_timer env s =
     (case timer s of
        None \<Rightarrow> s
      | Some links \<Rightarrow>
          s\<lparr>timer := None,
            requests := requests s @ map (\<lambda>l. (replace_slashes l (live_path env), input_text s)) links\<rparr>)"

definition click_result :: "search_env \<Rightarrow> ritem \<Rightarrow> search \<Rightarrow> search" where
  "click_result env i s =
     (case badge_link i of
        Some link \<Rightarrow> on_input_search env ((add_badge link s)\<lparr>input_text := []\<rparr>)
      | None \<Rightarrow> s\<lparr>opened := opened s @ [i]\<rparr>)"

section \<open>Keys and mouse\<close>

datatype key = ArrowDown | ArrowUp | ArrowLeft | ArrowRight | Enter | Escape | Backspace | Other

text \<open>\<open>a % n\<close> keeps the sign of \<open>a\<close>; \<open>items.at(NaN)\<close> is \<open>items.at(0)\<close>, \<open>undefined\<close> when empty.\<close>

definition js_mod :: "int \<Rightarrow> int \<Rightarrow> int" where
  "js_mod a n = (if n = 0 then 0 else if a < 0 then - ((- a) mod n) else a mod n)"

definition on_arrow :: "bool \<Rightarrow> search \<Rightarrow> search" where
  "on_arrow down s =
     (let items = results s; index = find_index active items;
          next_index = (if index < 0 then index + (if down then 1 else 0) else index + (if down then 1 else -1));
          target = js_mod next_index (int (length items))
      in s\<lparr>results := toggle_item_at target True True (toggle_item_at index False False items)\<rparr>)"

text \<open>
  \<open>badges.querySelector(':last-child')\<close> is the first descendant that is a last child: the
  badge when there is one, the remove button of the first badge when there are more.
\<close>

definition remove_last_child :: "string list \<Rightarrow> string list" where
  "remove_last_child bs = (case bs of [b] \<Rightarrow> [] | _ \<Rightarrow> bs)"

definition on_key :: "search_env \<Rightarrow> key \<Rightarrow> search \<Rightarrow> search" where
  "on_key env k s =
     (let showing = \<not> hidden s in
      if (k = ArrowDown \<or> k = ArrowUp) \<and> showing then on_arrow (k = ArrowDown) s
      else if (k = ArrowDown \<or> k = ArrowUp) \<and> \<not> showing then show_results s
      else if (k = ArrowLeft \<or> k = ArrowRight) \<and> showing
      then (let j = find_index selected (results s) in
            if j < 0 then s else s\<lparr>results := toggle_item_at j False False (results s)\<rparr>)
      else if k = Enter \<and> showing
      then (case List.find selected (results s) of None \<Rightarrow> s | Some i \<Rightarrow> click_result env i s)
      else if k = Escape \<and> showing then hide_results s
      else if k = Backspace \<and> cursor s = (0, 0)
      then s\<lparr>badges := remove_last_child (badges s)\<rparr>
      else s)"

definition on_mouse :: "nat option \<Rightarrow> search \<Rightarrow> search" where
  "on_mouse hovered s =
     (let j = find_index active (results s);
          xs = (if j < 0 then results s else toggle_item_at j False False (results s))
      in s\<lparr>results := (case hovered of None \<Rightarrow> xs | Some h \<Rightarrow> toggle_item_at (int h) True False xs)\<rparr>)"

text \<open>A response of htmx: old live results go, the new rows come first.\<close>

definition live_item :: ritem where
  "live_item = \<lparr>kind = Live, active = False, selected = False, badge_link = None\<rparr>"

definition on_swap :: "nat \<Rightarrow> search \<Rightarrow> search" where
  "on_swap n s = (let s1 = show_results (remove_results Live s) in s1\<lparr>results := replicate n live_item @ results s1\<rparr>)"

definition open_popup :: "string \<Rightarrow> string list \<Rightarrow> search" where
  "open_popup text header_badges =
     fold add_badge header_badges
       \<lparr>input_text = text, cursor = (int (length text), int (length text)), badges = [], results = [],
        hidden = False, spinning = False, timer = None, requests = [], opened = []\<rparr>"

definition submit_action :: "search_env \<Rightarrow> search \<Rightarrow> string" where
  "submit_action env s = (case badges s of [] \<Rightarrow> form_action env | _ \<Rightarrow> last (badges s))"

datatype search_event =
    Typed string "int \<times> int" | Cleared | Key key | Mouse "nat option" | Timer | Swap nat
  | Clicked nat | Input_Clicked | Badge_Removed string

definition handle_search :: "search_env \<Rightarrow> search_event \<Rightarrow> search \<Rightarrow> search" where
  "handle_search env ev s =
     (case ev of
        Typed t c \<Rightarrow> on_input_search env (s\<lparr>input_text := t, cursor := c\<rparr>)
      | Cleared \<Rightarrow> on_input_search env (s\<lparr>input_text := [], cursor := (0, 0)\<rparr>)
      | Key k \<Rightarrow> on_key env k s
      | Mouse h \<Rightarrow> on_mouse h s
      | Timer \<Rightarrow> on_timer env s
      | Swap n \<Rightarrow> on_swap n s
      | Clicked i \<Rightarrow> if i < length (results s) then click_result env (results s ! i) s else s
      | Input_Clicked \<Rightarrow> show_results s
      | Badge_Removed l \<Rightarrow> s\<lparr>badges := filter (\<lambda>b. b \<noteq> l) (badges s)\<rparr>)"

declare on_input_search.simps [simp del]

text \<open>A page without a menu has no searchable models: reading them throws.\<close>

lemma missing_menu_throws: "searchable_models (nav_menu None) = None"
  by (simp add: nav_menu_def searchable_models_def member_entries_def entries_def)

section \<open>The invariant of the popup\<close>

text \<open>
  At most one badge, at most one highlighted result, only a highlighted result is selected,
  and a pending request is for at most one model and a text that is long enough.
\<close>

definition one_active :: "ritem list \<Rightarrow> bool" where
  "one_active xs \<longleftrightarrow> length (filter active xs) \<le> 1 \<and> list_all (\<lambda>i. selected i \<longrightarrow> active i) xs"

definition search_ok :: "search \<Rightarrow> bool" where
  "search_ok s \<longleftrightarrow> length (badges s) \<le> max_badge_count \<and> one_active (results s) \<and>
     (case timer s of
        None \<Rightarrow> True
      | Some ls \<Rightarrow> length ls \<le> max_badge_count \<and> min_live_phrase_length \<le> length (input_text s))"

lemma one_active_filter: "one_active xs \<Longrightarrow> one_active (filter P xs)"
proof -
  assume a: "one_active xs"
  have "length (filter active (filter P xs)) \<le> length (filter active xs)"
    by (induction xs) auto
  with a show ?thesis by (auto simp: one_active_def list_all_iff)
qed

lemma one_active_append:
  "list_all (\<lambda>i. \<not> active i \<and> \<not> selected i) ys \<Longrightarrow> one_active xs \<Longrightarrow> one_active (xs @ ys) \<and> one_active (ys @ xs)"
proof -
  assume y: "list_all (\<lambda>i. \<not> active i \<and> \<not> selected i) ys" and x: "one_active xs"
  have "filter active ys = []" using y by (auto simp: list_all_iff filter_empty_conv)
  with x y show ?thesis by (auto simp: one_active_def list_all_iff)
qed

lemma one_active_cleared: "one_active (map (set_item False t) xs)"
proof -
  have "filter active (map (set_item False t) xs) = []" by (auto simp: filter_empty_conv set_item_def)
  then show ?thesis by (auto simp: one_active_def list_all_iff set_item_def)
qed

lemma one_active_iff:
  "one_active xs \<longleftrightarrow> (\<forall>i < length xs. \<forall>j < length xs. active (xs ! i) \<and> active (xs ! j) \<longrightarrow> i = j) \<and>
     (\<forall>i < length xs. selected (xs ! i) \<longrightarrow> active (xs ! i))"
proof -
  have c: "length (filter active xs) = card {i. i < length xs \<and> active (xs ! i)}"
    by (rule length_filter_conv_card)
  have f: "finite {i. i < length xs \<and> active (xs ! i)}" by simp
  show ?thesis
    unfolding one_active_def c list_all_length using card_le_Suc0_iff_eq [OF f] by auto
qed

lemma length_toggle_item [simp]: "length (toggle_item_at k a t xs) = length xs"
  by (simp add: toggle_item_at_def Let_def)

lemma toggle_item_nth:
  "0 \<le> k \<Longrightarrow> k < int (length xs) \<Longrightarrow> i < length xs \<Longrightarrow>
   toggle_item_at k a t xs ! i = (if int i = k then set_item a t (xs ! i) else xs ! i)"
  by (auto simp: toggle_item_at_def Let_def nth_list_update)

lemma toggle_item_at_eq:
  "0 \<le> g \<Longrightarrow> g < int (length xs) \<Longrightarrow> g = (if k < 0 then int (length xs) + k else k) \<Longrightarrow>
   toggle_item_at k a t xs = xs[nat g := set_item a t (xs ! nat g)]"
  by (simp add: toggle_item_at_def Let_def)

lemma toggle_item_last:
  "xs \<noteq> [] \<Longrightarrow> i < length xs \<Longrightarrow>
   toggle_item_at (-1) a t xs ! i = (if Suc i = length xs then set_item a t (xs ! i) else xs ! i)"
  by (auto simp: toggle_item_at_def Let_def nth_list_update nat_diff_distrib)

text \<open>Clearing the highlighted result leaves none highlighted.\<close>

lemma clear_active:
  assumes "one_active xs" and "i < length xs"
  shows "\<not> active (toggle_item_at (find_index active xs) False False xs ! i) \<and>
    \<not> selected (toggle_item_at (find_index active xs) False False xs ! i)"
proof (cases "find_index active xs < 0")
  case True
  then have n: "\<not> active (xs ! i)" using assms(2) by (simp add: find_index_neg_iff)
  moreover have "find_index active xs = -1" using True find_index_ge [of active xs] by simp
  moreover have "\<not> selected (xs ! i)" using assms n by (auto simp: one_active_iff)
  moreover have "xs \<noteq> []" using assms(2) by auto
  ultimately show ?thesis using assms(2) toggle_item_last [of xs i] by (auto simp: set_item_def)
next
  case False
  let ?k = "find_index active xs"
  have k: "0 \<le> ?k" "?k < int (length xs)" using False find_index_lt [of active xs] by auto
  have a: "active (xs ! nat ?k)" "nat ?k < length xs" using find_index_nth k by (blast, simp)
  have u: "\<forall>a < length xs. \<forall>b < length xs. active (xs ! a) \<and> active (xs ! b) \<longrightarrow> a = b"
    and se: "selected (xs ! i) \<longrightarrow> active (xs ! i)"
    using assms unfolding one_active_iff by blast+
  have "\<not> active (xs ! i)" if "int i \<noteq> ?k"
  proof
    assume "active (xs ! i)"
    with u a assms(2) have "i = nat ?k" by blast
    with that k(1) show False by simp
  qed
  with se show ?thesis unfolding toggle_item_nth [OF k assms(2)]
    by (cases "int i = ?k") (auto simp: set_item_def)
qed

lemma one_active_highlight:
  assumes "\<forall>i < length xs. \<not> active (xs ! i) \<and> \<not> selected (xs ! i)"
  shows "one_active (toggle_item_at k True t xs)"
proof -
  let ?j = "if k < 0 then int (length xs) + k else k"
  have "toggle_item_at k True t xs ! i = (if int i = ?j then set_item True t (xs ! i) else xs ! i)" if "i < length xs" for i
    using that by (auto simp: toggle_item_at_def Let_def nth_list_update)
  with assms show ?thesis by (auto simp: one_active_iff set_item_def split: if_splits)
qed

lemma one_active_dim: "one_active xs \<Longrightarrow> one_active (toggle_item_at k False t xs)"
  by (auto simp: one_active_iff toggle_item_at_def Let_def nth_list_update set_item_def)

lemma add_badge_effect:
  "badges (add_badge l s) = [l]" "results (add_badge l s) = results s" "timer (add_badge l s) = timer s"
  "input_text (add_badge l s) = input_text s" "requests (add_badge l s) = requests s"
  by (simp_all add: add_badge_def Let_def max_badge_count_def)

lemma begin_input_simps [simp]:
  "badges (begin_input s) = badges s" "input_text (begin_input s) = input_text s" "timer (begin_input s) = None"
  "requests (begin_input s) = requests s" "hidden (begin_input s) = False"
  "results (begin_input s) = filter (\<lambda>i. kind i \<noteq> Typeahead) (results s)"
  by (simp_all add: begin_input_def show_results_def remove_results_def)

lemma on_input_no_badge_timer: "badges s = [] \<Longrightarrow> timer (on_input_search env s) = None"
proof (induction env s rule: on_input_search.induct)
  case (1 env s)
  show ?case
    using 1 by (subst on_input_search.simps)
      (auto simp: Let_def add_badge_effect remove_results_def split: option.splits prod.splits)
qed

lemma search_ok_input:
  "length (badges s) \<le> max_badge_count \<Longrightarrow> one_active (results s) \<Longrightarrow>
   search_ok (on_input_search env s) \<and> requests (on_input_search env s) = requests s"
proof (induction env s rule: on_input_search.induct)
  case (1 env s)
  let ?s1 = "begin_input s"
  have o: "one_active (results ?s1)" using "1.prems"(2) by (simp add: one_active_filter)
  show ?case
  proof (cases "badges ?s1 = [] \<and> is_phrase_in (input_text ?s1)")
    case True
    show ?thesis
    proof (cases "badge_match (models env) (input_text ?s1)")
      case None
      have "list_all (\<lambda>i. \<not> active i \<and> \<not> selected i) (map typeahead_item found)" for found
        by (simp add: list_all_iff typeahead_item_def)
      with True None o show ?thesis
        using one_active_append by (subst (1 2) on_input_search.simps) (auto simp: Let_def search_ok_def)
    next
      case (Some x)
      obtain rest model where x: "x = (rest, model)" by (cases x)
      show ?thesis
      proof (cases "model_link env model")
        case None
        with True Some x o show ?thesis
          by (subst (1 2) on_input_search.simps) (auto simp: Let_def search_ok_def)
      next
        case (Some link)
        let ?r = "on_input_search env (?s1\<lparr>input_text := rest\<rparr>)"
        have e: "on_input_search env s = add_badge link ?r"
          using True \<open>badge_match _ _ = Some x\<close> x Some by (subst on_input_search.simps) (simp add: Let_def)
        have "search_ok ?r \<and> requests ?r = requests (?s1\<lparr>input_text := rest\<rparr>)"
          using "1.IH" [OF refl True \<open>badge_match _ _ = Some x\<close> x [symmetric] Some] True o by simp
        moreover have "timer ?r = None" by (rule on_input_no_badge_timer) (use True in simp)
        ultimately show ?thesis
          unfolding e by (simp add: search_ok_def add_badge_effect max_badge_count_def)
      qed
    qed
  next
    case False
    then show ?thesis
      using "1.prems" o one_active_filter
      by (subst (1 2) on_input_search.simps) (auto simp: Let_def search_ok_def remove_results_def)
  qed
qed

lemma search_ok_updates:
  "search_ok (s\<lparr>opened := os\<rparr>) = search_ok s" "search_ok (s\<lparr>hidden := b\<rparr>) = search_ok s"
  "search_ok s \<Longrightarrow> one_active xs \<Longrightarrow> search_ok (s\<lparr>results := xs\<rparr>)"
  "search_ok s \<Longrightarrow> length bs \<le> max_badge_count \<Longrightarrow> search_ok (s\<lparr>badges := bs\<rparr>)"
  "search_ok (s\<lparr>timer := None, requests := rs\<rparr>) = (length (badges s) \<le> max_badge_count \<and> one_active (results s))"
  by (simp_all add: search_ok_def split: option.splits)

lemma search_okD: "search_ok s \<Longrightarrow> one_active (results s)" "search_ok s \<Longrightarrow> length (badges s) \<le> max_badge_count"
  by (simp_all add: search_ok_def)

lemma search_ok_click: "search_ok s \<Longrightarrow> search_ok (click_result env i s) \<and> requests (click_result env i s) = requests s"
proof -
  assume ok: "search_ok s"
  show ?thesis
  proof (cases "badge_link i")
    case (Some l)
    let ?s = "(add_badge l s)\<lparr>input_text := []\<rparr>"
    have "length (badges ?s) \<le> max_badge_count" and "one_active (results ?s)"
      using ok by (simp_all add: search_ok_def add_badge_effect max_badge_count_def)
    from search_ok_input [OF this] Some show ?thesis by (simp add: click_result_def add_badge_effect)
  qed (use ok in \<open>simp add: click_result_def search_ok_updates\<close>)
qed

lemma search_ok_key: "search_ok s \<Longrightarrow> search_ok (on_key env k s)"
proof -
  assume ok: "search_ok s"
  have "length (remove_last_child (badges s)) \<le> max_badge_count"
    using search_okD(2) [OF ok] by (auto simp: remove_last_child_def split: list.split)
  moreover have "one_active (toggle_item_at t True True (toggle_item_at (find_index active (results s)) False False (results s)))" for t
    using clear_active [OF search_okD(1) [OF ok]] by (intro one_active_highlight) simp
  moreover have "search_ok (show_results s)" and "search_ok (hide_results s)"
    using ok one_active_cleared search_ok_updates(3) [where s = "s\<lparr>hidden := True\<rparr>"] search_ok_updates(2) [where s = s]
    by (simp_all add: show_results_def hide_results_def)
  ultimately show ?thesis
    using ok search_ok_click one_active_dim [OF search_okD(1) [OF ok]] search_ok_updates(3,4) [OF ok]
    by (simp add: on_key_def on_arrow_def Let_def split: option.split)
qed

lemma search_ok_mouse: "search_ok s \<Longrightarrow> search_ok (on_mouse h s)"
proof -
  assume ok: "search_ok s"
  note o = search_okD(1) [OF ok]
  let ?xs = "if find_index active (results s) < 0 then results s
    else toggle_item_at (find_index active (results s)) False False (results s)"
  have "one_active ?xs" using o one_active_dim by simp
  moreover have "\<forall>i < length ?xs. \<not> active (?xs ! i) \<and> \<not> selected (?xs ! i)"
  proof (cases "find_index active (results s) < 0")
    case True
    then have "\<forall>i < length (results s). \<not> active (results s ! i)" by (simp add: find_index_neg_iff)
    moreover have "\<forall>i < length (results s). selected (results s ! i) \<longrightarrow> active (results s ! i)"
      using o unfolding one_active_iff by blast
    ultimately show ?thesis using True by simp
  qed (use clear_active [OF o] in simp)
  then have "one_active (toggle_item_at j True False ?xs)" for j by (rule one_active_highlight)
  ultimately show ?thesis
    using search_ok_updates(3) [OF ok] unfolding on_mouse_def Let_def by (cases h) simp_all
qed

lemma search_ok_swap: "search_ok s \<Longrightarrow> search_ok (on_swap n s)"
proof -
  assume ok: "search_ok s"
  have "list_all (\<lambda>i. \<not> active i \<and> \<not> selected i) (replicate n live_item)"
    by (simp add: list_all_iff live_item_def)
  moreover have "one_active (filter (\<lambda>i. kind i \<noteq> Live) (results s))"
    using search_okD(1) [OF ok] by (rule one_active_filter)
  ultimately have "one_active (replicate n live_item @ filter (\<lambda>i. kind i \<noteq> Live) (results s))"
    using one_active_append by blast
  then show ?thesis
    using search_ok_updates(3) [where s = "s\<lparr>hidden := False\<rparr>"] search_ok_updates(2) [where s = s] ok
    by (simp add: on_swap_def Let_def show_results_def remove_results_def)
qed

lemma search_ok_typed:
  "search_ok s \<Longrightarrow> search_ok (on_input_search env (s\<lparr>input_text := t, cursor := c\<rparr>)) \<and>
   requests (on_input_search env (s\<lparr>input_text := t, cursor := c\<rparr>)) = requests s"
  using search_ok_input [of "s\<lparr>input_text := t, cursor := c\<rparr>" env] search_okD by simp

lemma search_ok_handle: "search_ok s \<Longrightarrow> search_ok (handle_search env ev s)"
proof (cases ev)
  case (Badge_Removed l)
  assume ok: "search_ok s"
  have "length (filter (\<lambda>b. b \<noteq> l) (badges s)) \<le> max_badge_count"
    using search_okD(2) [OF ok] order_trans length_filter_le by blast
  with ok show ?thesis by (simp add: Badge_Removed handle_search_def search_ok_updates)
qed (simp_all add: handle_search_def search_ok_typed search_ok_key search_ok_mouse search_ok_swap search_ok_click
  search_ok_updates search_okD on_timer_def show_results_def split: option.split)

interpretation popup_events: machine "handle_search env" search_ok for env
  using search_ok_handle by unfold_locales

text \<open>
  Whatever the user types, clicks, hovers or presses, and whatever responses arrive,
  there is at most one badge, at most one result is highlighted, and a result that Enter
  would choose is the highlighted one.
\<close>

theorem search_popup_consistent:
  assumes "search_ok s"
  shows "let t = fold (handle_search env) es s in
    length (badges t) \<le> 1 \<and> length (filter active (results t)) \<le> 1 \<and>
    (\<forall>i \<in> set (results t). selected i \<longrightarrow> active i)"
  using popup_events.run_inv [OF assms, of env es]
  by (auto simp: Let_def search_ok_def one_active_def list_all_iff max_badge_count_def)

section \<open>Keyboard navigation\<close>

text \<open>
  C16: With results showing, the down and up arrow keys move the selection one result on and
  wrap around at both ends; with none highlighted they start at the first and last. The
  chosen result is the only one highlighted and the only one selected.
\<close>

theorem arrows_wrap_around:
  assumes "search_ok s" and "\<not> hidden s" and "results s \<noteq> []" and "k \<in> {ArrowDown, ArrowUp}"
    and "i = find_index active (results s)" and "n = int (length (results s))"
  shows "let xs = results (on_key env k s);
      target = (if k = ArrowDown then (if i < 0 then 0 else (i + 1) mod n)
                else (if i < 0 then n - 1 else (i - 1) mod n)) in
    length xs = length (results s) \<and>
    (\<forall>j < length xs. active (xs ! j) = (int j = target) \<and> selected (xs ! j) = (int j = target))"
proof -
  let ?d = "k = ArrowDown"
  let ?ys = "toggle_item_at i False False (results s)"
  let ?next = "if i < 0 then i + (if ?d then 1 else 0) else i + (if ?d then 1 else -1)"
  let ?target = "if ?d then (if i < 0 then 0 else (i + 1) mod n) else (if i < 0 then n - 1 else (i - 1) mod n)"
  have n: "0 < n" using assms(3,6) by simp
  have i: "-1 \<le> i" "i < n" using find_index_ge find_index_lt assms(5,6) by auto
  have off: "\<forall>j < length (results s). \<not> active (?ys ! j) \<and> \<not> selected (?ys ! j)"
    using clear_active [of "results s"] assms(1,5) by (auto simp: search_ok_def)
  have res: "results (on_key env k s) = toggle_item_at (js_mod ?next n) True True ?ys"
    using assms(2,4,5,6) by (auto simp: on_key_def on_arrow_def Let_def)
  have t: "?target = (if js_mod ?next n < 0 then n + js_mod ?next n else js_mod ?next n)"
  proof (cases "?d \<or> 0 < i")
    case True
    have "\<not> (i + 1) mod n < 0" using pos_mod_sign [OF n, of "i + 1"] by linarith
    with True show ?thesis using n i by (auto simp: js_mod_def)
  next
    case False
    then have "?next = -1" and "?target = n - 1"
      using i n by (auto simp: zmod_minus1 dest!: order.antisym)
    then show ?thesis using n by (cases "n = 1") (auto simp: js_mod_def)
  qed
  define tg where "tg = ?target"
  have range: "0 \<le> tg" "tg < n" using n i unfolding tg_def by auto
  have "toggle_item_at (js_mod ?next n) True True ?ys = ?ys[nat tg := set_item True True (?ys ! nat tg)]"
    using range t assms(6) unfolding tg_def [symmetric] by (intro toggle_item_at_eq) simp_all
  then have res': "results (on_key env k s) = ?ys[nat tg := set_item True True (?ys ! nat tg)]" using res by simp
  have "active (?ys[nat tg := set_item True True (?ys ! nat tg)] ! j) = (int j = tg) \<and>
      selected (?ys[nat tg := set_item True True (?ys ! nat tg)] ! j) = (int j = tg)" if "j < length (results s)" for j
  proof (cases "int j = tg")
    case True
    then have "nat tg = j" by simp
    with that True show ?thesis by (simp add: set_item_def)
  next
    case False
    then have "nat tg \<noteq> j" using range(1) by auto
    with that False off show ?thesis by simp
  qed
  then show ?thesis
    unfolding Let_def res' tg_def [symmetric] by simp
qed

section \<open>Debouncing\<close>

lemma requests_handle: "search_ok s \<Longrightarrow> ev \<noteq> Timer \<Longrightarrow> requests (handle_search env ev s) = requests s"
proof (cases ev)
  case (Key k)
  assume ok: "search_ok s"
  show ?thesis
    unfolding Key using search_ok_click [OF ok]
    by (simp add: handle_search_def on_key_def on_arrow_def show_results_def hide_results_def Let_def split: option.split)
qed (simp_all add: handle_search_def search_ok_typed search_ok_click on_mouse_def on_swap_def show_results_def
  remove_results_def Let_def)

text \<open>
  C39: However many events happen before the debounce timer fires, nothing is requested
  until it fires, and then at most one request is made: for the text that is in the input
  at that moment, which has at least three characters.
\<close>

theorem one_request_per_pause:
  assumes "search_ok s" and "Timer \<notin> set es"
  shows "let t = fold (handle_search env) es s in requests t = requests s \<and>
    (\<exists>new. requests (handle_search env Timer t) = requests s @ new \<and> length new \<le> 1 \<and>
      (\<forall>r \<in> set new. snd r = input_text t \<and> 3 \<le> length (snd r)))"
proof -
  let ?t = "fold (handle_search env) es s"
  have "search_ok ?t \<and> requests ?t = requests s"
    using assms
  proof (induction es arbitrary: s)
    case (Cons e es)
    then have "search_ok (handle_search env e s)" and "requests (handle_search env e s) = requests s"
      using search_ok_handle requests_handle by auto
    with Cons show ?case by simp
  qed simp
  then show ?thesis
    by (auto simp: Let_def handle_search_def on_timer_def search_ok_def max_badge_count_def
        min_live_phrase_length_def split: option.splits)
qed

section \<open>A popup on which the hypotheses hold\<close>

definition demo_env :: search_env where
  "demo_env = \<lparr>models = [(''/dcim/devices/'', ''Devices'')], fuzzy = (\<lambda>q. [(''/dcim/devices/'', ''Devices'')]),
     live_path = ''/search/'', form_action = ''/search/''\<rparr>"

lemma search_ok_open: "search_ok (open_popup t [])"
  by (simp add: open_popup_def search_ok_def one_active_def)

theorem search_popup_consistent_witness:
  "length (badges (fold (handle_search demo_env) [Typed ''in: devices x'' (0, 0), Key ArrowDown] (open_popup [] []))) \<le> 1"
  using search_popup_consistent [OF search_ok_open, of demo_env "[Typed ''in: devices x'' (0, 0), Key ArrowDown]" "[]"]
  by (simp only: Let_def)

theorem arrows_wrap_around_witness:
  "selected (results (on_key demo_env ArrowUp (on_swap 2 (open_popup [] []))) ! 1)"
proof -
  let ?s = "on_swap 2 (open_popup [] [])"
  have ok: "search_ok ?s" using search_ok_handle [OF search_ok_open, of demo_env "Swap 2"] by (simp add: handle_search_def)
  have h: "\<not> hidden ?s" "results ?s \<noteq> []" "ArrowUp \<in> {ArrowDown, ArrowUp}"
    by (simp_all add: on_swap_def open_popup_def show_results_def remove_results_def Let_def)
  have "find_index active (results ?s) = -1" and "length (results ?s) = 2" by code_simp+
  with arrows_wrap_around [OF ok h refl refl, of demo_env] show ?thesis by (simp add: Let_def)
qed

theorem one_request_per_pause_witness:
  "requests (fold (handle_search demo_env) [Typed ''abc'' (3, 3)] (open_popup [] [])) = []"
proof -
  have "Timer \<notin> set [Typed ''abc'' (3, 3)]" by simp
  from one_request_per_pause [OF search_ok_open this, of demo_env "[]"]
  have "requests (fold (handle_search demo_env) [Typed ''abc'' (3, 3)] (open_popup [] [])) = requests (open_popup [] [])"
    unfolding Let_def by blast
  then show ?thesis by (simp add: open_popup_def)
qed

end
