(* ===== verification/Search_Popup.thy ===== *)
theory Search_Popup
  imports Search
begin

text \<open>
  The life of the search popup of \<open>ui/src/js/search.js\<close>: it is opened by the focus of the
  search field in the header, takes the focus, locks the scrolling of the page, and is closed
  by Escape, Tab, a click on the overlay or the clean-up function. What happens inside is the
  state \<open>search\<close> of theory \<open>Search\<close>; here are the shortcut, the visibility of the clear
  button, and the timers a closed popup leaves behind.
\<close>

section \<open>State and operations\<close>

text \<open>
  Where the focus is: in the popup's input, on a neighbour of the header field or anywhere
  else. The focus never stays on the header field, because focusing it opens the popup.
\<close>

datatype place = In_Popup | Before_Header | After_Header | Elsewhere

record header_search =
  header_text :: string
  header_badges :: "string list"
  popup :: "search option"
  clear_hidden :: bool
  body_locked :: bool
  focus_at :: place
  orphans :: "string list list"
  stray_requests :: "(string \<times> string option) list"
  listening :: bool

definition close_search_popup :: "header_search \<Rightarrow> header_search" where
  "close_search_popup h =
     (case popup h of
        None \<Rightarrow> h
      | Some s \<Rightarrow>
          h\<lparr>popup := None, body_locked := False,
            orphans := orphans h @ (case timer s of None \<Rightarrow> [] | Some ls \<Rightarrow> [ls]),
            focus_at := (if focus_at h = In_Popup then Elsewhere else focus_at h)\<rparr>)"

definition cursor_to_end :: "search \<Rightarrow> search" where
  "cursor_to_end s = s\<lparr>cursor := (int (length (input_text s)), int (length (input_text s)))\<rparr>"

definition open_search_popup :: "header_search \<Rightarrow> header_search" where
  "open_search_popup h =
     (case popup h of
        Some s \<Rightarrow> h\<lparr>popup := Some (cursor_to_end s), focus_at := In_Popup\<rparr>
      | None \<Rightarrow>
          h\<lparr>body_locked := True, popup := Some (cursor_to_end (open_popup (header_text h) (header_badges h))),
            clear_hidden := (header_text h = []), focus_at := In_Popup\<rparr>)"

text \<open>The focus event of the header field and the shortcuts of the document.\<close>

definition focus_header :: "header_search \<Rightarrow> header_search" where
  "focus_header h = (if listening h then open_search_popup h else h)"

definition on_key_document :: "bool \<Rightarrow> string \<Rightarrow> header_search \<Rightarrow> header_search" where
  "on_key_document cmd_or_ctrl k h =
     (if \<not> listening h then h
      else if cmd_or_ctrl \<and> k = ''k'' then focus_header h
      else if k = ''Escape'' then close_search_popup h
      else h)"

definition on_tab :: "bool \<Rightarrow> header_search \<Rightarrow> header_search" where
  "on_tab shift h =
     (if popup h = None then h
      else (close_search_popup h)\<lparr>focus_at := (if shift then Before_Header else After_Header)\<rparr>)"

definition on_overlay_click :: "bool \<Rightarrow> header_search \<Rightarrow> header_search" where
  "on_overlay_click on_overlay h = (if on_overlay then close_search_popup h else h)"

text \<open>
  Which events of the popup dispatch an input event on its field: typing and the clear button,
  and choosing a model from the list, with the mouse or with Enter. The clear button follows
  every such event; its listener runs again for the event a recognized phrase dispatches.
\<close>

definition picks_model :: "ritem option \<Rightarrow> bool" where
  "picks_model i \<longleftrightarrow> (case i of None \<Rightarrow> False | Some r \<Rightarrow> badge_link r \<noteq> None)"

definition dispatches_input :: "search_event \<Rightarrow> search \<Rightarrow> bool" where
  "dispatches_input ev s \<longleftrightarrow>
     (case ev of
        Typed t c \<Rightarrow> True
      | Cleared \<Rightarrow> True
      | Clicked i \<Rightarrow> i < length (results s) \<and> picks_model (Some (results s ! i))
      | Key k \<Rightarrow> k = Enter \<and> \<not> hidden s \<and> picks_model (List.find selected (results s))
      | _ \<Rightarrow> False)"

definition in_popup :: "search_env \<Rightarrow> search_event \<Rightarrow> header_search \<Rightarrow> header_search" where
  "in_popup env ev h =
     (case popup h of
        None \<Rightarrow> h
      | Some s \<Rightarrow>
          (let s' = handle_search env ev s; h1 = h\<lparr>popup := Some s'\<rparr>
           in if dispatches_input ev s then h1\<lparr>clear_hidden := (input_text s' = [])\<rparr> else h1))"

text \<open>
  Escape in the field: hides the results and goes no further when they are shown, otherwise
  reaches the document, which closes the popup.
\<close>

definition on_escape :: "search_env \<Rightarrow> header_search \<Rightarrow> header_search" where
  "on_escape env h =
     (case popup h of
        Some s \<Rightarrow> if \<not> hidden s then in_popup env (Key Escape) h else on_key_document False ''Escape'' h
      | None \<Rightarrow> on_key_document False ''Escape'' h)"

text \<open>
  The timer of a popup that is gone fires all the same; its request takes its text from the
  popup that is open by then, if there is one.
\<close>

definition on_stray_timer :: "search_env \<Rightarrow> header_search \<Rightarrow> header_search" where
  "on_stray_timer env h =
     (case orphans h of
        [] \<Rightarrow> h
      | ls # rest \<Rightarrow>
          h\<lparr>orphans := rest,
            stray_requests := stray_requests h @
              map (\<lambda>l. (replace_slashes l (live_path env), map_option input_text (popup h))) ls\<rparr>)"

definition clean_up :: "header_search \<Rightarrow> header_search" where
  "clean_up h = (close_search_popup h)\<lparr>listening := False\<rparr>"

datatype header_event =
    Header_Focus | Shortcut bool string | Escape_In_Field | Tab_Key bool | Overlay_Click bool
  | Inside search_event | Stray_Timer | Clean_Up

definition header_step :: "search_env \<Rightarrow> header_event \<Rightarrow> header_search \<Rightarrow> header_search" where
  "header_step env e h =
     (case e of
        Header_Focus \<Rightarrow> focus_header h
      | Shortcut b k \<Rightarrow> on_key_document b k h
      | Escape_In_Field \<Rightarrow> on_escape env h
      | Tab_Key shift \<Rightarrow> on_tab shift h
      | Overlay_Click b \<Rightarrow> on_overlay_click b h
      | Inside ev \<Rightarrow> in_popup env ev h
      | Stray_Timer \<Rightarrow> on_stray_timer env h
      | Clean_Up \<Rightarrow> clean_up h)"

section \<open>The page stays usable\<close>

lemma input_text_add_badge [simp]: "input_text (add_badge l s) = input_text s"
  by (simp add: add_badge_def Let_def)

text \<open>The text of the field changes only with an input event.\<close>

lemma text_kept:
  assumes "\<not> dispatches_input ev s"
  shows "input_text (handle_search env ev s) = input_text s"
proof -
  have click: "input_text (click_result env r s) = input_text s" if "\<not> picks_model (Some r)" for r
    using that by (auto simp: click_result_def picks_model_def split: option.splits)
  have key: "input_text (on_key env k s) = input_text s" if "ev = Key k" for k
    using assms that click
    by (auto simp: dispatches_input_def on_key_def on_arrow_def Let_def show_results_def hide_results_def
      split: option.splits)
  show ?thesis
    using assms click key
    by (cases ev) (auto simp: handle_search_def dispatches_input_def on_mouse_def on_swap_def on_timer_def
      show_results_def remove_results_def Let_def split: option.splits)
qed

lemma search_ok_open_popup: "search_ok (open_popup t bs)"
proof -
  let ?s = "\<lparr>input_text = t, cursor = (int (length t), int (length t)), badges = [], results = [],
        hidden = False, spinning = False, timer = None, requests = [], opened = []\<rparr>"
  have "search_ok s \<Longrightarrow> timer s = None \<Longrightarrow> search_ok (fold add_badge bs s)" for s
    by (induction bs arbitrary: s) (auto simp: search_ok_def add_badge_effect add_badge_def Let_def max_badge_count_def)
  moreover have "search_ok ?s" by (simp add: search_ok_def one_active_def)
  ultimately show ?thesis by (simp add: open_popup_def)
qed

definition popup_ok :: "header_search \<Rightarrow> bool" where
  "popup_ok h \<longleftrightarrow>
     body_locked h = (popup h \<noteq> None) \<and>
     (focus_at h = In_Popup \<longrightarrow> popup h \<noteq> None) \<and>
     (case popup h of None \<Rightarrow> True | Some s \<Rightarrow> search_ok s \<and> clear_hidden h = (input_text s = []))"

lemma cursor_to_end_simps [simp]:
  "input_text (cursor_to_end s) = input_text s" "search_ok (cursor_to_end s) = search_ok s"
  by (simp_all add: cursor_to_end_def search_ok_def split: option.split)

lemma popup_ok_open: "popup_ok h \<Longrightarrow> popup_ok (open_search_popup h)"
proof -
  have "input_text (open_popup t bs) = t" for t bs
  proof -
    have "input_text (fold add_badge bs s) = input_text s" for s :: search by (induction bs arbitrary: s) auto
    then show ?thesis by (simp add: open_popup_def)
  qed
  then show "popup_ok h \<Longrightarrow> popup_ok (open_search_popup h)"
    by (auto simp: popup_ok_def open_search_popup_def search_ok_open_popup split: option.splits)
qed

lemma popup_ok_close: "popup_ok h \<Longrightarrow> popup_ok (close_search_popup h) \<and> popup (close_search_popup h) = None"
  by (auto simp: popup_ok_def close_search_popup_def split: option.splits)

lemma popup_ok_inside: "popup_ok h \<Longrightarrow> popup_ok (in_popup env ev h)"
  using search_ok_handle text_kept by (auto simp: popup_ok_def in_popup_def Let_def split: option.splits)

lemma popup_ok_step: "popup_ok h \<Longrightarrow> popup_ok (header_step env e h)"
proof -
  assume ok: "popup_ok h"
  note [simp] = popup_ok_open [OF ok] popup_ok_close [OF ok] popup_ok_inside [OF ok]
  have "popup_ok (h'\<lparr>focus_at := f\<rparr>)" if "popup_ok h'" "popup h' = None" "f \<noteq> In_Popup" for h' f
    using that by (simp add: popup_ok_def)
  moreover have "popup_ok (h'\<lparr>listening := b\<rparr>) = popup_ok h'" for h' b
    by (simp add: popup_ok_def split: option.split)
  moreover have "popup_ok (on_stray_timer env h)"
    using ok by (auto simp: on_stray_timer_def popup_ok_def split: list.split)
  moreover have "popup_ok (on_key_document b k h)" for b k
    using ok by (simp add: on_key_document_def focus_header_def)
  ultimately show ?thesis
    using ok by (cases e) (auto simp: header_step_def focus_header_def on_escape_def on_tab_def on_overlay_click_def
      clean_up_def split: option.split)
qed

interpretation header: machine "header_step env" popup_ok for env
  using popup_ok_step by unfold_locales

text \<open>
  C17: Through any sequence of shortcuts, keys, clicks, typing and responses the page scrolls
  exactly when no popup covers it, the focus is never left in a popup that is gone, the popup
  has at most one badge and one highlighted result, and its clear button is shown exactly when
  there is something to clear. Two presses of Escape always get the user out.
\<close>

theorem search_popup_life:
  assumes "popup h = None" and "\<not> body_locked h" and "focus_at h \<noteq> In_Popup"
  shows "popup_ok (fold (header_step env) es h) \<and>
    (let q = fold (header_step env) es h in
     listening q \<longrightarrow> popup (header_step env Escape_In_Field (header_step env Escape_In_Field q)) = None)"
proof -
  have close: "popup (close_search_popup q) = None" for q
    by (auto simp: close_search_popup_def split: option.split)
  have hide: "popup (header_step env Escape_In_Field q) = None \<or>
      (\<exists>s. popup (header_step env Escape_In_Field q) = Some s \<and> hidden s)" for q
    using close
    by (auto simp: header_step_def on_escape_def in_popup_def on_key_document_def handle_search_def on_key_def
      hide_results_def Let_def split: option.splits)
  have kept: "listening (header_step env Escape_In_Field q) = listening q" for q
    by (auto simp: header_step_def on_escape_def in_popup_def on_key_document_def close_search_popup_def Let_def
      split: option.splits)
  have shut: "popup (header_step env Escape_In_Field q) = None"
    if "popup q = None \<or> (\<exists>s. popup q = Some s \<and> hidden s)" and "listening q" for q
    using that close by (auto simp: header_step_def on_escape_def on_key_document_def)
  have "popup_ok h" using assms by (simp add: popup_ok_def)
  with header.run_inv shut hide kept show ?thesis by (simp add: Let_def)
qed

definition demo_header :: header_search where
  "demo_header = \<lparr>header_text = [], header_badges = [''/dcim/devices/''], popup = None, clear_hidden = False,
     body_locked = False, focus_at = Elsewhere, orphans = [], stray_requests = [], listening = True\<rparr>"

lemma search_popup_life_witness:
  "popup_ok (fold (header_step demo_env) [Shortcut True ''k'', Inside (Typed ''abc'' (3, 3)), Escape_In_Field] demo_header)"
proof -
  have "popup demo_header = None" "\<not> body_locked demo_header" "focus_at demo_header \<noteq> In_Popup"
    by (simp_all add: demo_header_def)
  from search_popup_life [OF this, of demo_env "[Shortcut True ''k'', Inside (Typed ''abc'' (3, 3)), Escape_In_Field]"]
  show ?thesis by blast
qed

text \<open>
  A search that is closed within the delay of half a second is sent all the same; in a popup
  that was opened meanwhile it is sent with the text of that popup, even without a text.
\<close>

lemma closed_search_is_sent:
  "stray_requests (fold (header_step demo_env)
     [Header_Focus, Inside (Typed ''abc'' (3, 3)), Tab_Key False, Header_Focus, Stray_Timer] demo_header) =
   [(''/search/dcim/devices/'', Some [])]"
  by code_simp

end
