(* ===== verification/Tabs.thy ===== *)
theory Tabs
  imports Dom
begin

text \<open>
  Tab bars that do not fit: \<open>nautobot/ui/src/js/tabs.js\<close> and the helpers of \<open>utils.js\<close> it
  uses. The script measures a clone of the tab bar; the widths are the browser's, a
  function of the tabs shown and of whether the dropdown is appended.
\<close>

section \<open>Helpers\<close>

text \<open>\<open>createElement(tag, attributes)\<close>: attributes in order, \<open>className\<close> sets the class.\<close>

definition split_classes :: "string \<Rightarrow> string list" where
  "split_classes v = remdups (filter (\<lambda>w. w \<noteq> []) (split_char (CHR '' '') v))"

definition create_element :: "string \<Rightarrow> (string \<times> string) list \<Rightarrow> elem" where
  "create_element t as =
     fold (\<lambda>(a, v) e. if a = ''className'' \<or> a = ''class'' then e\<lparr>classes := split_classes v\<rparr> else set_attr a v e)
       as (new_elem t)"

definition remove_element_classes :: "string list \<Rightarrow> elem \<Rightarrow> elem" where
  "remove_element_classes ignore e =
     fold class_remove (filter (\<lambda>c. \<not> List.member ignore c) (classes e)) e"

section \<open>State\<close>

record tab =
  li :: elem
  links :: "elem list"

text \<open>The bar of tabs and its clones; a clone has the tabs shown and those in its menu.\<close>

record clone =
  clone_elem :: elem
  shown_tabs :: "tab list"
  menu :: "tab list option"

record tab_bar =
  bar :: elem
  tabs :: "tab list"
  clones :: "clone list"
  bar_width :: int
  clone_width :: "tab list \<Rightarrow> bool \<Rightarrow> int"

definition tabs_hidden_classes :: "string list" where
  "tabs_hidden_classes = [''invisible'', ''position-absolute'']"

definition clone_temporary_classes :: "string list" where
  "clone_temporary_classes = [''flex-nowrap'', ''invisible'', ''position-absolute'', ''z-n1'']"

section \<open>Collapsing\<close>

definition should_collapse :: "tab_bar \<Rightarrow> tab list \<Rightarrow> bool \<Rightarrow> bool" where
  "should_collapse s ts dropdown \<longleftrightarrow> clone_width s ts dropdown > bar_width s"

text \<open>
  The loop takes tabs from the right while the clone with its dropdown is too wide. With no
  tab left \<open>previousElementSibling\<close> is \<open>null\<close> and removing it throws (\<open>None\<close>).
\<close>

function collapse_loop :: "tab_bar \<Rightarrow> tab list \<Rightarrow> tab list \<Rightarrow> (tab list \<times> tab list) option" where
  "collapse_loop s vis collapsed =
     (if \<not> should_collapse s vis True then Some (vis, collapsed)
      else if vis = [] then None
      else collapse_loop s (butlast vis) (last vis # collapsed))"
  by pat_completeness auto
termination by (relation "measure (\<lambda>(s, vis, collapsed). length vis)") auto

declare collapse_loop.simps [simp del]

definition menu_link :: "elem \<Rightarrow> elem" where
  "menu_link e =
     class_add ''justify-content-between'' (class_add ''dropdown-item''
       (remove_element_classes [''active'', ''disabled''] e))"

definition menu_tab :: "tab \<Rightarrow> tab" where
  "menu_tab t = \<lparr>li = remove_element_classes [] (li t), links = map menu_link (links t)\<rparr>"

definition fresh_clone :: "tab_bar \<Rightarrow> clone" where
  "fresh_clone s =
     \<lparr>clone_elem = fold class_add clone_temporary_classes (set_attr ''data-clone'' ''true'' (remove_attr ''id'' (bar s))),
      shown_tabs = tabs s, menu = None\<rparr>"

definition collapse_tabs :: "tab_bar \<Rightarrow> tab_bar outcome" where
  "collapse_tabs s =
     (let s1 = s\<lparr>clones := [fresh_clone s]\<rparr>; c = fresh_clone s in
      if \<not> should_collapse s1 (tabs s) False
      then Done (s1\<lparr>bar := fold class_remove tabs_hidden_classes (bar s), clones := []\<rparr>)
      else (case collapse_loop s1 (tabs s) [] of
              None \<Rightarrow> Throw TypeError (s1\<lparr>clones := [c\<lparr>shown_tabs := [], menu := Some []\<rparr>]\<rparr>)
            | Some (vis, col) \<Rightarrow>
                Done (s1\<lparr>bar := fold class_add tabs_hidden_classes (bar s),
                         clones := [c\<lparr>clone_elem := fold class_remove clone_temporary_classes (clone_elem c),
                                      shown_tabs := vis, menu := Some (map menu_tab col)\<rparr>]\<rparr>)))"

section \<open>What collapsing does\<close>

lemma collapse_loop_prefix:
  "vis = take k ts \<Longrightarrow> collapsed = drop k ts \<Longrightarrow> k \<le> length ts \<Longrightarrow>
   (case collapse_loop s vis collapsed of
      Some (v, c) \<Rightarrow> (\<exists>m \<le> k. v = take m ts \<and> c = drop m ts \<and> \<not> should_collapse s (take m ts) True \<and>
        (\<forall>j. m < j \<and> j \<le> k \<longrightarrow> should_collapse s (take j ts) True))
    | None \<Rightarrow> \<forall>j \<le> k. should_collapse s (take j ts) True)"
proof (induction k arbitrary: vis collapsed)
  case 0
  then show ?case by (subst collapse_loop.simps) simp
next
  case (Suc k)
  show ?case
  proof (cases "should_collapse s vis True")
    case False
    then show ?thesis using Suc.prems by (subst collapse_loop.simps) (auto intro!: exI [of _ "Suc k"])
  next
    case True
    have k: "k < length ts" using Suc.prems(3) by simp
    have b: "butlast vis = take k ts" "last vis # collapsed = drop k ts" "vis \<noteq> []"
      using Suc.prems(1,2) k by (auto simp: take_Suc_conv_app_nth Cons_nth_drop_Suc)
    have "collapse_loop s vis collapsed = collapse_loop s (take k ts) (drop k ts)"
      using True b by (subst collapse_loop.simps) simp
    moreover have "should_collapse s (take (Suc k) ts) True" using True Suc.prems(1) by simp
    ultimately show ?thesis
      using Suc.IH [OF refl refl] k by (auto simp: le_Suc_eq split: option.splits)
  qed
qed

lemma has_class_fold_add: "has_class c (fold class_add cs e) \<longleftrightarrow> c \<in> set cs \<or> has_class c e"
  by (induction cs arbitrary: e) auto

lemma has_class_fold_remove: "has_class c (fold class_remove cs e) \<longleftrightarrow> c \<notin> set cs \<and> has_class c e"
  by (induction cs arbitrary: e) auto

lemma should_collapse_cong [simp]:
  "should_collapse (s\<lparr>clones := c\<rparr>) ts d = should_collapse s ts d" "should_collapse (s\<lparr>bar := b\<rparr>) ts d = should_collapse s ts d"
  by (simp_all add: should_collapse_def)

lemma has_class_remove_element_classes:
  "has_class c (remove_element_classes ig e) \<longleftrightarrow> c \<in> set ig \<and> has_class c e"
proof -
  have "has_class c e \<longleftrightarrow> c \<in> set (classes e)" by (simp add: has_class_def)
  then show ?thesis by (auto simp: remove_element_classes_def has_class_fold_remove)
qed

text \<open>The menu keeps of a link's classes only those of its state.\<close>

lemma menu_link_classes:
  "has_class c (menu_link e) \<longleftrightarrow>
     c \<in> {''dropdown-item'', ''justify-content-between''} \<or> c \<in> {''active'', ''disabled''} \<and> has_class c e"
  by (auto simp: menu_link_def has_class_remove_element_classes)

text \<open>
  C40: When the tabs do not fit but some number of them fits beside the dropdown, collapsing
  succeeds with a single clone that shows the longest fitting run of tabs from the left
  and has all the others, in order, in its menu; the original bar is hidden.
\<close>

theorem longest_fitting_tabs_shown:
  assumes "should_collapse s (tabs s) False" and "k \<le> length (tabs s)" and "\<not> should_collapse s (take k (tabs s)) True"
  shows "\<exists>s' c m. collapse_tabs s = Done s' \<and> clones s' = [c] \<and> k \<le> m \<and> m \<le> length (tabs s) \<and>
    shown_tabs c = take m (tabs s) \<and> menu c = Some (map menu_tab (drop m (tabs s))) \<and>
    \<not> should_collapse s (take m (tabs s)) True \<and>
    (\<forall>j. m < j \<and> j \<le> length (tabs s) \<longrightarrow> should_collapse s (take j (tabs s)) True) \<and>
    tabs s' = tabs s \<and> has_class ''invisible'' (bar s') \<and> \<not> has_class ''invisible'' (clone_elem c)"
proof -
  let ?s1 = "s\<lparr>clones := [fresh_clone s]\<rparr>"
  have p: "case collapse_loop ?s1 (tabs s) [] of
      Some (v, c) \<Rightarrow> (\<exists>m \<le> length (tabs s). v = take m (tabs s) \<and> c = drop m (tabs s) \<and>
        \<not> should_collapse ?s1 (take m (tabs s)) True \<and>
        (\<forall>j. m < j \<and> j \<le> length (tabs s) \<longrightarrow> should_collapse ?s1 (take j (tabs s)) True))
    | None \<Rightarrow> \<forall>j \<le> length (tabs s). should_collapse ?s1 (take j (tabs s)) True"
    by (rule collapse_loop_prefix) simp_all
  then have "collapse_loop ?s1 (tabs s) [] \<noteq> None"
    using assms(2,3) by (auto split: option.splits)
  then obtain v c where l: "collapse_loop ?s1 (tabs s) [] = Some (v, c)" by auto
  with p obtain m where m: "m \<le> length (tabs s)" "v = take m (tabs s)" "c = drop m (tabs s)"
    "\<not> should_collapse s (take m (tabs s)) True"
    "\<forall>j. m < j \<and> j \<le> length (tabs s) \<longrightarrow> should_collapse s (take j (tabs s)) True" by auto
  have "k \<le> m" using m(5) assms(2,3) by (meson not_le_imp_less)
  then show ?thesis
    using m l assms(1)
    by (intro exI [of _ "final_state (collapse_tabs s)"]
          exI [of _ "hd (clones (final_state (collapse_tabs s)))"] exI [of _ m])
       (simp add: collapse_tabs_def Let_def has_class_fold_add has_class_fold_remove
         tabs_hidden_classes_def clone_temporary_classes_def)
qed

text \<open>When not even the dropdown alone fits, removing a tab that is not there throws.\<close>

lemma dropdown_too_wide_throws:
  assumes "should_collapse s (tabs s) False" and "\<forall>j \<le> length (tabs s). should_collapse s (take j (tabs s)) True"
  shows "\<not> completed (collapse_tabs s)"
proof -
  have "collapse_loop (s\<lparr>clones := [fresh_clone s]\<rparr>) (tabs s) [] = None"
    using collapse_loop_prefix [where vis = "tabs s" and k = "length (tabs s)" and ts = "tabs s" and collapsed = "[]"
        and s = "s\<lparr>clones := [fresh_clone s]\<rparr>"] assms(2)
    by (auto split: option.splits)
  then show ?thesis using assms(1) by (simp add: collapse_tabs_def Let_def)
qed

definition demo_tab :: "string \<Rightarrow> tab" where
  "demo_tab h = \<lparr>li = (new_elem ''LI'')\<lparr>classes := [''nav-item'']\<rparr>, links = [(new_elem ''A'')\<lparr>attrs := [(''href'', h)]\<rparr>]\<rparr>"

theorem longest_fitting_tabs_shown_witness:
  "\<exists>s'. collapse_tabs \<lparr>bar = new_elem ''UL'', tabs = [demo_tab ''#a'', demo_tab ''#b'', demo_tab ''#c''], clones = [],
      bar_width = 25, clone_width = (\<lambda>ts d. 10 * int (length ts) + (if d then 4 else 0))\<rparr> = Done s' \<and>
     length (clones s') = 1"
proof -
  let ?s = "\<lparr>bar = new_elem ''UL'', tabs = [demo_tab ''#a'', demo_tab ''#b'', demo_tab ''#c''], clones = [],
      bar_width = 25, clone_width = (\<lambda>ts d. 10 * int (length ts) + (if d then 4 else 0))\<rparr>"
  have h: "should_collapse ?s (tabs ?s) False" "2 \<le> length (tabs ?s)" "\<not> should_collapse ?s (take 2 (tabs ?s)) True"
    by (simp_all add: should_collapse_def)
  show ?thesis using longest_fitting_tabs_shown [OF h] by fastforce
qed

end
