(* ===== verification/Draggable.thy ===== *)
theory Draggable
  imports Dom "HOL-Library.Multiset"
begin

text \<open>
  Dragging panels: \<open>nautobot/ui/src/js/draggable.js\<close>. The document listeners remember the
  dragged element and, per element id, where it would be inserted; the move happens when
  the drag ends. Rectangles are the browser's layout, a function of the page; the line
  that shows the place is in theory \<open>Drop_Indicator\<close>.
\<close>

section \<open>Moving elements in the tree\<close>

fun detach :: "uid \<Rightarrow> dtree \<Rightarrow> dtree" where
  "detach u (Node v ts) = Node v (map (detach u) (filter (\<lambda>t. root_of t \<noteq> u) ts))"

text \<open>\<open>x.after(n)\<close>, \<open>x.before(n)\<close> and \<open>x.append(n)\<close>: splice next to or into the node \<open>x\<close>.\<close>

fun insert_by :: "(dtree \<Rightarrow> dtree list) \<Rightarrow> uid \<Rightarrow> dtree \<Rightarrow> dtree" where
  "insert_by f x (Node v ts) = Node v (concat (map (\<lambda>t. if root_of t = x then f t else [insert_by f x t]) ts))"

definition insert_after :: "dtree \<Rightarrow> uid \<Rightarrow> dtree \<Rightarrow> dtree" where
  "insert_after n = insert_by (\<lambda>t. [t, n])"

definition insert_before :: "dtree \<Rightarrow> uid \<Rightarrow> dtree \<Rightarrow> dtree" where
  "insert_before n = insert_by (\<lambda>t. [n, t])"

fun append_kid :: "dtree \<Rightarrow> dtree \<Rightarrow> dtree" where
  "append_kid n (Node v ts) = Node v (ts @ [n])"

definition append_in :: "dtree \<Rightarrow> uid \<Rightarrow> dtree \<Rightarrow> dtree" where
  "append_in n x t = (if root_of t = x then append_kid n t else insert_by (\<lambda>r. [append_kid n r]) x t)"

fun kids :: "dtree \<Rightarrow> uid list" where
  "kids (Node v ts) = map root_of ts"

fun siblings :: "uid \<Rightarrow> dtree \<Rightarrow> uid list"
  and siblings_in :: "uid \<Rightarrow> dtree list \<Rightarrow> uid list" where
  "siblings u (Node v ts) = (if List.member (map root_of ts) u then map root_of ts else siblings_in u ts)"
| "siblings_in u [] = []"
| "siblings_in u (t # ts) = (if siblings u t \<noteq> [] then siblings u t else siblings_in u ts)"

definition next_in :: "uid \<Rightarrow> uid list \<Rightarrow> uid option" where
  "next_in u us = (case dropWhile (\<lambda>w. w \<noteq> u) us of _ # w # _ \<Rightarrow> Some w | _ \<Rightarrow> None)"

definition next_sibling :: "'a page_scheme \<Rightarrow> uid \<Rightarrow> uid option" where
  "next_sibling p u = next_in u (siblings u (doc p))"

definition prev_sibling :: "'a page_scheme \<Rightarrow> uid \<Rightarrow> uid option" where
  "prev_sibling p u = next_in u (rev (siblings u (doc p)))"

section \<open>State\<close>

record place =
  after_of :: "uid option"
  before_of :: "uid option"
  inside_of :: "uid option"

record rect =
  left_x :: int
  top_y :: int
  right_x :: int
  bottom_y :: int

record drag_page = page +
  dragged :: "uid option"
  inserts :: "(string \<times> place) list"
  rect_of :: "dtree \<Rightarrow> uid \<Rightarrow> rect"

definition draggable_class :: string where "draggable_class = ''nb-draggable''"
definition container_class :: string where "container_class = ''nb-draggable-container''"
definition handle_class :: string where "handle_class = ''nb-draggable-handle''"
definition dragging_class :: string where "dragging_class = ''nb-dragging''"
definition flow_attribute :: string where "flow_attribute = ''data-nb-draggable-flow''"

definition id_of :: "elem \<Rightarrow> string" where
  "id_of e = (case get_attr ''id'' e of None \<Rightarrow> [] | Some i \<Rightarrow> i)"

section \<open>The handlers\<close>

definition on_mouse_handle :: "bool \<Rightarrow> uid \<Rightarrow> drag_page \<Rightarrow> drag_page outcome" where
  "on_mouse_handle b target s =
     (case closest s (has_class handle_class) target of
        None \<Rightarrow> Done s
      | Some h \<Rightarrow>
          (case closest s (has_class draggable_class) h of
             None \<Rightarrow> Throw TypeError s
           | Some d \<Rightarrow> Done (upd d (set_attr ''draggable'' (show_bool b)) s)))"

definition on_drag_start :: "uid \<Rightarrow> drag_page \<Rightarrow> drag_page" where
  "on_drag_start target s =
     (case closest s (has_class draggable_class) target of
        None \<Rightarrow> s
      | Some d \<Rightarrow>
          (let s1 = upd d (class_add dragging_class) s; nx = next_sibling s1 target
           in s1\<lparr>dragged := Some target,
                 inserts := oset (id_of (heap s1 target))
                   \<lparr>after_of = (if nx = None then Some target else None), before_of = nx, inside_of = None\<rparr> (inserts s1)\<rparr>))"

text \<open>
  The document refuses to move an element into itself and next to the root; nothing is
  next to an element that is not in the document.
\<close>

definition move_by :: "bool \<Rightarrow> (dtree \<Rightarrow> uid \<Rightarrow> dtree \<Rightarrow> dtree) \<Rightarrow> uid \<Rightarrow> uid \<Rightarrow> drag_page \<Rightarrow> drag_page outcome" where
  "move_by sibling ins x d s =
     (case find_sub d (doc s) of
        None \<Rightarrow> Done s
      | Some sub \<Rightarrow>
          if \<not> List.member (preorder (doc s)) x then Done s
          else if List.member (preorder sub) x \<or> sibling \<and> x = root_of (doc s) then Throw HierarchyError s
          else Done (s\<lparr>doc := ins sub x (detach d (doc s))\<rparr>))"

definition moves_to :: "uid option \<Rightarrow> uid \<Rightarrow> uid option \<Rightarrow> bool" where
  "moves_to x d neighbour = (case x of None \<Rightarrow> False | Some y \<Rightarrow> y \<noteq> d \<and> neighbour \<noteq> Some d)"

definition drop_at :: "place \<Rightarrow> uid \<Rightarrow> drag_page \<Rightarrow> drag_page outcome" where
  "drop_at pl d s =
     (if moves_to (after_of pl) d (next_sibling s (the (after_of pl)))
      then move_by True insert_after (the (after_of pl)) d s
      else if moves_to (before_of pl) d (prev_sibling s (the (before_of pl)))
      then move_by True insert_before (the (before_of pl)) d s
      else (case inside_of pl of None \<Rightarrow> Done s | Some c \<Rightarrow> move_by False append_in c d s))"

definition on_drag_end :: "uid \<Rightarrow> drag_page \<Rightarrow> drag_page outcome" where
  "on_drag_end target s =
     (case closest s (has_class draggable_class) target of
        None \<Rightarrow> Done s
      | Some d \<Rightarrow>
          (let s1 = upd d (set_attr ''draggable'' ''false'') (upd d (class_remove dragging_class) s);
               i = id_of (heap s1 d);
               pl = oget (inserts s1) i;
               s2 = s1\<lparr>dragged := None, inserts := odel i (inserts s1)\<rparr>
           in case closest s2 (has_class container_class) target of
                None \<Rightarrow> Throw TypeError s2
              | Some c \<Rightarrow> (case pl of None \<Rightarrow> Throw TypeError s2 | Some p \<Rightarrow> drop_at p d s2)))"

text \<open>The distance of a point to a rectangle on each axis, and its square.\<close>

definition axis_distance :: "int \<Rightarrow> int \<Rightarrow> int \<Rightarrow> int" where
  "axis_distance p lo hi = (if lo \<le> p \<and> p \<le> hi then 0 else min \<bar>p - lo\<bar> \<bar>p - hi\<bar>)"

text \<open>
  How far an element is from the pointer: along the axis that has priority (0 when none has),
  then the square of the distance. Distances are ordered lexicographically.
\<close>

datatype distance = Distance int int

instantiation distance :: linorder
begin

definition less_eq_distance :: "distance \<Rightarrow> distance \<Rightarrow> bool" where
  "less_eq_distance a b \<longleftrightarrow>
     (case (a, b) of (Distance x d, Distance y e) \<Rightarrow> x < y \<or> x = y \<and> d \<le> e)"

definition less_distance :: "distance \<Rightarrow> distance \<Rightarrow> bool" where
  "less_distance a b \<longleftrightarrow>
     (case (a, b) of (Distance x d, Distance y e) \<Rightarrow> x < y \<or> x = y \<and> d < e)"

instance
  by standard (auto simp: less_eq_distance_def less_distance_def split: distance.splits)

end

definition distance_key :: "bool \<Rightarrow> int \<Rightarrow> int \<Rightarrow> rect \<Rightarrow> distance" where
  "distance_key prioritize_x x y r =
     (let dx = axis_distance x (left_x r) (right_x r); dy = axis_distance y (top_y r) (bottom_y r)
      in Distance (if prioritize_x then dx else 0) (dx * dx + dy * dy))"

text \<open>
  Sorting by falling distance is stable, so the last element after sorting is the last in
  document order among the nearest.
\<close>

fun nearest :: "(uid \<Rightarrow> distance) \<Rightarrow> uid list \<Rightarrow> uid option" where
  "nearest f [] = None"
| "nearest f (u # us) =
     (case nearest f us of None \<Rightarrow> Some u | Some w \<Rightarrow> if f w \<le> f u then Some w else Some u)"

definition nearest_of :: "bool \<Rightarrow> int \<Rightarrow> int \<Rightarrow> drag_page \<Rightarrow> uid list \<Rightarrow> uid option" where
  "nearest_of px x y s us = nearest (\<lambda>u. distance_key px x y (rect_of s (doc s) u)) us"

definition flow_container :: "int \<Rightarrow> int \<Rightarrow> uid \<Rightarrow> drag_page \<Rightarrow> uid option" where
  "flow_container x y c s =
     (let cs = (case find_sub c (doc s) of None \<Rightarrow> [] | Some t \<Rightarrow> kids t);
          flow = (case get_attr flow_attribute (heap s c) of None \<Rightarrow> ''bidirectional'' | Some f \<Rightarrow> f)
      in if flow = ''column'' \<and> list_all (\<lambda>k. \<not> has_class draggable_class (heap s k)) cs
         then nearest_of True x y s cs else Some c)"

definition place_for :: "int \<Rightarrow> int \<Rightarrow> uid \<Rightarrow> drag_page \<Rightarrow> place option" where
  "place_for x y c s =
     (case flow_container x y c s of
        None \<Rightarrow> None
      | Some box \<Rightarrow>
          (case nearest_of False x y s (qsa s box (has_class draggable_class)) of
             None \<Rightarrow> Some \<lparr>after_of = None, before_of = None, inside_of = Some box\<rparr>
           | Some d \<Rightarrow>
               (let r = rect_of s (doc s) d in
                if top_y r + bottom_y r < 2 * y
                then Some \<lparr>after_of = Some d, before_of = None, inside_of = None\<rparr>
                else Some \<lparr>after_of = None, before_of = Some d, inside_of = None\<rparr>)))"

definition on_drag_over :: "uid \<Rightarrow> int \<Rightarrow> int \<Rightarrow> drag_page \<Rightarrow> drag_page outcome" where
  "on_drag_over target x y s =
     (case dragged s of
        None \<Rightarrow> Done s
      | Some d \<Rightarrow>
          (case closest s (has_class container_class) target of
             Some c \<Rightarrow>
               (case place_for x y c s of
                  None \<Rightarrow> Throw TypeError s
                | Some p \<Rightarrow> Done (s\<lparr>inserts := oset (id_of (heap s d)) p (inserts s)\<rparr>))
           | None \<Rightarrow>
               (let s1 = s\<lparr>inserts := odel (id_of (heap s d)) (inserts s)\<rparr>
                in case closest s1 (has_class container_class) d of None \<Rightarrow> Throw TypeError s1 | Some c \<Rightarrow> Done s1)))"

text \<open>A drop only keeps the browser from its default action, for which \<open>True\<close> stands; the page stays as it is.\<close>

definition on_drop :: "drag_page \<Rightarrow> bool" where
  "on_drop s \<longleftrightarrow> dragged s \<noteq> None"

section \<open>The nearest element\<close>

text \<open>
  A stable sort by falling distance is the mirror image of the library's stable sort, so the
  element that \<open>pop\<close> takes off is the first of the mirrored list sorted by rising distance.
\<close>

definition sort_and_pop :: "(uid \<Rightarrow> distance) \<Rightarrow> uid list \<Rightarrow> uid option" where
  "sort_and_pop f us = (case rev (sort_key f (rev us)) of [] \<Rightarrow> None | v # vs \<Rightarrow> Some (last (v # vs)))"

lemma hd_insort_key: "hd (insort_key f x ys) = (if ys = [] \<or> f x \<le> f (hd ys) then x else hd ys)"
  by (cases ys) auto

lemma sort_key_Nil_iff: "sort_key f xs = [] \<longleftrightarrow> xs = []"
  by (metis length_0_conv length_sort)

lemma hd_sort_snoc:
  fixes f :: "'a \<Rightarrow> 'b :: linorder"
  shows "hd (sort_key f (ys @ [u])) =
    (if ys = [] then u else if f (hd (sort_key f ys)) \<le> f u then hd (sort_key f ys) else u)"
proof (induction ys)
  case (Cons y ys)
  then show ?case by (cases "ys = []") (auto simp: hd_insort_key sort_key_Nil_iff)
qed simp

lemma nearest_sorts: "nearest f us = sort_and_pop f us"
proof (induction us)
  case Nil
  then show ?case by (simp add: sort_and_pop_def)
next
  case (Cons u us)
  have pop: "sort_and_pop f vs = Some (hd (sort_key f (rev vs)))" if "vs \<noteq> []" for vs
  proof -
    have ne: "sort_key f (rev vs) \<noteq> []" using that by (simp add: sort_key_Nil_iff)
    then have "last (rev (sort_key f (rev vs))) = hd (sort_key f (rev vs))" by (simp add: last_rev)
    with ne show ?thesis by (auto simp: sort_and_pop_def split: list.split)
  qed
  show ?case
  proof (cases "us = []")
    case True
    then show ?thesis by (simp add: pop)
  next
    case False
    then have "nearest f us = Some (hd (sort_key f (rev us)))" using Cons pop by simp
    with False show ?thesis by (simp add: pop hd_sort_snoc)
  qed
qed

section \<open>Moves keep the elements\<close>

lemma detach_other: "u \<notin> set (preorder t) \<Longrightarrow> detach u t = t"
proof (induction t)
  case (Node v ts)
  have "root_of t \<in> set (preorder t)" for t by (cases t) simp
  then have "\<forall>t \<in> set ts. root_of t \<noteq> u" using Node.prems by auto
  with Node show ?case by (auto simp: map_idI)
qed

lemma root_in_preorder [simp]: "root_of t \<in> set (preorder t)"
  by (cases t) simp

lemma root_detach [simp]: "root_of (detach u t) = root_of t"
  by (cases t) simp

lemma mset_detach:
  "distinct (preorder t) \<Longrightarrow> root_of t \<noteq> u \<Longrightarrow> find_sub u t = Some sub \<Longrightarrow>
     mset (preorder t) = mset (preorder (detach u t)) + mset (preorder sub)"
  "distinct (concat (map preorder ts)) \<Longrightarrow> find_subs u ts = Some sub \<Longrightarrow>
     mset (concat (map preorder ts)) =
       mset (concat (map preorder (map (detach u) (filter (\<lambda>t. root_of t \<noteq> u) ts)))) + mset (preorder sub)"
proof (induction u t and u ts rule: find_sub_find_subs.induct)
  case (1 v u ts)
  then show ?case by simp
next
  case (3 v t ts)
  show ?case
  proof (cases "find_sub v t")
    case None
    then have n: "v \<notin> set (preorder t)" by (simp add: find_sub_None)
    then have "root_of t \<noteq> v" using root_in_preorder by metis
    with 3 None n show ?thesis by (simp add: detach_other)
  next
    case (Some s)
    then have v: "v \<in> set (preorder t)" using find_sub_None(1) [of v t] by auto
    then have rest: "\<forall>r \<in> set ts. v \<notin> set (preorder r)" using "3.prems"(1) by auto
    then have "\<forall>r \<in> set ts. root_of r \<noteq> v" using root_in_preorder by metis
    then have keep: "filter (\<lambda>r. root_of r \<noteq> v) ts = ts" by (simp add: filter_id_conv)
    have det: "map (detach v) ts = ts" using rest detach_other by (simp add: map_idI)
    show ?thesis
    proof (cases "root_of t = v")
      case True
      then have "s = t" using Some by (cases t) auto
      with True Some "3.prems"(2) keep det show ?thesis by simp
    next
      case False
      with 3 Some keep det show ?thesis by simp
    qed
  qed
qed auto

lemma insert_by_other: "x \<notin> set (preorder t) \<Longrightarrow> insert_by f x t = t"
proof (induction t)
  case (Node v ts)
  have r: "\<forall>t \<in> set ts. root_of t \<noteq> x" using Node.prems root_in_preorder by fastforce
  have i: "\<forall>t \<in> set ts. insert_by f x t = t" using Node by auto
  have "concat (map (\<lambda>t. if root_of t = x then f t else [insert_by f x t]) us) = us" if "set us \<subseteq> set ts" for us
    using that r i by (induction us) auto
  then show ?case by simp
qed

text \<open>One splice adds exactly what it splices in, when it adds that next to or into its target.\<close>

lemma mset_insert_by:
  assumes "\<And>t. mset (concat (map preorder (f t))) = mset (preorder t) + new"
  shows "distinct (preorder t) \<Longrightarrow> x \<in> set (preorder t) \<Longrightarrow> root_of t \<noteq> x \<Longrightarrow>
      mset (preorder (insert_by f x t)) = mset (preorder t) + new"
proof (induction t)
  case (Node v ts)
  let ?g = "\<lambda>t. if root_of t = x then f t else [insert_by f x t]"
  have x: "x \<in> set (concat (map preorder ts))" using Node.prems by auto
  then obtain pre r post where ts: "ts = pre @ r # post" and r: "x \<in> set (preorder r)"
    by (auto dest: split_list)
  have d: "distinct (concat (map preorder ts))" using Node.prems(1) by simp
  have out: "x \<notin> set (preorder q)" if "q \<in> set pre \<union> set post" for q
    using that d r unfolding ts by auto
  have other: "concat (map ?g us) = us" if "set us \<subseteq> set pre \<union> set post" for us
    using that
  proof (induction us)
    case (Cons q us)
    then have q: "x \<notin> set (preorder q)" using out by auto
    then have "root_of q \<noteq> x" using root_in_preorder by metis
    with q Cons show ?case by (simp add: insert_by_other)
  qed simp
  have g: "mset (concat (map preorder (?g r))) = mset (preorder r) + new"
  proof (cases "root_of r = x")
    case True
    with assms show ?thesis by simp
  next
    case False
    have "distinct (preorder r)" using d unfolding ts by simp
    with Node.IH [of r] ts r False show ?thesis by simp
  qed
  have "concat (map ?g ts) = pre @ ?g r @ post"
    unfolding ts using other [of pre] other [of post] by simp
  then show ?case using g unfolding ts by simp
qed

lemma mset_append_kid: "mset (preorder (append_kid n t)) = mset (preorder t) + mset (preorder n)"
  by (cases t) simp

lemma mset_move:
  assumes "wf_page s" and "ins \<in> {insert_after, insert_before, append_in}" and "ins \<noteq> append_in \<longrightarrow> sib"
  shows "mset (preorder (doc (final_state (move_by sib ins x d s)))) = mset (preorder (doc s))"
proof (cases "find_sub d (doc s)")
  case (Some sub)
  show ?thesis
  proof (cases "x \<notin> set (preorder (doc s)) \<or> x \<in> set (preorder sub) \<or> sib \<and> x = root_of (doc s)")
    case False
    let ?t = "detach d (doc s)"
    have root: "root_of (doc s) \<noteq> d"
    proof
      assume "root_of (doc s) = d"
      then have "sub = doc s" using Some by (cases "doc s") auto
      with False show False by simp
    qed
    have m: "mset (preorder (doc s)) = mset (preorder ?t) + mset (preorder sub)"
      using mset_detach(1) [OF _ root Some] assms(1) by (simp add: wf_page_def)
    then have "mset (preorder (doc s)) = mset (preorder ?t @ preorder sub)" by simp
    then have dist: "distinct (preorder ?t)" and "set (preorder (doc s)) = set (preorder ?t) \<union> set (preorder sub)"
      using assms(1) mset_eq_imp_distinct_iff [of "preorder (doc s)" "preorder ?t @ preorder sub"]
        mset_eq_setD [of "preorder (doc s)" "preorder ?t @ preorder sub"]
      by (auto simp: wf_page_def)
    then have x: "x \<in> set (preorder ?t)" using False by auto
    have "mset (preorder (ins sub x ?t)) = mset (preorder ?t) + mset (preorder sub)"
    proof (cases "root_of ?t = x")
      case True
      with False assms(2,3) show ?thesis by (auto simp: append_in_def mset_append_kid)
    next
      case ne: False
      note splice = mset_insert_by [OF _ dist x ne, where new = "mset (preorder sub)"]
      show ?thesis
        using assms(2) ne splice [of "\<lambda>t. [t, sub]"] splice [of "\<lambda>t. [sub, t]"] splice [of "\<lambda>t. [append_kid sub t]"]
        by (auto simp: insert_after_def insert_before_def append_in_def mset_append_kid)
    qed
    with m False Some show ?thesis by (simp add: move_by_def)
  qed (use Some in \<open>auto simp: move_by_def\<close>)
qed (simp add: move_by_def)

text \<open>
  C20: However a drag ends, the document has exactly the elements it had before, each once:
  a panel is moved, never lost or doubled, and the drag is over.
\<close>

theorem drop_keeps_elements:
  assumes "wf_page s" and "closest s (has_class draggable_class) target = Some d"
  shows "let s' = final_state (on_drag_end target s) in
    mset (preorder (doc s')) = mset (preorder (doc s)) \<and> wf_page s' \<and> dragged s' = None"
proof -
  let ?s1 = "upd d (set_attr ''draggable'' ''false'') (upd d (class_remove dragging_class) s)"
  let ?s2 = "?s1\<lparr>dragged := None, inserts := odel (id_of (heap ?s1 d)) (inserts ?s1)\<rparr>"
  have wf: "wf_page ?s2" using assms(1) by (simp add: wf_page_def)
  have keep: "dragged (final_state (move_by sib ins x d p)) = dragged p" for sib ins x and p :: drag_page
    by (simp add: move_by_def split: option.split)
  have "mset (preorder (doc (final_state (drop_at p d ?s2)))) = mset (preorder (doc ?s2)) \<and>
      dragged (final_state (drop_at p d ?s2)) = None" for p
    using mset_move [OF wf] keep by (auto simp: drop_at_def split: option.split)
  then have m: "mset (preorder (doc (final_state (on_drag_end target s)))) = mset (preorder (doc s)) \<and>
      dragged (final_state (on_drag_end target s)) = None"
    using assms(2) by (auto simp: on_drag_end_def Let_def split: option.split)
  then have "distinct (preorder (doc (final_state (on_drag_end target s))))"
    using mset_eq_imp_distinct_iff assms(1) unfolding wf_page_def by metis
  with m show ?thesis by (simp add: Let_def wf_page_def)
qed

text \<open>
  Leaving the container forgets where to insert; a drag that ends then throws, after the
  state of the drag was cleared.
\<close>

lemma drop_outside_throws:
  assumes "closest s (has_class draggable_class) target = Some d"
    and "oget (inserts s) (id_of (heap s d)) = None"
  shows "\<not> completed (on_drag_end target s) \<and> doc (final_state (on_drag_end target s)) = doc s"
proof -
  have "id_of (heap (upd d (set_attr ''draggable'' ''false'') (upd d (class_remove dragging_class) s)) d) = id_of (heap s d)"
    by (simp add: id_of_def)
  moreover have "inserts (upd d (set_attr ''draggable'' ''false'') (upd d (class_remove dragging_class) s)) = inserts s"
    by (simp add: upd_def)
  ultimately show ?thesis
    using assms by (auto simp: on_drag_end_def Let_def split: option.split)
qed

definition demo_drag :: "drag_page" where
  "demo_drag =
     \<lparr>doc = Node 0 [Node 9 [Node 2 [], Node 3 [], Node 4 []]],
      heap = (\<lambda>u. if u = 9 then (new_elem ''DIV'')\<lparr>classes := [''nb-draggable-container'']\<rparr>
        else if u = 0 then new_elem ''BODY''
        else (new_elem ''DIV'')\<lparr>classes := [''nb-draggable''], attrs := [(''id'', [char_of (96 + u)])]\<rparr>),
      focus = None, dragged = Some 2,
      inserts = [([char_of (98 :: nat)], \<lparr>after_of = Some 4, before_of = None, inside_of = None\<rparr>)],
      rect_of = (\<lambda>t u. \<lparr>left_x = 0, top_y = int u * 10, right_x = 10, bottom_y = int u * 10 + 10\<rparr>)\<rparr>"

theorem drop_keeps_elements_witness:
  "wf_page (final_state (on_drag_end 2 demo_drag)) \<and>
   preorder (doc (final_state (on_drag_end 2 demo_drag))) = [0, 9, 3, 4, 2]"
proof -
  have h: "wf_page demo_drag" "closest demo_drag (has_class draggable_class) 2 = Some 2" by code_simp+
  have "preorder (doc (final_state (on_drag_end 2 demo_drag))) = [0, 9, 3, 4, 2]" by code_simp
  with drop_keeps_elements [OF h] show ?thesis by (simp add: Let_def)
qed

end
