(* ===== verification/Drop_Indicator.thy ===== *)
theory Drop_Indicator
  imports Draggable
begin

text \<open>
  The line that shows where a dragged panel would go, \<open>ui/src/js/draggable.js\<close>: the value of
  the property \<open>--drop-indicator-inset\<close> of the container under the pointer. The offsets of the
  elements and the size of their offset parent are the browser's layout. Half pixels are
  counted as whole numbers, and the constant half of the line's height, which both \<open>calc\<close>
  expressions subtract, is left out.
\<close>

record box =
  off_left :: int
  off_top :: int
  off_width :: int
  off_height :: int

record layout =
  box_of :: "uid \<Rightarrow> box"
  parent_width :: "uid \<Rightarrow> int"
  parent_height :: "uid \<Rightarrow> int"

datatype inset = No_Line | Line int int int int

text \<open>White space is shared only with a neighbour in the same column.\<close>

definition space_below :: "layout \<Rightarrow> 'a page_scheme \<Rightarrow> uid \<Rightarrow> int" where
  "space_below l p a =
     (case next_sibling p a of
        None \<Rightarrow> 0
      | Some n \<Rightarrow>
          if off_left (box_of l n) = off_left (box_of l a)
          then off_top (box_of l n) - (off_top (box_of l a) + off_height (box_of l a)) else 0)"

definition space_above :: "layout \<Rightarrow> 'a page_scheme \<Rightarrow> uid \<Rightarrow> int" where
  "space_above l p b =
     (case prev_sibling p b of
        None \<Rightarrow> 0
      | Some n \<Rightarrow>
          if off_left (box_of l n) = off_left (box_of l b)
          then off_top (box_of l b) - (off_top (box_of l n) + off_height (box_of l n)) else 0)"

definition line_after :: "layout \<Rightarrow> 'a page_scheme \<Rightarrow> uid \<Rightarrow> inset" where
  "line_after l p a =
     (let x = box_of l a; w = space_below l p a
      in Line (2 * (off_top x + off_height x) + w)
           (parent_width l a - (off_left x + off_width x))
           (2 * (parent_height l a - (off_top x + off_height x)) - w)
           (off_left x))"

definition line_before :: "layout \<Rightarrow> int \<Rightarrow> uid \<Rightarrow> inset" where
  "line_before l w b =
     (let x = box_of l b
      in Line (2 * off_top x - w)
           (parent_width l b - (off_left x + off_width x))
           (2 * (parent_height l b - off_top x) + w)
           (off_left x))"

definition drop_line :: "layout \<Rightarrow> 'a page_scheme \<Rightarrow> place \<Rightarrow> inset" where
  "drop_line l p pl =
     (case after_of pl of
        Some a \<Rightarrow> line_after l p a
      | None \<Rightarrow>
          (case before_of pl of
             Some b \<Rightarrow> line_before l (space_above l p b) b
           | None \<Rightarrow> (case inside_of pl of Some c \<Rightarrow> line_before l 0 c | None \<Rightarrow> No_Line)))"

text \<open>
  The listeners write the property: of the container under the pointer when the place has
  changed, of the element's own container when the pointer leaves, of the target's container
  when the drag ends.
\<close>

type_synonym insets = "uid \<Rightarrow> inset"

definition drag_over_line :: "layout \<Rightarrow> uid \<Rightarrow> int \<Rightarrow> int \<Rightarrow> drag_page \<Rightarrow> insets \<Rightarrow> insets" where
  "drag_over_line l target x y s m =
     (case dragged s of
        None \<Rightarrow> m
      | Some d \<Rightarrow>
          (case closest s (has_class container_class) target of
             Some c \<Rightarrow>
               (case place_for x y c s of
                  None \<Rightarrow> m
                | Some pl \<Rightarrow>
                    if oget (inserts s) (id_of (heap s d)) = Some pl then m else m(c := drop_line l s pl))
           | None \<Rightarrow>
               (case closest s (has_class container_class) d of None \<Rightarrow> m | Some c \<Rightarrow> m(c := No_Line))))"

definition drag_end_line :: "uid \<Rightarrow> drag_page \<Rightarrow> insets \<Rightarrow> insets" where
  "drag_end_line target s m =
     (case closest s (has_class draggable_class) target of
        None \<Rightarrow> m
      | Some d \<Rightarrow>
          (case closest s (has_class container_class) target of None \<Rightarrow> m | Some c \<Rightarrow> m(c := No_Line)))"

section \<open>Neighbours\<close>

lemma roots_in_preorder: "set (map root_of ts) \<subseteq> set (concat (map preorder ts))"
  by (induction ts) auto

lemma distinct_roots: "distinct (concat (map preorder ts)) \<Longrightarrow> distinct (map root_of ts)"
proof (induction ts)
  case (Cons t ts)
  then have "root_of t \<notin> set (concat (map preorder ts))"
    using root_in_preorder [of t] by (simp add: disjoint_iff)
  with Cons roots_in_preorder [of ts] show ?case by auto
qed simp

lemma set_tl_preorder: "set (tl (preorder t)) \<subseteq> set (preorder t)"
  by (cases t) auto

lemma concat_tl_preorder: "set (concat (map (\<lambda>t. tl (preorder t)) ts)) \<subseteq> set (concat (map preorder ts))"
  using set_tl_preorder by (induction ts) auto

lemma siblings_in_preorder:
  "set (siblings u t) \<subseteq> set (tl (preorder t))"
  "set (siblings_in u ts) \<subseteq> set (concat (map (\<lambda>t. tl (preorder t)) ts))"
proof (induction u t and u ts rule: siblings_siblings_in.induct)
  case (1 u v ts)
  show ?case
  proof (cases "List.member (map root_of ts) u")
    case True
    then show ?thesis using roots_in_preorder [of ts] by simp
  next
    case False
    with 1 have "set (siblings_in u ts) \<subseteq> set (concat (map (\<lambda>t. tl (preorder t)) ts))" by blast
    with concat_tl_preorder [of ts] have "set (siblings_in u ts) \<subseteq> set (concat (map preorder ts))" by blast
    with False show ?thesis by simp
  qed
qed auto

lemma distinct_siblings:
  "distinct (preorder t) \<Longrightarrow> distinct (siblings u t)"
  "distinct (concat (map preorder ts)) \<Longrightarrow> distinct (siblings_in u ts)"
proof (induction u t and u ts rule: siblings_siblings_in.induct)
  case (1 u v ts)
  then show ?case using distinct_roots [of ts] by auto
qed auto

lemma self_sibling: "siblings u t \<noteq> [] \<Longrightarrow> u \<in> set (siblings u t)"
  "siblings_in u ts \<noteq> [] \<Longrightarrow> u \<in> set (siblings_in u ts)"
  by (induction u t and u ts rule: siblings_siblings_in.induct) (auto split: if_splits)

lemma siblings_absent: "u \<notin> set (tl (preorder t)) \<Longrightarrow> siblings u t = []"
  using self_sibling(1) [of u t] siblings_in_preorder(1) [of u t] by auto

lemma preorder_root_tl: "preorder t = root_of t # tl (preorder t)"
  by (cases t) simp

lemma siblings_same:
  "distinct (preorder t) \<Longrightarrow> w \<in> set (siblings u t) \<Longrightarrow> siblings w t = siblings u t"
  "distinct (concat (map preorder ts)) \<Longrightarrow> w \<in> set (siblings_in u ts) \<Longrightarrow>
     siblings_in w ts = siblings_in u ts \<and> w \<notin> set (map root_of ts)"
proof (induction u t and u ts rule: siblings_siblings_in.induct)
  case (1 u v ts)
  then show ?case by (cases "List.member (map root_of ts) u") (auto split: if_splits)
next
  case (3 u t ts)
  have d: "distinct (preorder t)" "distinct (concat (map preorder ts))"
    "set (preorder t) \<inter> set (concat (map preorder ts)) = {}" using "3.prems"(1) by auto
  note roots = roots_in_preorder [of ts] and tls = set_tl_preorder
  show ?case
  proof (cases "siblings u t = []")
    case False
    then have w: "w \<in> set (siblings u t)" using "3.prems"(2) by simp
    then have "w \<in> set (tl (preorder t))" using siblings_in_preorder(1) by blast
    moreover have "root_of t \<notin> set (tl (preorder t))" using d(1) preorder_root_tl [of t] by (metis distinct.simps(2))
    ultimately have "w \<noteq> root_of t" "w \<notin> set (map root_of ts)" using tls d(3) roots by blast+
    with 3 d w False show ?thesis by simp
  next
    case True
    then have w: "w \<in> set (siblings_in u ts)" using "3.prems"(2) by simp
    then have "w \<in> set (concat (map (\<lambda>t. tl (preorder t)) ts))" using siblings_in_preorder(2) by blast
    then have "w \<in> set (concat (map preorder ts))" using concat_tl_preorder [of ts] by blast
    then have "w \<notin> set (preorder t)" using d(3) by blast
    then have "siblings w t = []" "w \<noteq> root_of t" using siblings_absent tls root_in_preorder by blast+
    with 3 d w True show ?thesis by simp
  qed
qed simp_all

lemma next_in_iff: "next_in a us = Some b \<longleftrightarrow> (\<exists>xs ys. us = xs @ a # b # ys \<and> a \<notin> set xs)"
proof
  assume n: "next_in a us = Some b"
  then obtain c ys where d: "dropWhile (\<lambda>w. w \<noteq> a) us = c # b # ys"
    by (auto simp: next_in_def split: list.splits)
  have "c = a" using hd_dropWhile [of "\<lambda>w. w \<noteq> a" us] d by auto
  moreover have "us = takeWhile (\<lambda>w. w \<noteq> a) us @ c # b # ys" using d takeWhile_dropWhile_id by metis
  moreover have "a \<notin> set (takeWhile (\<lambda>w. w \<noteq> a) us)" using set_takeWhileD by fastforce
  ultimately show "\<exists>xs ys. us = xs @ a # b # ys \<and> a \<notin> set xs" by blast
next
  assume "\<exists>xs ys. us = xs @ a # b # ys \<and> a \<notin> set xs"
  then obtain xs ys where u: "us = xs @ a # b # ys" "a \<notin> set xs" by blast
  then have "dropWhile (\<lambda>w. w \<noteq> a) us = a # b # ys" by (subst u(1), subst dropWhile_append2) auto
  then show "next_in a us = Some b" by (simp add: next_in_def)
qed

lemma next_prev:
  assumes "wf_page p" and "next_sibling p a = Some b"
  shows "prev_sibling p b = Some a"
proof -
  obtain xs ys where s: "siblings a (doc p) = xs @ a # b # ys" "a \<notin> set xs"
    using assms(2) by (auto simp: next_sibling_def next_in_iff)
  have d: "distinct (preorder (doc p))" using assms(1) by (simp add: wf_page_def)
  have "siblings b (doc p) = siblings a (doc p)" using s by (intro siblings_same(1) [OF d]) simp
  moreover have "b \<notin> set ys" using distinct_siblings(1) [OF d, of a] s by simp
  ultimately show ?thesis using s by (auto simp: prev_sibling_def next_in_iff)
qed

section \<open>The line\<close>

text \<open>
  C22: The line has a constant height, whatever the place. Between two adjacent panels of a
  column it is the same line, half way between them, whether the pointer is nearer to the
  upper panel or to the lower one; and it goes away when the drag ends.
\<close>

theorem line_between_neighbours:
  assumes "wf_page p" and "next_sibling p a = Some b"
    and "off_left (box_of l b) = off_left (box_of l a)" and "off_width (box_of l b) = off_width (box_of l a)"
    and "parent_width l b = parent_width l a" and "parent_height l b = parent_height l a"
  shows "line_after l p a = line_before l (space_above l p b) b \<and>
    (case line_after l p a of
       No_Line \<Rightarrow> False
     | Line t r low f \<Rightarrow> t + low = 2 * parent_height l a \<and>
         t = (off_top (box_of l a) + off_height (box_of l a)) + off_top (box_of l b)) \<and>
    (closest q (has_class draggable_class) target \<noteq> None \<and> closest q (has_class container_class) target = Some c \<longrightarrow>
       drag_end_line target q m c = No_Line)"
proof -
  have prev: "prev_sibling p b = Some a" using next_prev [OF assms(1,2)] .
  show ?thesis
    using assms prev
    by (auto simp: line_after_def line_before_def space_below_def space_above_def Let_def drag_end_line_def)
qed

definition demo_layout :: layout where
  "demo_layout = \<lparr>box_of = (\<lambda>u. \<lparr>off_left = 0, off_top = int u * 20, off_width = 10, off_height = 15\<rparr>),
     parent_width = (\<lambda>_. 10), parent_height = (\<lambda>_. 200)\<rparr>"

lemma line_between_neighbours_witness:
  "line_after demo_layout demo_drag 2 = line_before demo_layout (space_above demo_layout demo_drag 3) 3"
proof -
  have h: "wf_page demo_drag" "next_sibling demo_drag 2 = Some 3" by code_simp+
  have g: "off_left (box_of demo_layout 3) = off_left (box_of demo_layout 2)"
    "off_width (box_of demo_layout 3) = off_width (box_of demo_layout 2)"
    "parent_width demo_layout 3 = parent_width demo_layout 2"
    "parent_height demo_layout 3 = parent_height demo_layout 2"
    by (simp_all add: demo_layout_def)
  from line_between_neighbours [OF h g] show ?thesis by blast
qed

end
