(* ===== verification/Form_Utils.thy ===== *)
theory Form_Utils
  imports Dom
begin

text \<open>
  The classic form scripts, \<open>project-static/js/forms.js\<close>: the slug of a name
  (\<open>slugify\<close>) and the fields filled in from other fields (\<open>initializeAutoField\<close> and the
  listeners it installs). A page has its elements and its listeners; an event runs
  the listeners of its target in the order they were added, and an exception ends the
  listener that threw it only.
\<close>

section \<open>Slugs\<close>

text \<open>The classes of the regular expressions: \<open>[_A-Za-z0-9\-\s\.]\<close>, \<open>[\s\.]\<close>, \<open>[\-\.\s]\<close>, \<open>[_A-Za-z]\<close>.\<close>

definition slug_kept :: "char \<Rightarrow> bool" where
  "slug_kept c \<longleftrightarrow> c = CHR ''_'' \<or> is_upper c \<or> is_lower c \<or> is_digit c \<or>
     c = CHR ''-'' \<or> js_space c \<or> c = CHR ''.''"

definition slug_trimmed :: "char \<Rightarrow> bool" where
  "slug_trimmed c \<longleftrightarrow> js_space c \<or> c = CHR ''.''"

definition slug_gap :: "char \<Rightarrow> bool" where
  "slug_gap c \<longleftrightarrow> c = CHR ''-'' \<or> c = CHR ''.'' \<or> js_space c"

definition slug_start :: "char \<Rightarrow> bool" where
  "slug_start c \<longleftrightarrow> c = CHR ''_'' \<or> is_upper c \<or> is_lower c"

definition trim_slug :: "string \<Rightarrow> string" where
  "trim_slug s = rev (dropWhile slug_trimmed (rev (dropWhile slug_trimmed s)))"

text \<open>\<open>replace(/[\-\.\s]+/g, '-')\<close>: every run of separators becomes one hyphen.\<close>

function hyphenate :: "string \<Rightarrow> string" where
  "hyphenate [] = []"
| "hyphenate (c # s) =
     (if slug_gap c then CHR ''-'' # hyphenate (dropWhile slug_gap s) else c # hyphenate s)"
  by pat_completeness auto
termination
  by (relation "measure length") (auto simp: le_imp_less_Suc length_dropWhile_le)

definition underscore :: "char \<Rightarrow> char" where
  "underscore c = (if c = CHR ''-'' then CHR ''_'' else c)"

definition fix_start :: "string \<Rightarrow> string" where
  "fix_start s = (case s of [] \<Rightarrow> [] | c # _ \<Rightarrow> if slug_start c then s else CHR ''a'' # s)"

definition slugify :: "string \<Rightarrow> int \<Rightarrow> string" where
  "slugify s num_chars =
     take (nat num_chars)
       (fix_start (map underscore (to_lower (hyphenate (trim_slug (filter slug_kept s))))))"

text \<open>The characters of a slug.\<close>

definition slug_char :: "char \<Rightarrow> bool" where
  "slug_char c \<longleftrightarrow> c = CHR ''_'' \<or> is_lower c \<or> is_digit c"

lemma slug_char_facts:
  assumes "slug_char c"
  shows "slug_kept c" and "\<not> slug_trimmed c" and "\<not> slug_gap c" and "lower_char c = c" and "underscore c = c"
  using assms
  by (auto simp: slug_char_def slug_kept_def slug_trimmed_def slug_gap_def lower_char_def underscore_def
      is_lower_def is_digit_def js_space_def Let_def)

lemma hyphenate_set:
  "\<forall>c \<in> set s. slug_kept c \<Longrightarrow> c \<in> set (hyphenate s) \<Longrightarrow> slug_kept c \<and> (slug_gap c \<longrightarrow> c = CHR ''-'')"
proof (induction s rule: hyphenate.induct)
  case (2 x s)
  have "\<forall>c \<in> set (dropWhile slug_gap s). slug_kept c" using "2.prems"(1) by (auto dest: set_dropWhileD)
  with 2 show ?case by (auto simp: slug_kept_def split: if_splits)
qed simp

lemma trim_slug_set: "c \<in> set (trim_slug s) \<Longrightarrow> c \<in> set s"
  by (auto simp: trim_slug_def dest!: set_dropWhileD)

lemma of_char_lower:
  "is_upper c \<Longrightarrow> is_lower (lower_char c)"
proof -
  assume "is_upper c"
  then have n: "65 \<le> (of_char c :: nat)" "of_char c \<le> (90 :: nat)" by (auto simp: is_upper_def)
  then have "lower_char c = char_of ((of_char c :: nat) + 32)" by (simp add: lower_char_def)
  moreover have "(of_char (char_of ((of_char c :: nat) + 32) :: char) :: nat) = of_char c + 32"
    using n by simp
  ultimately show ?thesis using n by (simp add: is_lower_def)
qed

lemma slug_char_mapped:
  assumes "slug_kept c" and "slug_gap c \<longrightarrow> c = CHR ''-''"
  shows "slug_char (underscore (lower_char c))"
proof (cases "is_upper c")
  case True
  then have l: "is_lower (lower_char c)" by (rule of_char_lower)
  then have "lower_char c \<noteq> CHR ''-''" by (auto simp: is_lower_def)
  with l show ?thesis by (simp add: underscore_def slug_char_def)
next
  case False
  show ?thesis
  proof (cases "c = CHR ''-''")
    case True
    then show ?thesis by (simp add: slug_char_def underscore_def lower_char_def)
  next
    case no_hyphen: False
    with False assms have "slug_char c"
      unfolding slug_kept_def slug_gap_def slug_char_def by blast
    then show ?thesis by (simp add: slug_char_facts)
  qed
qed

lemma slug_body_chars:
  "\<forall>c \<in> set (map underscore (to_lower (hyphenate (trim_slug (filter slug_kept s))))). slug_char c"
proof -
  have "\<forall>c \<in> set (trim_slug (filter slug_kept s)). slug_kept c" using trim_slug_set by fastforce
  from hyphenate_set [OF this] show ?thesis by (auto simp: to_lower_def intro: slug_char_mapped)
qed

lemma slug_char_a: "slug_char (CHR ''a'')" "slug_start (CHR ''a'')"
  by (simp_all add: slug_char_def slug_start_def is_lower_def)

lemma fix_start_cases: "fix_start s = s \<and> (s \<noteq> [] \<longrightarrow> slug_start (hd s)) \<or> fix_start s = CHR ''a'' # s"
  by (auto simp: fix_start_def split: list.split)

lemma fix_start_chars: "\<forall>c \<in> set s. slug_char c \<Longrightarrow> \<forall>c \<in> set (fix_start s). slug_char c"
  using fix_start_cases [of s] slug_char_a by auto

lemma fix_start_hd: "fix_start s \<noteq> [] \<Longrightarrow> slug_start (hd (fix_start s))"
  using fix_start_cases [of s] slug_char_a by auto

lemma slugify_chars: "\<forall>c \<in> set (slugify s n). slug_char c"
  using fix_start_chars [OF slug_body_chars [of s]] by (auto simp: slugify_def dest: in_set_takeD)

lemma slugify_start: "slugify s n \<noteq> [] \<Longrightarrow> slug_start (hd (slugify s n))"
  using fix_start_hd by (auto simp: slugify_def hd_take)

lemma hyphenate_id: "\<forall>c \<in> set s. \<not> slug_gap c \<Longrightarrow> hyphenate s = s"
  by (induction s) auto

lemma trim_slug_id:
  assumes "\<forall>c \<in> set s. \<not> slug_trimmed c"
  shows "trim_slug s = s"
proof -
  have *: "dropWhile slug_trimmed t = t" if "set t \<subseteq> set s" for t
    using that assms by (cases t) auto
  show ?thesis by (simp add: trim_slug_def * )
qed

lemma slugify_of_slug:
  assumes "\<forall>c \<in> set s. slug_char c" and "s \<noteq> [] \<Longrightarrow> slug_start (hd s)"
  shows "slugify s n = take (nat n) s"
proof -
  have "filter slug_kept s = s" "trim_slug s = s" "hyphenate s = s" "to_lower s = s" "map underscore s = s"
    using assms(1) slug_char_facts
    by (auto simp: to_lower_def intro!: filter_True trim_slug_id hyphenate_id map_idI)
  moreover have "fix_start s = s" using assms(2) by (auto simp: fix_start_def split: list.split)
  ultimately show ?thesis by (simp add: slugify_def)
qed

lemma slug_start_char: "slug_start c \<Longrightarrow> slug_char c \<Longrightarrow> is_lower c \<or> c = CHR ''_''"
  unfolding slug_start_def slug_char_def is_upper_def is_lower_def is_digit_def by linarith

text \<open>
  C23: A slug has at most the allowed number of characters, all of them lower-case letters,
  digits or underscores, it starts with a letter or an underscore, and slugifying a slug
  again changes nothing.
\<close>

theorem slugify_makes_slugs:
  "length (slugify s n) \<le> nat n \<and>
   list_all slug_char (slugify s n) \<and>
   (slugify s n = [] \<or> is_lower (hd (slugify s n)) \<or> hd (slugify s n) = CHR ''_'') \<and>
   slugify (slugify s n) n = slugify s n"
proof (intro conjI)
  show "length (slugify s n) \<le> nat n" by (simp add: slugify_def)
  show "list_all slug_char (slugify s n)" using slugify_chars by (simp add: list_all_iff)
  show "slugify s n = [] \<or> is_lower (hd (slugify s n)) \<or> hd (slugify s n) = CHR ''_''"
    using slugify_start [of s n] slugify_chars [of s n] slug_start_char [of "hd (slugify s n)"]
    by (meson list.set_sel(1))
  show "slugify (slugify s n) n = slugify s n"
    using slugify_of_slug [OF slugify_chars [of s n] slugify_start [of s n], of n]
    by (simp add: slugify_def)
qed

lemma slugify_example: "slugify ''  ACME Corp. (NYC-01) '' 100 = ''acme_corp_nyc_01''"
  by code_simp

lemma slugify_digit_example: "slugify ''3rd floor'' 5 = ''a3rd_''"
  by code_simp

section \<open>Fields filled in from other fields\<close>

text \<open>
  \<open>initializeAutoField\<close> closes over the field, its sources, its length and the
  transformation (\<open>slugify\<close> or none).
\<close>

record auto_field =
  target :: uid
  sources :: "string list"
  max_length :: int
  slugged :: bool

datatype hook =
  If_Unchanged auto_field
| Regenerate auto_field
| Manual_Change uid

record form_page = page +
  hooks :: "(uid \<times> string \<times> hook) list"

definition add_hook :: "uid \<Rightarrow> string \<Rightarrow> hook \<Rightarrow> form_page \<Rightarrow> form_page" where
  "add_hook u ev h p = p\<lparr>hooks := hooks p @ [(u, ev, h)]\<rparr>"

text \<open>
  A length attribute as an argument of \<open>slice\<close> and \<open>substring\<close>: a decimal integer is its
  value, anything else \<open>NaN\<close>, which is read as 0.
\<close>

definition index_arg :: "string \<Rightarrow> int" where
  "index_arg s =
     (let t = js_trim s;
          u = (case t of c # r \<Rightarrow> if c = CHR ''-'' \<or> c = CHR ''+'' then r else t | [] \<Rightarrow> t)
      in if u \<noteq> [] \<and> list_all is_digit u then the (parse_int t) else 0)"

definition slice_to :: "string \<Rightarrow> int \<Rightarrow> string" where
  "slice_to s n = take (nat (if n < 0 then int (length s) + n else n)) s"

text \<open>\<open>context.getElementById(`id_${name}`).value\<close> of every source; a missing one throws.\<close>

definition source_field :: "'a page_scheme \<Rightarrow> string \<Rightarrow> uid option" where
  "source_field p name = by_id p (''id_'' @ name)"

fun source_values :: "'a page_scheme \<Rightarrow> string list \<Rightarrow> string list option" where
  "source_values p [] = Some []"
| "source_values p (name # names) =
     (case source_field p name of
        None \<Rightarrow> None
      | Some u \<Rightarrow>
          (case source_values p names of
             None \<Rightarrow> None
           | Some vs \<Rightarrow> Some (val_of (heap p u) # vs)))"

definition auto_value :: "auto_field \<Rightarrow> string list \<Rightarrow> string" where
  "auto_value a vs =
     (let v = join_str '' '' vs
      in if slugged a then slugify v (max_length a) else slice_to v (max_length a))"

definition repopulate_auto_field :: "auto_field \<Rightarrow> form_page \<Rightarrow> form_page outcome" where
  "repopulate_auto_field a p =
     (case source_values p (sources a) of
        None \<Rightarrow> Throw TypeError p
      | Some vs \<Rightarrow> Done (upd (target a) (\<lambda>e. e\<lparr>val_of := auto_value a vs\<rparr>) p))"

definition manually_changed :: "elem \<Rightarrow> bool" where
  "manually_changed e \<longleftrightarrow> get_attr ''data-manually-changed'' e = Some ''true''"

definition repopulate_if_changed :: "auto_field \<Rightarrow> form_page \<Rightarrow> form_page outcome" where
  "repopulate_if_changed a p =
     (if manually_changed (heap p (target a)) then Done p else repopulate_auto_field a p)"

definition note_manual :: "elem \<Rightarrow> elem" where
  "note_manual e = set_attr ''data-manually-changed'' (show_bool (val_of e \<noteq> [])) e"

fun run_hook :: "hook \<Rightarrow> form_page \<Rightarrow> form_page outcome" where
  "run_hook (If_Unchanged a) p = repopulate_if_changed a p"
| "run_hook (Regenerate a) p = repopulate_auto_field a p"
| "run_hook (Manual_Change u) p = Done (upd u note_manual p)"

definition hooks_of :: "uid \<Rightarrow> string \<Rightarrow> (uid \<times> string \<times> hook) list \<Rightarrow> hook list" where
  "hooks_of u ev hs = map (\<lambda>(v, e, h). h) (filter (\<lambda>(v, e, h). v = u \<and> e = ev) hs)"

text \<open>An event runs every listener of its target, also after one that threw.\<close>

definition fire :: "string \<Rightarrow> uid \<Rightarrow> form_page \<Rightarrow> form_page" where
  "fire ev u p = fold (\<lambda>h q. final_state (run_hook h q)) (hooks_of u ev (hooks p)) p"

definition watch_manual_changes :: "uid \<Rightarrow> form_page \<Rightarrow> form_page" where
  "watch_manual_changes u p = add_hook u ''change'' (Manual_Change u) (upd u note_manual p)"

definition watch_source :: "auto_field \<Rightarrow> string \<Rightarrow> form_page \<Rightarrow> form_page" where
  "watch_source a name p =
     (case source_field p name of
        None \<Rightarrow> p
      | Some u \<Rightarrow> add_hook u ''change'' (If_Unchanged a) (add_hook u ''keyup'' (If_Unchanged a) p))"

definition watch_source_fields :: "auto_field \<Rightarrow> form_page \<Rightarrow> form_page" where
  "watch_source_fields a p = fold (watch_source a) (sources a) p"

definition regenerate_button :: "'a page_scheme \<Rightarrow> uid \<Rightarrow> uid option" where
  "regenerate_button p u =
     doc_qs p (\<lambda>e. get_attr ''data-regenerate'' e = Some (id_text (get_attr ''id'' (heap p u))))"

definition watch_regenerate_button :: "auto_field \<Rightarrow> form_page \<Rightarrow> form_page" where
  "watch_regenerate_button a p =
     (case regenerate_button p (target a) of
        None \<Rightarrow> p
      | Some b \<Rightarrow> add_hook b ''click'' (Regenerate a) p)"

definition auto_field_of :: "uid \<Rightarrow> string \<Rightarrow> int \<Rightarrow> bool \<Rightarrow> 'a page_scheme \<Rightarrow> auto_field option" where
  "auto_field_of u attr default_length slug p =
     (case get_attr attr (heap p u) of
        None \<Rightarrow> None
      | Some names \<Rightarrow>
          if names = [] then None
          else
            let ml = get_attr ''maxlength'' (heap p u);
                n = (if ml = None \<or> ml = Some [] then default_length else index_arg (the ml))
            in Some \<lparr>target = u, sources = split_char (CHR '' '') names, max_length = n, slugged = slug\<rparr>)"

definition initialize_auto_field ::
    "uid \<Rightarrow> string \<Rightarrow> int \<Rightarrow> bool \<Rightarrow> form_page \<Rightarrow> form_page" where
  "initialize_auto_field u attr default_length slug p =
     (case auto_field_of u attr default_length slug p of
        None \<Rightarrow> p
      | Some a \<Rightarrow> watch_manual_changes u (watch_regenerate_button a (watch_source_fields a p)))"

definition get_slug_field :: "'a page_scheme \<Rightarrow> uid option" where
  "get_slug_field p =
     (case by_id p ''id_slug'' of Some u \<Rightarrow> Some u | None \<Rightarrow> by_id p ''id_key'')"

definition initialize_slug_field :: "form_page \<Rightarrow> form_page" where
  "initialize_slug_field p =
     (case get_slug_field p of
        None \<Rightarrow> p
      | Some u \<Rightarrow> initialize_auto_field u ''slug-source'' 100 True p)"

definition initialize_auto_populate_field :: "form_page \<Rightarrow> form_page" where
  "initialize_auto_populate_field p =
     fold (\<lambda>u. initialize_auto_field u ''source'' 255 False)
       (doc_qsa p (\<lambda>e. get_attr ''data-autopopulate'' e \<noteq> None)) p"

text \<open>What the user does: a key in a source field, a new value of the target, the button.\<close>

datatype auto_event =
  Edit_Source uid string
| Edit_Target string
| Click_Regenerate

definition set_val :: "string \<Rightarrow> elem \<Rightarrow> elem" where
  "set_val v e = e\<lparr>val_of := v\<rparr>"

fun auto_step :: "uid \<Rightarrow> uid \<Rightarrow> auto_event \<Rightarrow> form_page \<Rightarrow> form_page" where
  "auto_step t b (Edit_Source u v) p = fire ''keyup'' u (upd u (set_val v) p)"
| "auto_step t b (Edit_Target v) p = fire ''change'' t (upd t (set_val v) p)"
| "auto_step t b Click_Regenerate p = fire ''click'' b p"

section \<open>An automatic field as its users see it\<close>

text \<open>
  What the form promises: until its field is edited by hand to something, the field follows
  its sources; the button fills it in once.
\<close>

record auto_view =
  source_vals :: "string list"
  target_val :: string
  by_hand :: bool

fun view_step :: "auto_field \<Rightarrow> uid list \<Rightarrow> auto_event \<Rightarrow> auto_view \<Rightarrow> auto_view" where
  "view_step a us (Edit_Source u v) s =
     (let vs = map2 (\<lambda>w x. if w = u then v else x) us (source_vals s)
      in s\<lparr>source_vals := vs, target_val := (if by_hand s then target_val s else auto_value a vs)\<rparr>)"
| "view_step a us (Edit_Target v) s = s\<lparr>target_val := v, by_hand := (v \<noteq> [])\<rparr>"
| "view_step a us Click_Regenerate s = s\<lparr>target_val := auto_value a (source_vals s)\<rparr>"

definition view_of :: "auto_field \<Rightarrow> uid list \<Rightarrow> 'a page_scheme \<Rightarrow> auto_view" where
  "view_of a us p =
     \<lparr>source_vals = map (\<lambda>u. val_of (heap p u)) us,
      target_val = val_of (heap p (target a)),
      by_hand = manually_changed (heap p (target a))\<rparr>"

definition source_hooks :: "auto_field \<Rightarrow> uid list \<Rightarrow> (uid \<times> string \<times> hook) list" where
  "source_hooks a us =
     concat (map (\<lambda>u. [(u, ''keyup'', If_Unchanged a), (u, ''change'', If_Unchanged a)]) us)"

definition auto_hooks :: "auto_field \<Rightarrow> uid list \<Rightarrow> uid \<Rightarrow> (uid \<times> string \<times> hook) list" where
  "auto_hooks a us b =
     source_hooks a us @ [(b, ''click'', Regenerate a), (target a, ''change'', Manual_Change (target a))]"

definition auto_form :: "auto_field \<Rightarrow> uid list \<Rightarrow> uid \<Rightarrow> 'a page_scheme \<Rightarrow> bool" where
  "auto_form a us b p \<longleftrightarrow>
     map (source_field p) (sources a) = map Some us \<and>
     regenerate_button p (target a) = Some b \<and>
     distinct (target a # b # us)"

definition known_source :: "uid list \<Rightarrow> auto_event \<Rightarrow> bool" where
  "known_source us e = (case e of Edit_Source u v \<Rightarrow> List.member us u | _ \<Rightarrow> True)"

lemma hooks_upd [simp]: "hooks (upd u f p) = hooks p"
  by (simp add: upd_def)

lemma add_hook_simps [simp]:
  "hooks (add_hook u ev h p) = hooks p @ [(u, ev, h)]"
  "heap (add_hook u ev h p) = heap p" "doc (add_hook u ev h p) = doc p"
  by (simp_all add: add_hook_def)

lemma source_field_cong: "untouched as [] p q \<Longrightarrow> ''id'' \<notin> set as \<Longrightarrow> source_field q = source_field p"
  by (intro ext) (simp add: source_field_def untouched_by_id)

lemma add_hook_untouched [simp]: "untouched as cs p (add_hook u ev h p)"
  by (simp add: untouched_def)

lemma set_val_untouched [simp]: "untouched as cs p (upd u (set_val v) p)"
  by (auto simp: untouched_def heap_upd set_val_def)

lemma fill_untouched [simp]: "untouched as cs p (upd u (\<lambda>e. e\<lparr>val_of := v\<rparr>) p)"
  by (auto simp: untouched_def heap_upd)

lemma note_manual_untouched [simp]: "untouched [''data-manually-changed''] cs p (upd u note_manual p)"
  by (auto simp: untouched_def heap_upd note_manual_def)

lemma set_val_simps [simp]:
  "val_of (set_val v e) = v" "get_attr n (set_val v e) = get_attr n e"
  "manually_changed (set_val v e) = manually_changed e"
  by (simp_all add: set_val_def manually_changed_def)

lemma fill_manual [simp]: "manually_changed (e\<lparr>val_of := v\<rparr>) = manually_changed e"
  by (simp add: manually_changed_def)

lemma note_manual_simps [simp]:
  "val_of (note_manual e) = val_of e" "manually_changed (note_manual e) = (val_of e \<noteq> [])"
  by (simp_all add: note_manual_def manually_changed_def)

lemma source_values_all:
  "map (source_field p) ns = map Some us \<Longrightarrow> source_values p ns = Some (map (\<lambda>u. val_of (heap p u)) us)"
  by (induction ns arbitrary: us) auto

lemma source_values_missing:
  "n \<in> set ns \<Longrightarrow> source_field p n = None \<Longrightarrow> source_values p ns = None"
  by (induction ns) (auto split: option.splits)

lemma hooks_of_append [simp]: "hooks_of u ev (hs @ hs') = hooks_of u ev hs @ hooks_of u ev hs'"
  by (simp add: hooks_of_def)

lemma hooks_of_Cons [simp]:
  "hooks_of u ev ((v, e, h) # hs) = (if v = u \<and> e = ev then [h] else []) @ hooks_of u ev hs"
  by (simp add: hooks_of_def)

lemma hooks_of_Nil [simp]: "hooks_of u ev [] = []"
  by (simp add: hooks_of_def)

lemma hooks_of_sources:
  "hooks_of u ev (source_hooks a us) =
     (if ev = ''keyup'' \<or> ev = ''change'' then map (\<lambda>_. If_Unchanged a) (filter (\<lambda>v. v = u) us) else [])"
  by (induction us) (auto simp: source_hooks_def)

lemma hooks_of_auto:
  assumes "distinct (target a # b # us)"
  shows "u \<in> set us \<Longrightarrow> hooks_of u ''keyup'' (auto_hooks a us b) = [If_Unchanged a]"
    and "hooks_of (target a) ''change'' (auto_hooks a us b) = [Manual_Change (target a)]"
    and "hooks_of b ''click'' (auto_hooks a us b) = [Regenerate a]"
  using assms
  by (auto simp: auto_hooks_def hooks_of_sources filter_eq_single filter_empty_conv)

text \<open>What initialization installs.\<close>

lemma watch_source_fields_hooks:
  "map (source_field p) ns = map Some us \<Longrightarrow>
     hooks (fold (watch_source a) ns p) = hooks p @ source_hooks a us \<and>
     heap (fold (watch_source a) ns p) = heap p \<and> doc (fold (watch_source a) ns p) = doc p"
proof (induction ns arbitrary: us p)
  case (Cons n ns)
  then obtain u us' where us: "us = u # us'" "source_field p n = Some u"
    and r: "map (source_field p) ns = map Some us'" by auto
  have "source_field (watch_source a n p) = source_field p"
    by (rule source_field_cong [of "[]"])
       (auto simp: watch_source_def us(2) untouched_def)
  then show ?case
    using Cons.IH [of "watch_source a n p" us'] r us
    by (simp add: watch_source_def source_hooks_def)
qed (simp add: source_hooks_def)

lemma regenerate_button_cong:
  assumes "doc q = doc p" and "\<And>u. get_attr ''id'' (heap q u) = get_attr ''id'' (heap p u)"
    and "\<And>u. get_attr ''data-regenerate'' (heap q u) = get_attr ''data-regenerate'' (heap p u)"
  shows "regenerate_button q t = regenerate_button p t"
  unfolding regenerate_button_def using assms by (intro doc_qs_cong) auto

lemma initialize_auto_field_state:
  assumes a: "auto_field_of t attr d sl p = Some a" and f: "auto_form a us b p" and h: "hooks p = []"
  shows "hooks (initialize_auto_field t attr d sl p) = auto_hooks a us b \<and>
    untouched [''data-manually-changed''] [] p (initialize_auto_field t attr d sl p) \<and>
    view_of a us (initialize_auto_field t attr d sl p) =
      (view_of a us p)\<lparr>by_hand := (val_of (heap p (target a)) \<noteq> [])\<rparr>"
proof -
  have t: "target a = t" using a by (auto simp: auto_field_of_def Let_def split: option.splits if_splits)
  define q where "q = watch_source_fields a p"
  have q: "hooks q = source_hooks a us" "heap q = heap p" "doc q = doc p"
    using watch_source_fields_hooks [of p "sources a" us a] f h
    by (auto simp: q_def watch_source_fields_def auto_form_def)
  have "regenerate_button q t = Some b"
    using f q t regenerate_button_cong [of q p t] by (auto simp: auto_form_def)
  then have i: "initialize_auto_field t attr d sl p = watch_manual_changes t (add_hook b ''click'' (Regenerate a) q)"
    using a t by (simp add: initialize_auto_field_def watch_regenerate_button_def q_def)
  show ?thesis
    using f q t
    by (auto simp: i watch_manual_changes_def auto_hooks_def untouched_def heap_upd view_of_def
        auto_form_def note_manual_def manually_changed_def)
qed

text \<open>One event, on a page whose listeners are those of the field.\<close>

definition live_form :: "auto_field \<Rightarrow> uid list \<Rightarrow> uid \<Rightarrow> form_page \<Rightarrow> bool" where
  "live_form a us b p \<longleftrightarrow> auto_form a us b p \<and> hooks p = auto_hooks a us b"

lemma live_form_keep:
  "live_form a us b p \<Longrightarrow> hooks q = hooks p \<Longrightarrow> untouched [''data-manually-changed''] [] p q \<Longrightarrow>
     live_form a us b q"
  using source_field_cong [of "[''data-manually-changed'']" p q] regenerate_button_cong [of q p "target a"]
  by (auto simp: live_form_def auto_form_def untouched_doc untouched_attr)

lemma map2_update:
  "map (\<lambda>w. if w = u then v else g w) us = map2 (\<lambda>w x. if w = u then v else x) us (map g us)"
  by (induction us) auto

lemma repopulate_live:
  assumes "live_form a us b p"
  shows "repopulate_auto_field a p =
    Done (upd (target a) (\<lambda>e. e\<lparr>val_of := auto_value a (map (\<lambda>u. val_of (heap p u)) us)\<rparr>) p)"
  using assms source_values_all [of p "sources a" us]
  by (simp add: repopulate_auto_field_def live_form_def auto_form_def)

lemma live_form_set_val: "live_form a us b p \<Longrightarrow> live_form a us b (upd u (set_val v) p)"
  by (erule live_form_keep) auto

lemma edit_source_step:
  assumes l: "live_form a us b p" and u: "u \<in> set us"
  shows "live_form a us b (auto_step (target a) b (Edit_Source u v) p) \<and>
    view_of a us (auto_step (target a) b (Edit_Source u v) p) = view_step a us (Edit_Source u v) (view_of a us p)"
proof -
  define q where "q = upd u (set_val v) p"
  have lq: "live_form a us b q" using l by (simp add: q_def live_form_set_val)
  have d: "distinct (target a # b # us)" "hooks q = auto_hooks a us b"
    using lq by (auto simp: live_form_def auto_form_def)
  have t: "target a \<noteq> u" using d(1) u by auto
  have m: "manually_changed (heap q (target a)) = manually_changed (heap p (target a))"
    and tv: "val_of (heap q (target a)) = val_of (heap p (target a))"
    using t by (auto simp: q_def heap_upd)
  have vs: "map (\<lambda>w. val_of (heap q w)) us =
      map2 (\<lambda>w x. if w = u then v else x) us (map (\<lambda>w. val_of (heap p w)) us)"
    by (simp add: q_def heap_upd if_distrib [of val_of] map2_update [symmetric] cong: if_cong)
  have s: "auto_step (target a) b (Edit_Source u v) p =
      (if manually_changed (heap q (target a)) then q
       else upd (target a) (\<lambda>e. e\<lparr>val_of := auto_value a (map (\<lambda>w. val_of (heap q w)) us)\<rparr>) q)"
    using hooks_of_auto(1) [OF d(1) u] d(2) repopulate_live [OF lq]
    by (simp add: fire_def repopulate_if_changed_def flip: q_def)
  have w: "map (\<lambda>w. val_of (heap (upd (target a) (\<lambda>e. e\<lparr>val_of := x\<rparr>) q) w)) us =
      map (\<lambda>w. val_of (heap q w)) us" for x
    using d(1) by (auto simp: heap_upd)
  have "live_form a us b (upd (target a) (\<lambda>e. e\<lparr>val_of := x\<rparr>) q)" for x
    using lq by (rule live_form_keep) auto
  then show ?thesis
    using lq vs w m tv unfolding s by (auto simp: view_of_def Let_def simp del: map_eq_conv auto_step.simps)
qed

lemma edit_target_step:
  assumes l: "live_form a us b p"
  shows "live_form a us b (auto_step (target a) b (Edit_Target v) p) \<and>
    view_of a us (auto_step (target a) b (Edit_Target v) p) = view_step a us (Edit_Target v) (view_of a us p)"
proof -
  have d: "distinct (target a # b # us)" "hooks p = auto_hooks a us b"
    using l by (auto simp: live_form_def auto_form_def)
  have s: "auto_step (target a) b (Edit_Target v) p = upd (target a) note_manual (upd (target a) (set_val v) p)"
    using hooks_of_auto(2) [OF d(1)] d(2) by (simp add: fire_def)
  have "live_form a us b (upd (target a) note_manual (upd (target a) (set_val v) p))"
    by (rule live_form_keep [OF live_form_set_val [OF l, of "target a" v]]) auto
  then show ?thesis using d(1) unfolding s by (auto simp: view_of_def heap_upd)
qed

lemma regenerate_step:
  assumes l: "live_form a us b p"
  shows "live_form a us b (auto_step (target a) b Click_Regenerate p) \<and>
    view_of a us (auto_step (target a) b Click_Regenerate p) = view_step a us Click_Regenerate (view_of a us p)"
proof -
  have d: "distinct (target a # b # us)" "hooks p = auto_hooks a us b"
    using l by (auto simp: live_form_def auto_form_def)
  have s: "auto_step (target a) b Click_Regenerate p =
      upd (target a) (\<lambda>e. e\<lparr>val_of := auto_value a (map (\<lambda>u. val_of (heap p u)) us)\<rparr>) p"
    using hooks_of_auto(3) [OF d(1)] d(2) repopulate_live [OF l] by (simp add: fire_def)
  have "live_form a us b (upd (target a) (\<lambda>e. e\<lparr>val_of := x\<rparr>) p)" for x
    using l by (rule live_form_keep) auto
  then show ?thesis using d(1) unfolding s by (auto simp: view_of_def heap_upd)
qed

interpretation live: simulation "auto_step (target a) b" "known_source us" "live_form a us b" "view_step a us" "view_of a us"
  for a us b
proof
  fix p e
  assume l: "live_form a us b p" and k: "known_source us e"
  have "live_form a us b (auto_step (target a) b e p) \<and>
      view_of a us (auto_step (target a) b e p) = view_step a us e (view_of a us p)"
    using k edit_source_step [OF l] edit_target_step [OF l] regenerate_step [OF l]
    by (cases e) (auto simp: known_source_def simp del: auto_step.simps view_step.simps)
  then show "live_form a us b (auto_step (target a) b e p)"
    and "view_of a us (auto_step (target a) b e p) = view_step a us e (view_of a us p)" by blast+
qed


definition demo_heap :: "uid \<Rightarrow> elem" where
  "demo_heap u =
     (if u = 2 then set_attr ''id'' ''id_name'' (new_elem ''INPUT'')
      else if u = 3 then set_attr ''slug-source'' ''name'' (set_attr ''id'' ''id_slug'' (new_elem ''INPUT''))
      else if u = 4 then set_attr ''data-regenerate'' ''id_slug'' (new_elem ''BUTTON'')
      else new_elem ''FORM'')"

definition demo_form :: form_page where
  "demo_form = \<lparr>doc = Node 0 [Node 2 [], Node 3 [], Node 4 []], heap = demo_heap, focus = None, hooks = []\<rparr>"

definition demo_auto :: auto_field where
  "demo_auto = \<lparr>target = 3, sources = [''name''], max_length = 100, slugged = True\<rparr>"

lemma demo_auto_of: "auto_field_of 3 ''slug-source'' 100 True demo_form = Some demo_auto"
  by code_simp

lemma demo_auto_form: "auto_form demo_auto [2] 4 demo_form"
  by code_simp


text \<open>A source that is not on the page makes every listener of the field throw.\<close>

lemma missing_source_throws:
  assumes "n \<in> set (sources a)" and "source_field p n = None"
  shows "repopulate_auto_field a p = Throw TypeError p"
  using source_values_missing [OF assms] by (simp add: repopulate_auto_field_def)

end
