(* ===== verification/Form_Widgets.thy ===== *)
theory Form_Widgets
  imports Dom
begin

text \<open>
  The remaining widgets of the forms, \<open>project-static/js/forms.js\<close> and
  \<open>ui/src/js/form.js\<close>: the VLAN fields that follow the interface mode
  (\<open>initializeVLANModeSelection\<close>), the fields a bulk edit clears
  (\<open>initializeBulkEditNullification\<close>), the page field of the paginator
  (\<open>initializePaginatorGoTo\<close>), submitting, the ids of fields (\<open>getFieldAutoId\<close>) and
  the load event of a form (\<open>initializeFormEvents\<close>).
\<close>

section \<open>Fields of a form\<close>

text \<open>
  The selects of a page: the values of their options and the chosen ones; the elements
  jQuery hides with \<open>toggle\<close>; a log of the \<open>change\<close> events the scripts trigger and of
  the forms they submit.
\<close>

record widget_page = page +
  choices :: "uid \<Rightarrow> string list"
  picked :: "uid \<Rightarrow> string list"
  shown :: "uid \<Rightarrow> bool"
  changed :: "uid list"
  submitted :: "uid list"

lemma widget_upd [simp]:
  "choices (upd u f p) = choices p" "picked (upd u f p) = picked p" "shown (upd u f p) = shown p"
  "changed (upd u f p) = changed p" "submitted (upd u f p) = submitted p"
  by (simp_all add: upd_def)

text \<open>\<open>val("")\<close> and \<open>val(null)\<close> of jQuery select the options with an empty value, or nothing.\<close>

definition blank_choice :: "string list \<Rightarrow> string list" where
  "blank_choice vs = (if List.member vs [] then [[]] else [])"

definition clear_field :: "uid option \<Rightarrow> widget_page \<Rightarrow> widget_page" where
  "clear_field f p =
     (case f of
        None \<Rightarrow> p
      | Some u \<Rightarrow> p\<lparr>picked := (picked p)(u := blank_choice (choices p u)), changed := changed p @ [u]\<rparr>)"

definition parent_of :: "'a page_scheme \<Rightarrow> uid \<Rightarrow> uid option" where
  "parent_of p u = (case path_to u (doc p) of _ # v # _ \<Rightarrow> Some v | _ \<Rightarrow> None)"

section \<open>VLAN fields by interface mode\<close>

record vlan_fields =
  untagged :: "uid option"
  tagged :: "uid option"
  add_tagged :: "uid option"
  remove_tagged :: "uid option"

definition find_field_row :: "'a page_scheme \<Rightarrow> uid option \<Rightarrow> uid option" where
  "find_field_row p f =
     (case f of
        None \<Rightarrow> None
      | Some u \<Rightarrow>
          (case closest p (has_class ''nb-form-group'') u of
             Some r \<Rightarrow> Some r
           | None \<Rightarrow>
               (case closest p (has_class ''col-md-9'') u of
                  Some c \<Rightarrow> parent_of p c
                | None \<Rightarrow> None)))"

definition set_row_visible :: "uid option \<Rightarrow> bool \<Rightarrow> 'a page_scheme \<Rightarrow> 'a page_scheme" where
  "set_row_visible r visible p =
     (case r of None \<Rightarrow> p | Some u \<Rightarrow> upd u (class_toggle ''d-none'' (Some (\<not> visible))) p)"

definition show_rows :: "vlan_fields \<Rightarrow> bool \<Rightarrow> bool \<Rightarrow> bool \<Rightarrow> bool \<Rightarrow> 'a page_scheme \<Rightarrow> 'a page_scheme" where
  "show_rows rows a b c d p =
     set_row_visible (remove_tagged rows) d
       (set_row_visible (add_tagged rows) c
         (set_row_visible (tagged rows) b
           (set_row_visible (untagged rows) a p)))"

definition clear_tagged :: "vlan_fields \<Rightarrow> widget_page \<Rightarrow> widget_page" where
  "clear_tagged fs p =
     clear_field (remove_tagged fs) (clear_field (add_tagged fs) (clear_field (tagged fs) p))"

definition apply_mode :: "vlan_fields \<Rightarrow> vlan_fields \<Rightarrow> string \<Rightarrow> widget_page \<Rightarrow> widget_page" where
  "apply_mode fs rows mode p =
     (if mode = [] then
        show_rows rows False False False False (clear_tagged fs (clear_field (untagged fs) p))
      else if mode = ''access'' then show_rows rows True False False False (clear_tagged fs p)
      else if mode = ''tagged'' then show_rows rows True True True True p
      else if mode = ''tagged-all'' then show_rows rows True False False False (clear_tagged fs p)
      else p)"

text \<open>\<open>$mode.val()\<close>, with \<open>null\<close> read as the empty mode.\<close>

definition mode_of :: "widget_page \<Rightarrow> uid \<Rightarrow> string" where
  "mode_of p m = (case picked p m of [] \<Rightarrow> [] | v # _ \<Rightarrow> v)"

definition vlan_root :: "'a page_scheme \<Rightarrow> uid \<Rightarrow> uid option" where
  "vlan_root p m =
     (case closest p (\<lambda>e. tag e = ''FORM'') m of
        Some r \<Rightarrow> Some r
      | None \<Rightarrow> closest p (\<lambda>e. has_class ''card'' e \<or> has_class ''card-body'' e) m)"

definition vlan_fields_of :: "'a page_scheme \<Rightarrow> uid \<Rightarrow> vlan_fields" where
  "vlan_fields_of p r =
     \<lparr>untagged = qs p r (has_id ''id_untagged_vlan''), tagged = qs p r (has_id ''id_tagged_vlans''),
      add_tagged = qs p r (has_id ''id_add_tagged_vlans''),
      remove_tagged = qs p r (has_id ''id_remove_tagged_vlans'')\<rparr>"

definition map_fields :: "(uid option \<Rightarrow> uid option) \<Rightarrow> vlan_fields \<Rightarrow> vlan_fields" where
  "map_fields g fs =
     \<lparr>untagged = g (untagged fs), tagged = g (tagged fs), add_tagged = g (add_tagged fs),
      remove_tagged = g (remove_tagged fs)\<rparr>"

definition vlan_complete :: "vlan_fields \<Rightarrow> bool" where
  "vlan_complete fs \<longleftrightarrow>
     untagged fs \<noteq> None \<and> (tagged fs \<noteq> None \<or> (add_tagged fs \<noteq> None \<and> remove_tagged fs \<noteq> None))"

text \<open>
  One mode select: what its listener closes over, unless it was bound before, and the state
  after applying the mode it has. \<open>bound\<close> holds the listeners so far.
\<close>

type_synonym mode_listener = "uid \<times> vlan_fields \<times> vlan_fields"

definition init_mode ::
    "uid \<Rightarrow> mode_listener list \<times> widget_page \<Rightarrow> mode_listener list \<times> widget_page" where
  "init_mode m s =
     (case s of (bound, p) \<Rightarrow>
        (case vlan_root p m of
           None \<Rightarrow> s
         | Some r \<Rightarrow>
             let fs = vlan_fields_of p r
             in if \<not> vlan_complete fs then s
                else
                  let rows = map_fields (find_field_row p) fs
                  in if m \<in> set (map fst bound) then s
                     else (bound @ [(m, fs, rows)], apply_mode fs rows (mode_of p m) p)))"

definition initialize_vlan_mode_selection ::
    "mode_listener list \<Rightarrow> widget_page \<Rightarrow> mode_listener list \<times> widget_page" where
  "initialize_vlan_mode_selection bound p =
     fold init_mode (doc_qsa p (\<lambda>e. tag e = ''SELECT'' \<and> has_id ''id_mode'' e)) (bound, p)"

definition on_mode_change :: "mode_listener \<Rightarrow> widget_page \<Rightarrow> widget_page" where
  "on_mode_change l p = (case l of (m, fs, rows) \<Rightarrow> apply_mode fs rows (mode_of p m) p)"

text \<open>A row is visible unless it has the class \<open>d-none\<close>.\<close>

definition row_hidden :: "'a page_scheme \<Rightarrow> uid option \<Rightarrow> bool" where
  "row_hidden p r = (case r of None \<Rightarrow> False | Some u \<Rightarrow> has_class ''d-none'' (heap p u))"

definition field_blank :: "widget_page \<Rightarrow> uid option \<Rightarrow> bool" where
  "field_blank p f = (case f of None \<Rightarrow> True | Some u \<Rightarrow> picked p u = blank_choice (choices p u))"

definition own_rows :: "vlan_fields \<Rightarrow> bool" where
  "own_rows rows \<longleftrightarrow>
     distinct [r \<leftarrow> [untagged rows, tagged rows, add_tagged rows, remove_tagged rows]. r \<noteq> None]"

definition mode_known :: "string \<Rightarrow> bool" where
  "mode_known mode \<longleftrightarrow> List.member [[], ''access'', ''tagged'', ''tagged-all''] mode"

lemma set_row_visible_simps [simp]:
  "choices (set_row_visible r v p) = choices p" "picked (set_row_visible r v p) = picked p"
  by (auto simp: set_row_visible_def split: option.split)

lemma row_hidden_set [simp]:
  "row_hidden (set_row_visible r v p) r' =
     (if r' = r \<and> r \<noteq> None then \<not> v else row_hidden p r')"
  by (auto simp: set_row_visible_def row_hidden_def heap_upd split: option.splits)

lemma show_rows_simps [simp]:
  "choices (show_rows rows a b c d p) = choices p" "picked (show_rows rows a b c d p) = picked p"
  by (auto simp: show_rows_def)

lemma row_hidden_show:
  assumes "own_rows rows"
  shows "untagged rows \<noteq> None \<Longrightarrow> row_hidden (show_rows rows a b c d p) (untagged rows) = (\<not> a)"
    and "tagged rows \<noteq> None \<Longrightarrow> row_hidden (show_rows rows a b c d p) (tagged rows) = (\<not> b)"
    and "add_tagged rows \<noteq> None \<Longrightarrow> row_hidden (show_rows rows a b c d p) (add_tagged rows) = (\<not> c)"
    and "remove_tagged rows \<noteq> None \<Longrightarrow> row_hidden (show_rows rows a b c d p) (remove_tagged rows) = (\<not> d)"
  using assms by (auto simp: show_rows_def own_rows_def split: if_splits)

lemma clear_field_choices [simp]: "choices (clear_field f p) = choices p"
  by (simp add: clear_field_def split: option.split)

lemma clear_field_blank: "field_blank (clear_field f p) f' \<longleftrightarrow> f' = f \<or> field_blank p f'"
  by (auto simp: clear_field_def field_blank_def split: option.splits)

lemma clear_tagged_blank:
  "field_blank (clear_tagged fs p) f \<longleftrightarrow>
     f = tagged fs \<or> f = add_tagged fs \<or> f = remove_tagged fs \<or> field_blank p f"
  by (auto simp: clear_tagged_def clear_field_blank)

lemma field_blank_show [simp]: "field_blank (show_rows rows a b c d p) f = field_blank p f"
  by (auto simp: field_blank_def split: option.split)

lemma mode_known_cases:
  "mode_known mode \<Longrightarrow> mode = [] \<or> mode = ''access'' \<or> mode = ''tagged'' \<or> mode = ''tagged-all''"
  by (auto simp: mode_known_def)

text \<open>
  C24: After an interface mode is applied, the row of the untagged VLAN is shown exactly when
  there is a mode, the rows of the tagged VLANs exactly in the mode "tagged", and every field
  whose row is not shown has been emptied, so that no hidden VLAN is submitted.
\<close>

theorem hidden_vlans_are_cleared:
  assumes "mode_known mode" and "own_rows rows"
  shows "(untagged rows \<noteq> None \<longrightarrow> row_hidden (apply_mode fs rows mode p) (untagged rows) = (mode = [])) \<and>
    list_all (\<lambda>g. g rows = None \<or> row_hidden (apply_mode fs rows mode p) (g rows) = (mode \<noteq> ''tagged''))
      [tagged, add_tagged, remove_tagged] \<and>
    list_all (\<lambda>g. row_hidden (apply_mode fs rows mode p) (g rows) \<longrightarrow> field_blank (apply_mode fs rows mode p) (g fs))
      [untagged, tagged, add_tagged, remove_tagged]"
proof -
  note facts = row_hidden_show [OF assms(2)] clear_tagged_blank clear_field_blank
  have none: "\<not> row_hidden q None" for q :: widget_page by (simp add: row_hidden_def)
  consider "mode = []" | "mode = ''access''" | "mode = ''tagged''" | "mode = ''tagged-all''"
    using mode_known_cases [OF assms(1)] by blast
  then show ?thesis
    by cases (use none in \<open>auto simp: apply_mode_def facts; metis facts\<close>)+
qed

definition demo_vlans :: vlan_fields where
  "demo_vlans = \<lparr>untagged = Some 2, tagged = Some 3, add_tagged = None, remove_tagged = None\<rparr>"

definition demo_rows :: vlan_fields where
  "demo_rows = \<lparr>untagged = Some 4, tagged = Some 5, add_tagged = None, remove_tagged = None\<rparr>"

definition demo_page :: widget_page where
  "demo_page =
     \<lparr>doc = Node 0 [Node 4 [Node 2 []], Node 5 [Node 3 []]], heap = (\<lambda>_. new_elem ''DIV''), focus = None,
      choices = (\<lambda>_. [[], ''10'', ''20'']), picked = (\<lambda>_. [''10'']), shown = (\<lambda>_. True),
      changed = [], submitted = []\<rparr>"

lemma hidden_vlans_are_cleared_witness:
  "row_hidden (apply_mode demo_vlans demo_rows ''access'' demo_page) (Some 5) \<and>
   \<not> row_hidden (apply_mode demo_vlans demo_rows ''access'' demo_page) (Some 4) \<and>
   field_blank (apply_mode demo_vlans demo_rows ''access'' demo_page) (Some 3)"
proof -
  have "mode_known ''access''" "own_rows demo_rows" by code_simp+
  from hidden_vlans_are_cleared [OF this, of demo_vlans demo_page] show ?thesis
    by (auto simp: demo_vlans_def demo_rows_def)
qed

section \<open>Bulk edit\<close>

text \<open>The children of an element other than itself, jQuery's \<open>siblings\<close>.\<close>

definition siblings_of :: "'a page_scheme \<Rightarrow> uid \<Rightarrow> uid list" where
  "siblings_of p u =
     (case parent_of p u of
        None \<Rightarrow> []
      | Some v \<Rightarrow>
          (case find_sub v (doc p) of
             None \<Rightarrow> []
           | Some (Node _ ts) \<Rightarrow> filter (\<lambda>w. w \<noteq> u) (map root_of ts)))"

text \<open>\<open>.input-group-btn .dropdown-menu a.set_value\<close> below the group \<open>g\<close>.\<close>

definition set_value_link :: "'a page_scheme \<Rightarrow> uid \<Rightarrow> uid \<Rightarrow> bool" where
  "set_value_link p g u \<longleftrightarrow>
     tag (heap p u) = ''A'' \<and> has_class ''set_value'' (heap p u) \<and>
     (let ups = takeWhile (\<lambda>v. v \<noteq> g) (tl (path_to u (doc p)));
          above = tl (dropWhile (\<lambda>v. \<not> has_class ''dropdown-menu'' (heap p v)) ups)
      in list_ex (\<lambda>v. has_class ''input-group-btn'' (heap p v)) above)"

definition number_with_select :: "'a page_scheme \<Rightarrow> uid \<Rightarrow> bool" where
  "number_with_select p u =
     (case closest p (has_class ''input-group'') u of
        None \<Rightarrow> False
      | Some g \<Rightarrow> list_ex (set_value_link p g) (qsa p g (\<lambda>e. True)))"

text \<open>The click listener of an \<open>input:checkbox[name=_nullify]\<close>.\<close>

definition nullify_targets :: "'a page_scheme \<Rightarrow> string \<Rightarrow> uid list" where
  "nullify_targets p v =
     (case by_id p (''id_'' @ v) of
        None \<Rightarrow> []
      | Some u \<Rightarrow>
          if number_with_select p u then []
          else
            let s2 = filter (\<lambda>w. has_class ''select2-container'' (heap p w)) (siblings_of p u)
            in if s2 \<noteq> [] then s2 else [u])"

definition on_nullify_click :: "uid \<Rightarrow> widget_page \<Rightarrow> widget_page" where
  "on_nullify_click c p =
     (let e = heap p c; ts = nullify_targets p (val_of e)
      in p\<lparr>shown := (\<lambda>u. if u \<in> set ts then \<not> checked e else shown p u)\<rparr>)"

section \<open>The page field of the paginator\<close>

text \<open>\<open>parseInt(input.max, 10) || Infinity\<close>: \<open>None\<close> stands for \<open>Infinity\<close>.\<close>

definition max_page :: "string \<Rightarrow> int option" where
  "max_page s = (case parse_int s of None \<Rightarrow> None | Some m \<Rightarrow> if m = 0 then None else Some m)"

definition clamp_page :: "int option \<Rightarrow> int \<Rightarrow> int" where
  "clamp_page m n =
     (let n1 = (if n < 1 then 1 else n)
      in case m of None \<Rightarrow> n1 | Some k \<Rightarrow> if k < n1 then k else n1)"

text \<open>\<open>goToPage\<close>: the query of the address it goes to, if it goes anywhere.\<close>

definition go_to_page :: "elem \<Rightarrow> (string \<times> string) list \<Rightarrow> (string \<times> string) list option" where
  "go_to_page e ps =
     (if get_attr ''hx-get'' e \<noteq> None then None
      else
        (case parse_int (val_of e) of
           None \<Rightarrow> None
         | Some n \<Rightarrow>
             let m = (case get_attr ''max'' e of None \<Rightarrow> [] | Some s \<Rightarrow> s)
             in Some (params_set ''page'' (show_int (clamp_page (max_page m) n)) ps)))"

definition on_paginator_key :: "string \<Rightarrow> elem \<Rightarrow> (string \<times> string) list \<Rightarrow> bool \<times> (string \<times> string) list option" where
  "on_paginator_key k e ps = (if k \<noteq> ''Enter'' then (False, None) else (True, go_to_page e ps))"

definition on_paginator_link ::
    "'a page_scheme \<Rightarrow> (string \<times> string) list \<Rightarrow> bool \<times> (string \<times> string) list option" where
  "on_paginator_link p ps =
     (True, case by_id p ''paginator-go-to'' of None \<Rightarrow> None | Some u \<Rightarrow> go_to_page (heap p u) ps)"

lemma clamp_page_range:
  "(\<And>k. m = Some k \<Longrightarrow> 0 < k) \<Longrightarrow> 1 \<le> clamp_page m n \<and> (\<forall>k. m = Some k \<longrightarrow> clamp_page m n \<le> k)"
  by (cases m) (auto simp: clamp_page_def Let_def)

lemma clamp_page_id: "1 \<le> n \<Longrightarrow> (\<And>k. m = Some k \<Longrightarrow> n \<le> k) \<Longrightarrow> clamp_page m n = n"
  by (cases m) (auto simp: clamp_page_def Let_def)

lemma parse_int_show_int: "0 \<le> i \<Longrightarrow> parse_int (show_int i) = Some i"
  by (simp add: show_int_def parse_int_show_nat)

text \<open>
  C26: Whatever number is typed, the paginator goes to a page between one and the last one: the
  address it opens has one entry "page", which reads back as a number in that range, equal to
  the one typed if that is in range; its other entries are unchanged.
\<close>

theorem paginator_stays_in_range:
  assumes "go_to_page e ps = Some ps'" and "get_attr ''max'' e = Some (show_nat m)" and "0 < m"
  shows "\<exists>n k. parse_int (val_of e) = Some n \<and> 1 \<le> k \<and> k \<le> int m \<and>
    (1 \<le> n \<longrightarrow> n \<le> int m \<longrightarrow> k = n) \<and>
    map_of ps' ''page'' = Some (show_int k) \<and> parse_int (show_int k) = Some k \<and>
    length (filter (\<lambda>q. fst q = ''page'') ps') = 1 \<and>
    (\<forall>x. x \<noteq> ''page'' \<longrightarrow> map_of ps' x = map_of ps x)"
proof -
  have m: "max_page (show_nat m) = Some (int m)"
    using assms(3) by (simp add: max_page_def parse_int_show_nat)
  obtain n where n: "parse_int (val_of e) = Some n"
    and ps': "ps' = params_set ''page'' (show_int (clamp_page (Some (int m)) n)) ps"
    using assms(1,2) m by (auto simp: go_to_page_def Let_def split: option.splits if_splits)
  let ?k = "clamp_page (Some (int m)) n"
  have r: "1 \<le> ?k \<and> ?k \<le> int m" using clamp_page_range [of "Some (int m)" n] assms(3) by simp
  then have "parse_int (show_int ?k) = Some ?k" by (simp add: parse_int_show_int)
  moreover have "1 \<le> n \<longrightarrow> n \<le> int m \<longrightarrow> ?k = n" using clamp_page_id [of n "Some (int m)"] by simp
  ultimately show ?thesis
    using n ps' r by (intro exI [of _ n] exI [of _ ?k]) (simp add: params_set_get params_set_once)
qed

definition demo_pager :: elem where
  "demo_pager = set_attr ''max'' (show_nat 7) ((new_elem ''INPUT'')\<lparr>val_of := ''12''\<rparr>)"

lemma demo_pager_go: "go_to_page demo_pager [(''q'', ''x'')] = Some [(''q'', ''x''), (''page'', ''7'')]"
  by code_simp

lemma paginator_stays_in_range_witness:
  "\<exists>n k. parse_int (val_of demo_pager) = Some n \<and> 1 \<le> k \<and> k \<le> int 7 \<and>
    map_of [(''q'', ''x''), (''page'', ''7'')] ''page'' = Some (show_int k)"
  using paginator_stays_in_range [OF demo_pager_go, of 7] by (auto simp: demo_pager_def)

section \<open>Submitting\<close>

text \<open>The click listener of \<open>a.formaction\<close>: the form is sent to the target of the link.\<close>

definition on_form_action :: "uid \<Rightarrow> widget_page \<Rightarrow> widget_page" where
  "on_form_action l p =
     (case closest p (\<lambda>e. tag e = ''FORM'') l of
        None \<Rightarrow> p
      | Some f \<Rightarrow>
          let q = (case get_attr ''href'' (heap p l) of
                     None \<Rightarrow> p
                   | Some h \<Rightarrow> upd f (set_attr ''action'' h) p)
          in q\<lparr>submitted := submitted q @ [f]\<rparr>)"

text \<open>\<open>this.form.submit()\<close>; a control outside every form has no form, and the call throws.\<close>

definition form_of :: "'a page_scheme \<Rightarrow> uid \<Rightarrow> uid option" where
  "form_of p u = closest p (\<lambda>e. tag e = ''FORM'') u"

definition submit_form_of :: "uid \<Rightarrow> 'a widget_page_scheme \<Rightarrow> 'a widget_page_scheme outcome" where
  "submit_form_of u p =
     (case form_of p u of
        None \<Rightarrow> Throw TypeError p
      | Some f \<Rightarrow> Done (p\<lparr>submitted := submitted p @ [f]\<rparr>))"

record key_press =
  key_name :: string
  meta_key :: bool
  ctrl_key :: bool
  auto_repeat :: bool

text \<open>\<open>submitOnEnter\<close>: whether the default action (a new line) is prevented, and the page.\<close>

definition submit_on_enter :: "key_press \<Rightarrow> uid \<Rightarrow> widget_page \<Rightarrow> (bool \<times> widget_page) outcome" where
  "submit_on_enter k u p =
     (if (meta_key k \<or> ctrl_key k) \<and> key_name k = ''Enter'' then
        if auto_repeat k then Done (True, p)
        else
          (case submit_form_of u p of
             Throw e q \<Rightarrow> Throw e (False, q)
           | Done q \<Rightarrow> Done (True, q))
      else Done (False, p))"

lemma submit_on_enter_once:
  assumes "form_of p u = Some f" and "meta_key k \<or> ctrl_key k" and "key_name k = ''Enter''"
  shows "submit_on_enter k u p =
    Done (True, if auto_repeat k then p else p\<lparr>submitted := submitted p @ [f]\<rparr>)"
  using assms by (auto simp: submit_on_enter_def submit_form_of_def)

section \<open>Ids and load events of forms\<close>

definition get_field_auto_id :: "string option \<Rightarrow> string \<Rightarrow> bool \<Rightarrow> string" where
  "get_field_auto_id form_auto_id name query_selector =
     (let hash = (if query_selector then ''#'' else [])
      in case form_auto_id of
           None \<Rightarrow> []
         | Some a \<Rightarrow>
             if includes_str ''%s'' a then hash @ replace_first ''%s'' name [] a
             else if a = ''True'' then hash @ name
             else [])"

lemma field_auto_id_default:
  "CHR ''$'' \<notin> set name \<Longrightarrow> get_field_auto_id (Some ''id_%s'') name True = ''#id_'' @ name"
  using replace_first_plain [of name "''id_''" "[]" "[]"]
  by (simp add: get_field_auto_id_def)

text \<open>
  \<open>initializeFormEvents\<close>: the event of a form is dispatched in a task of its own;
  \<open>waiting\<close> holds the tasks, \<open>dispatched\<close> the events sent so far.
\<close>

record form_events =
  waiting :: "(uid \<times> string) list"
  dispatched :: "(uid \<times> string) list"

definition dispatch_form_load :: "'a page_scheme \<Rightarrow> uid option \<Rightarrow> form_events \<Rightarrow> form_events" where
  "dispatch_form_load p f s =
     (case f of
        None \<Rightarrow> s
      | Some u \<Rightarrow>
          if tag (heap p u) = ''FORM''
          then s\<lparr>waiting := waiting s @
                 [(u, ''nb-form:load:'' @ id_text (get_attr ''data-nb-obj-type'' (heap p u)))]\<rparr>
          else s)"

definition on_dom_content_loaded :: "'a page_scheme \<Rightarrow> form_events \<Rightarrow> form_events" where
  "on_dom_content_loaded p s = dispatch_form_load p (by_id p ''nb-create-form'') s"

definition on_htmx_after_settle :: "'a page_scheme \<Rightarrow> uid \<Rightarrow> form_events \<Rightarrow> form_events" where
  "on_htmx_after_settle p u s =
     (if closest p (has_id ''embedded_action_modal'') u \<noteq> None \<and> has_class ''modal-content'' (heap p u)
      then dispatch_form_load p (qs p u (\<lambda>e. tag e = ''FORM'')) s
      else s)"

definition run_waiting :: "form_events \<Rightarrow> form_events" where
  "run_waiting s = \<lparr>waiting = [], dispatched = dispatched s @ waiting s\<rparr>"

lemma load_event_sent_once:
  assumes "by_id p ''nb-create-form'' = Some u" and "tag (heap p u) = ''FORM''"
    and "get_attr ''data-nb-obj-type'' (heap p u) = Some t"
  shows "run_waiting (on_dom_content_loaded p \<lparr>waiting = [], dispatched = []\<rparr>) =
    \<lparr>waiting = [], dispatched = [(u, ''nb-form:load:'' @ t)]\<rparr>"
  using assms by (simp add: run_waiting_def on_dom_content_loaded_def dispatch_form_load_def id_text_def)

text \<open>
  \<open>observeFormStickyFooters\<close>: the observer gets a batch of entries, the footer and whether it is
  wholly visible; the callback takes the first one only.
\<close>

definition on_footer_intersection :: "(uid \<times> bool) list \<Rightarrow> 'a page_scheme \<Rightarrow> 'a page_scheme outcome" where
  "on_footer_intersection entries p =
     (case entries of
        [] \<Rightarrow> Throw TypeError p
      | (u, whole) # rest \<Rightarrow> Done (upd u (class_toggle ''nb-is-pinned'' (Some (\<not> whole))) p))"

lemma second_footer_keeps_class:
  assumes "v \<noteq> u"
  shows "\<exists>q. on_footer_intersection ((u, b) # (v, False) # rest) p = Done q \<and> heap q v = heap p v"
  using assms by (auto simp: on_footer_intersection_def heap_upd)

end
