(* ===== verification/Select2.thy ===== *)
theory Select2
  imports Dom Json "HOL-Library.Multiset"
begin

text \<open>
  The combo boxes of \<open>ui/src/js/select2.js\<close>: setting a value (\<open>setSelect2Value\<close>), the
  address and the parameters of the requests for choices (\<open>parseURL\<close> and the callbacks of
  \<open>initializeDynamicChoiceSelection\<close>), the grouping of the results, adding a value with
  Enter (\<open>initializeMultiValueChar\<close>) and the labels and scopes of initialization. The
  select2 widget itself is a library: what reaches it are the events and options.
\<close>

section \<open>A select and its options\<close>

record opt =
  o_text :: string
  o_value :: string
  o_selected :: bool

record select_box =
  opts :: "opt list"
  multi :: bool
  fired :: "string list"

definition chosen :: "select_box \<Rightarrow> opt list" where
  "chosen sb = filter o_selected (opts sb)"

definition chosen_values :: "select_box \<Rightarrow> string list" where
  "chosen_values sb = map o_value (chosen sb)"

text \<open>
  \<open>$(select).val(values)\<close> selects the options whose value is among the values; a select that
  is not multiple keeps the last of them only.
\<close>

fun keep_last :: "opt list \<Rightarrow> opt list" where
  "keep_last [] = []"
| "keep_last (c # cs) =
     (if list_ex o_selected cs then c\<lparr>o_selected := False\<rparr> # keep_last cs else c # keep_last cs)"

definition jq_val :: "string list \<Rightarrow> select_box \<Rightarrow> select_box" where
  "jq_val vs sb =
     (let os = map (\<lambda>c. c\<lparr>o_selected := List.member vs (o_value c)\<rparr>) (opts sb)
      in sb\<lparr>opts := (if multi sb then os else keep_last os)\<rparr>)"

definition jq_clear :: "select_box \<Rightarrow> select_box" where
  "jq_clear sb = jq_val [[]] sb"

definition trigger :: "string \<Rightarrow> select_box \<Rightarrow> select_box" where
  "trigger ev sb = sb\<lparr>fired := fired sb @ [ev]\<rparr>"

text \<open>\<open>getValue\<close>: one value, the empty string when nothing is selected, or all of them.\<close>

datatype field_value = One string | Many "string list"

definition get_value :: "select_box \<Rightarrow> field_value" where
  "get_value sb =
     (if multi sb then Many (chosen_values sb)
      else One (case chosen_values sb of [] \<Rightarrow> [] | v # _ \<Rightarrow> v))"

section \<open>Setting a value\<close>

definition has_option :: "string \<Rightarrow> opt list \<Rightarrow> bool" where
  "has_option v os \<longleftrightarrow> list_ex (\<lambda>c. o_value c = v) os"

definition add_missing :: "string \<times> string \<Rightarrow> select_box \<Rightarrow> select_box" where
  "add_missing tv sb =
     (case tv of (t, v) \<Rightarrow>
        if has_option v (opts sb) then sb
        else sb\<lparr>opts := opts sb @ [\<lparr>o_text = t, o_value = v, o_selected = True\<rparr>]\<rparr>)"

definition next_value :: "bool \<Rightarrow> (string \<times> string) list \<Rightarrow> string list" where
  "next_value m vs = (case vs of [] \<Rightarrow> [[]] | v # _ \<Rightarrow> if m then map snd vs else [snd v])"

text \<open>\<open>setSelect2Value\<close>; \<open>None\<close> is \<open>null\<close>.\<close>

definition set_select2_value :: "(string \<times> string) list option \<Rightarrow> select_box \<Rightarrow> select_box" where
  "set_select2_value value sb =
     (let vs = (case value of None \<Rightarrow> [] | Some vs \<Rightarrow> vs);
          sb1 = fold add_missing vs (jq_clear sb);
          sb2 = trigger ''change'' (jq_val (next_value (multi sb1) vs) sb1)
      in if vs = [] then trigger ''select2:unselect'' (trigger ''select2:clear'' sb2)
         else trigger ''select2:select'' sb2)"

lemma jq_val_multi [simp]: "multi (jq_val vs sb) = multi sb"
  by (simp add: jq_val_def Let_def)

lemma keep_last_values: "map o_value (keep_last os) = map o_value os"
  by (induction os) auto

lemma keep_last_none: "\<not> list_ex o_selected os \<Longrightarrow> filter o_selected (keep_last os) = []"
  by (induction os) auto

lemma keep_last_some: "list_ex o_selected os \<Longrightarrow> filter o_selected (keep_last os) = [last (filter o_selected os)]"
  by (induction os) (auto simp: keep_last_none filter_empty_conv list_ex_iff)

lemma jq_val_values [simp]: "map o_value (opts (jq_val vs sb)) = map o_value (opts sb)"
  by (simp add: jq_val_def Let_def keep_last_values comp_def)

lemma has_option_values: "has_option v os \<longleftrightarrow> v \<in> set (map o_value os)"
  by (auto simp: has_option_def list_ex_iff)

lemma add_missing_multi [simp]: "multi (add_missing tv sb) = multi sb"
  by (cases tv) (simp add: add_missing_def)

lemma fold_missing_multi [simp]: "multi (fold add_missing vs sb) = multi sb"
  by (induction vs arbitrary: sb) auto

lemma add_missing_values:
  "set (map o_value (opts (add_missing tv sb))) = insert (snd tv) (set (map o_value (opts sb)))"
  by (cases tv) (auto simp: add_missing_def has_option_values)

lemma fold_missing_values:
  "set (map o_value (opts (fold add_missing vs sb))) = set (map snd vs) \<union> set (map o_value (opts sb))"
proof (induction vs arbitrary: sb)
  case (Cons v vs)
  then show ?case using add_missing_values [of v sb] by simp
qed simp

lemma jq_val_chosen_multi:
  "multi sb \<Longrightarrow> chosen_values (jq_val vs sb) = filter (\<lambda>v. v \<in> set vs) (map o_value (opts sb))"
  by (simp add: chosen_values_def chosen_def jq_val_def Let_def filter_map comp_def)

lemma jq_val_chosen_single:
  assumes "\<not> multi sb" and "v \<in> set (map o_value (opts sb))"
  shows "chosen_values (jq_val [v] sb) = [v]"
proof -
  let ?os = "map (\<lambda>c. c\<lparr>o_selected := o_value c = v\<rparr>) (opts sb)"
  have e: "list_ex o_selected ?os" using assms(2) by (auto simp: list_ex_iff)
  have "last (filter o_selected ?os) \<in> set (filter o_selected ?os)"
    using e by (intro last_in_set) (auto simp: filter_empty_conv list_ex_iff)
  then have "o_value (last (filter o_selected ?os)) = v" by auto
  then show ?thesis
    using assms(1) keep_last_some [OF e]
    by (simp add: chosen_values_def chosen_def jq_val_def Let_def)
qed

lemma keep_last_subset: "set (filter o_selected (keep_last os)) \<subseteq> set (filter o_selected os)"
proof (cases "list_ex o_selected os")
  case True
  then have "filter o_selected os \<noteq> []" by (auto simp: filter_empty_conv list_ex_iff)
  then show ?thesis using last_in_set keep_last_some [OF True] by fastforce
qed (simp add: keep_last_none)

lemma jq_val_chosen_blank: "set (chosen_values (jq_val [[]] sb)) \<subseteq> {[]}"
  using keep_last_subset [of "map (\<lambda>c. c\<lparr>o_selected := (o_value c = [])\<rparr>) (opts sb)"]
  by (auto simp: chosen_values_def chosen_def jq_val_def Let_def)

lemma trigger_simps [simp]:
  "opts (trigger ev sb) = opts sb" "multi (trigger ev sb) = multi sb" "fired (trigger ev sb) = fired sb @ [ev]"
  "chosen_values (trigger ev sb) = chosen_values sb"
  by (simp_all add: trigger_def chosen_values_def chosen_def)


lemma set_value_witness_box: "chosen_values (set_select2_value (Some [(''A'', ''a''), (''B'', ''b'')])
    \<lparr>opts = [\<lparr>o_text = ''A'', o_value = ''a'', o_selected = False\<rparr>], multi = True, fired = []\<rparr>) = [''a'', ''b'']"
  by code_simp

section \<open>The address of a request for choices\<close>

text \<open>
  The names that \<open>/\{\{([a-z_]+)}}/g\<close> finds in an address, in order. A match starts at two
  braces that are followed by a name and two closing braces.
\<close>

definition name_char :: "char \<Rightarrow> bool" where
  "name_char c \<longleftrightarrow> is_lower c \<or> c = CHR ''_''"

function url_refs :: "string \<Rightarrow> string list" where
  "url_refs [] = []"
| "url_refs (c # s) =
     (let r = drop 1 s; n = takeWhile name_char r; t = dropWhile name_char r
      in if starts_with ''{{'' (c # s) \<and> n \<noteq> [] \<and> starts_with ''}}'' t
         then n # url_refs (drop 2 t)
         else url_refs s)"
  by pat_completeness auto
termination
proof (relation "measure length", goal_cases)
  case (2 c s r n t)
  then have "length t \<le> length s" using length_dropWhile_le [of name_char r] by (simp add: le_trans)
  then show ?case by simp
qed auto

text \<open>
  What \<open>parseURL\<close> reads of a field: the \<open>api-value\<close> of its first selected option, its value,
  and whether it has a null option. A name without a field makes the read of the value throw.
\<close>

record url_field =
  api_value :: "string option"
  plain_value :: string
  null_option :: "string option"

definition nonempty :: "string option \<Rightarrow> string option" where
  "nonempty s = (case s of Some v \<Rightarrow> if v = [] then None else Some v | None \<Rightarrow> None)"

definition url_value :: "url_field \<Rightarrow> string option" where
  "url_value f =
     (case nonempty (api_value f) of
        Some v \<Rightarrow> Some v
      | None \<Rightarrow>
          if plain_value f \<noteq> [] then Some (plain_value f)
          else if nonempty (null_option f) \<noteq> None then Some ''null''
          else None)"

definition ref_text :: "string \<Rightarrow> string" where
  "ref_text n = ''{{'' @ n @ ''}}''"

fun render_refs :: "(string \<Rightarrow> url_field option) \<Rightarrow> string list \<Rightarrow> string \<Rightarrow> js_error + string" where
  "render_refs fld [] url = Inr url"
| "render_refs fld (n # ns) url =
     (case fld n of
        None \<Rightarrow> Inl TypeError
      | Some f \<Rightarrow>
          render_refs fld ns
            (case url_value f of
               None \<Rightarrow> url
             | Some v \<Rightarrow> replace_first (ref_text n) v [] url))"

definition parse_url :: "(string \<Rightarrow> url_field option) \<Rightarrow> string \<Rightarrow> js_error + string" where
  "parse_url fld url = render_refs fld (url_refs url) url"

text \<open>The \<open>url\<close> callback: \<open>Inr None\<close> is \<open>false\<close>, the request is not sent.\<close>

definition request_url :: "(string \<Rightarrow> url_field option) \<Rightarrow> string option \<Rightarrow> js_error + string option" where
  "request_url fld data_url =
     (case data_url of
        None \<Rightarrow> Inl TypeError
      | Some url \<Rightarrow>
          (case parse_url fld url of
             Inl e \<Rightarrow> Inl e
           | Inr u \<Rightarrow> Inr (if includes_str ''{{'' u then None else Some u)))"

lemma includes_iff: "includes_str p s \<longleftrightarrow> (\<exists>a b. s = a @ p @ b)"
proof (induction s)
  case (Cons c s)
  have "(\<exists>a b. c # s = a @ p @ b) \<longleftrightarrow> (\<exists>b. c # s = p @ b) \<or> (\<exists>a b. s = a @ p @ b)"
    by (metis append_Cons append_Nil list.exhaust list.inject)
  with Cons show ?case by (simp add: starts_with_iff)
qed simp

text \<open>A part of an address without an opening brace holds no reference.\<close>

lemma url_refs_plain: "CHR ''{'' \<notin> set s \<Longrightarrow> url_refs s = []"
  by (induction s) (auto simp: Let_def)

lemma url_refs_skip: "CHR ''{'' \<notin> set a \<Longrightarrow> url_refs (a @ s) = url_refs s"
  by (induction a) (auto simp: Let_def)

lemma takeWhile_name: "\<forall>c \<in> set n. name_char c \<Longrightarrow> takeWhile name_char (n @ CHR ''}'' # s) = n"
  by (induction n) (auto simp: name_char_def is_lower_def)

lemma dropWhile_name: "\<forall>c \<in> set n. name_char c \<Longrightarrow> dropWhile name_char (n @ CHR ''}'' # s) = CHR ''}'' # s"
  by (induction n) (auto simp: name_char_def is_lower_def)

lemma url_refs_ref:
  assumes "\<forall>c \<in> set n. name_char c" and "n \<noteq> []"
  shows "url_refs (ref_text n @ s) = n # url_refs s"
  using assms takeWhile_name [OF assms(1), of "CHR ''}'' # s"] dropWhile_name [OF assms(1), of "CHR ''}'' # s"]
  by (simp add: ref_text_def Let_def)

lemma starts_brace: "CHR ''{'' \<noteq> c \<Longrightarrow> \<not> starts_with (CHR ''{'' # p) (c # s)"
  by simp

lemma replace_first_ref:
  assumes "CHR ''{'' \<notin> set a" and "CHR ''$'' \<notin> set v"
  shows "replace_first (ref_text n) v pre (a @ ref_text n @ b) = a @ v @ b"
  using assms(1)
proof (induction a arbitrary: pre)
  case Nil
  obtain c r where r: "ref_text n = c # r" by (simp add: ref_text_def)
  have "starts_with (ref_text n) (ref_text n @ b)" by (rule starts_with_append)
  moreover have "drop (length (ref_text n)) (ref_text n @ b) = b" by simp
  ultimately show ?case unfolding r append_Cons by (simp add: expand_plain assms(2))
next
  case (Cons x a)
  then have "\<not> starts_with (ref_text n) (x # a @ ref_text n @ b)" by (auto simp: ref_text_def)
  with Cons show ?case by simp
qed

text \<open>
  C28: An address with a reference to another field is requested with the value of that field
  in its place, is withheld as long as the field has no value and no null option, and the
  callback throws when there is no such field on the page.
\<close>

theorem request_waits_for_reference:
  assumes "CHR ''{'' \<notin> set a" and "CHR ''{'' \<notin> set b" and "n \<noteq> []" and "\<forall>c \<in> set n. name_char c"
    and "\<And>f v. fld n = Some f \<Longrightarrow> url_value f = Some v \<Longrightarrow> CHR ''{'' \<notin> set v \<and> CHR ''$'' \<notin> set v"
  shows "request_url fld (Some (a @ ref_text n @ b)) =
    (case fld n of
       None \<Rightarrow> Inl TypeError
     | Some f \<Rightarrow> Inr (map_option (\<lambda>v. a @ v @ b) (url_value f)))"
proof -
  have refs: "url_refs (a @ ref_text n @ b) = [n]"
    using assms url_refs_skip url_refs_ref [of n b] url_refs_plain by simp
  have wait: "includes_str ''{{'' (a @ ref_text n @ b)" by (auto simp: includes_iff ref_text_def)
  have done_: "\<not> includes_str ''{{'' (a @ v @ b)" if "CHR ''{'' \<notin> set v" for v
  proof
    assume "includes_str ''{{'' (a @ v @ b)"
    then obtain x y where "a @ v @ b = x @ ''{{'' @ y" by (auto simp: includes_iff)
    then have "CHR ''{'' \<in> set (a @ v @ b)" by simp
    with assms(1,2) that show False by simp
  qed
  show ?thesis
    using assms(5) wait done_ refs replace_first_ref [OF assms(1)]
    by (auto simp: request_url_def parse_url_def split: option.splits)
qed

definition demo_site :: url_field where
  "demo_site = \<lparr>api_value = None, plain_value = ''7'', null_option = None\<rparr>"

definition demo_fields :: "string \<Rightarrow> url_field option" where
  "demo_fields n = (if n = ''site'' then Some demo_site else None)"

lemma request_waits_for_reference_witness:
  "request_url demo_fields (Some (''/racks/?site='' @ ref_text ''site'' @ ''&x'')) = Inr (Some (''/racks/?site='' @ ''7'' @ ''&x''))"
proof -
  have f: "demo_fields ''site'' = Some demo_site" and u: "url_value demo_site = Some ''7''" by code_simp+
  have v: "CHR ''{'' \<notin> set w \<and> CHR ''$'' \<notin> set w"
    if "demo_fields ''site'' = Some g" "url_value g = Some w" for g w
    using that f u by auto
  have a: "CHR ''{'' \<notin> set ''/racks/?site=''" and b: "CHR ''{'' \<notin> set ''&x''" and n: "''site'' \<noteq> []"
    by simp_all
  have w: "\<forall>c \<in> set ''site''. name_char c" by code_simp
  have "request_url demo_fields (Some (''/racks/?site='' @ ref_text ''site'' @ ''&x'')) =
      (case demo_fields ''site'' of
         None \<Rightarrow> Inl TypeError
       | Some g \<Rightarrow> Inr (map_option (\<lambda>v. ''/racks/?site='' @ v @ ''&x'') (url_value g)))"
    by (rule request_waits_for_reference [OF a b n w]) (erule (1) v)
  then show ?thesis by (simp only: f u option.case option.map)
qed

section \<open>The parameters of a request\<close>

text \<open>Where the field behind a value \<open>$name\<close> is looked for.\<close>

datatype ref_query = By_Id string | In_Row string

text \<open>The first match of \<open>/id_form-[0-9]+-/i\<close>.\<close>

fun form_prefix :: "string \<Rightarrow> string option" where
  "form_prefix [] = None"
| "form_prefix (c # s) =
     (let r = drop 8 (c # s); ds = takeWhile is_digit r
      in if to_lower (take 8 (c # s)) = ''id_form-'' \<and> ds \<noteq> [] \<and> starts_with ''-'' (dropWhile is_digit r)
         then Some (take (8 + length ds + 1) (c # s))
         else form_prefix s)"

definition ref_query_of :: "string \<Rightarrow> bool \<Rightarrow> string \<Rightarrow> js_error + ref_query" where
  "ref_query_of el_id in_dynamic_row name =
     (if includes_str ''id_form-'' el_id then
        (case form_prefix el_id of
           None \<Rightarrow> Inl TypeError
         | Some p \<Rightarrow> Inr (By_Id (p @ name)))
      else if in_dynamic_row then Inr (In_Row name)
      else Inr (By_Id (''id_'' @ name)))"

text \<open>What is read of the referenced field: its value, whether it is shown, two attributes.\<close>

record ref_field =
  rf_value :: field_value
  rf_shown :: bool
  rf_required :: "string option"
  rf_null_option :: "string option"

datatype param_value = Absent | Single string | Several "string list"

definition value_truthy :: "field_value \<Rightarrow> bool" where
  "value_truthy v = (case v of One s \<Rightarrow> s \<noteq> [] | Many _ \<Rightarrow> True)"

definition ref_value :: "ref_field option \<Rightarrow> param_value" where
  "ref_value rf =
     (case rf of
        None \<Rightarrow> Absent
      | Some f \<Rightarrow>
          if value_truthy (rf_value f) \<and> rf_shown f
          then (case rf_value f of One s \<Rightarrow> Single s | Many vs \<Rightarrow> Several vs)
          else if nonempty (rf_required f) \<noteq> None \<and> nonempty (rf_null_option f) \<noteq> None then Single ''null''
          else Absent)"

text \<open>
  One value of a \<open>data-query-param-\<close> attribute: a plain value, or a reference. A value that
  is not a string has no \<open>startsWith\<close>.
\<close>

record choice_field =
  el_id :: string
  in_dynamic_row :: bool
  el_attrs :: "string obj"

type_synonym query = "(string \<times> string) list"

definition value_params ::
    "(ref_query \<Rightarrow> ref_field option) \<Rightarrow> choice_field \<Rightarrow> string \<Rightarrow> json \<Rightarrow> js_error + query" where
  "value_params lookup_ref el name v =
     (case v of
        JStr s \<Rightarrow>
          if starts_with ''$'' s then
            (case ref_query_of (el_id el) (in_dynamic_row el) (drop 1 s) of
               Inl e \<Rightarrow> Inl e
             | Inr q \<Rightarrow>
                 (case ref_value (lookup_ref q) of
                    Absent \<Rightarrow> Inr []
                  | Single w \<Rightarrow> Inr [(name, w)]
                  | Several ws \<Rightarrow> Inr (map (\<lambda>w. (name, w)) ws)))
          else Inr [(name, s)]
      | _ \<Rightarrow> Inl TypeError)"

text \<open>\<open>flatMap\<close> with a function that may throw.\<close>

fun flat_map :: "('a \<Rightarrow> js_error + 'b list) \<Rightarrow> 'a list \<Rightarrow> js_error + 'b list" where
  "flat_map f [] = Inr []"
| "flat_map f (x # xs) =
     (case f x of
        Inl e \<Rightarrow> Inl e
      | Inr ys \<Rightarrow> (case flat_map f xs of Inl e \<Rightarrow> Inl e | Inr zs \<Rightarrow> Inr (ys @ zs)))"

definition query_prefix :: string where
  "query_prefix = ''data-query-param-''"

definition attr_params ::
    "(ref_query \<Rightarrow> ref_field option) \<Rightarrow> choice_field \<Rightarrow> string \<times> string \<Rightarrow> js_error + query" where
  "attr_params lookup_ref el a =
     (case a of (attr, text) \<Rightarrow>
        let name = split_str query_prefix attr ! 1
        in (case json_parse text of
              None \<Rightarrow> Inr []
            | Some (JArr vs) \<Rightarrow> flat_map (value_params lookup_ref el name) vs
            | Some _ \<Rightarrow> Inl TypeError))"

definition opt_param :: "string \<Rightarrow> string option \<Rightarrow> query" where
  "opt_param k v = (case nonempty v of None \<Rightarrow> [] | Some w \<Rightarrow> [(k, w)])"

text \<open>The \<open>data\<close> callback: \<open>page\<close> counts from 1, \<open>None\<close> is \<open>undefined\<close>.\<close>

definition page_size :: int where
  "page_size = 50"

definition request_data ::
    "(ref_query \<Rightarrow> ref_field option) \<Rightarrow> choice_field \<Rightarrow> int option \<Rightarrow> string option \<Rightarrow> js_error + query" where
  "request_data lookup_ref el page term =
     (let offset = (case page of None \<Rightarrow> 0 | Some k \<Rightarrow> (k - 1) * page_size);
          attr = oget (el_attrs el);
          search_field = (case nonempty (attr ''search-field'') of None \<Rightarrow> ''q'' | Some f \<Rightarrow> f);
          depth = (case attr ''data-depth'' of None \<Rightarrow> 0
                   | Some d \<Rightarrow> (case parse_int d of None \<Rightarrow> 0 | Some i \<Rightarrow> i))
      in case flat_map (attr_params lookup_ref el) (filter (\<lambda>a. includes_str query_prefix (fst a)) (el_attrs el)) of
           Inl e \<Rightarrow> Inl e
         | Inr extra \<Rightarrow>
             Inr ([(''depth'', show_int depth), (''limit'', show_int page_size), (''offset'', show_int offset)] @
                  opt_param ''api_version'' (attr ''data-api-version'') @
                  opt_param ''content_type'' (attr ''data-contenttype'') @
                  opt_param search_field term @ extra))"

text \<open>
  A boolean attribute without a value is the empty string, which is not truthy: the null
  option of a field that is required in that way is never sent.
\<close>

lemma bare_required_is_ignored:
  "rf_required f = Some [] \<Longrightarrow> rf_value f = One [] \<Longrightarrow> ref_value (Some f) = Absent"
  by (simp add: ref_value_def value_truthy_def nonempty_def)

lemma flat_map_Inr: "flat_map f xs = Inr zs \<Longrightarrow> \<exists>g. zs = concat (map g xs) \<and> list_all (\<lambda>x. f x = Inr (g x)) xs"
proof -
  assume "flat_map f xs = Inr zs"
  then have "list_all (\<lambda>x. f x = Inr (projr (f x))) xs \<and> zs = concat (map (\<lambda>x. projr (f x)) xs)"
    by (induction xs arbitrary: zs) (auto split: sum.splits)
  then show ?thesis by blast
qed

section \<open>Grouping the results\<close>

text \<open>
  A record of the response is an object. \<open>getp\<close> stands for \<open>lodash.get\<close>, the value at a path
  that is given as an attribute.
\<close>

type_synonym path_reader = "json obj \<Rightarrow> string option \<Rightarrow> json option"

definition put :: "string \<Rightarrow> json option \<Rightarrow> json obj \<Rightarrow> json obj" where
  "put k v ob = (case v of Some w \<Rightarrow> oset k w ob | None \<Rightarrow> odel k ob)"

definition or_member :: "json option \<Rightarrow> string \<Rightarrow> json obj \<Rightarrow> json option" where
  "or_member v k rec = (if truthy_opt v then v else oget rec k)"

definition item_of :: "path_reader \<Rightarrow> choice_field \<Rightarrow> json obj \<Rightarrow> json obj" where
  "item_of getp el rec =
     (let attr = oget (el_attrs el);
          off = truthy_opt (oget rec (id_text (attr ''disabled-indicator'')));
          i = or_member (getp rec (attr ''value-field'')) ''id'' rec;
          t = or_member (getp rec (attr ''display-field'')) ''name'' rec
      in put ''text'' t (put ''id'' i (oset ''disabled'' (JBool off) rec)))"

fun text_of :: "json \<Rightarrow> string" where
  "text_of JNull = ''null''"
| "text_of (JBool b) = show_bool b"
| "text_of (JNum i) = show_int i"
| "text_of (JStr s) = s"
| "text_of (JArr vs) = join_str '','' (map (\<lambda>v. if v = JNull then [] else text_of v) vs)"
| "text_of (JObj ms) = ''[object Object]''"

definition member_text :: "json option \<Rightarrow> string" where
  "member_text v = (case v of None \<Rightarrow> ''undefined'' | Some w \<Rightarrow> text_of w)"

definition given :: "json option \<Rightarrow> bool" where
  "given v \<longleftrightarrow> v \<noteq> None \<and> v \<noteq> Some JNull"

text \<open>The property and the text of the group a result belongs to.\<close>

definition collection_of :: "json obj \<Rightarrow> (string \<times> json option) option" where
  "collection_of item =
     (let g = oget item ''group''; s = oget item ''site'';
          gn = jopt ''name'' g; sn = jopt ''name'' s
      in if given g \<and> given s
         then Some (member_text sn @ '':'' @ member_text gn,
                    Some (JStr (member_text sn @ '' / '' @ member_text gn)))
         else if given g then Some (member_text gn, gn)
         else if given s then Some (member_text sn, sn)
         else if g = Some JNull \<and> s = Some JNull then Some (''global'', Some (JStr ''Global''))
         else None)"

text \<open>\<open>url?.includes('dynamic-groups')\<close>: \<open>None\<close> where the method is missing.\<close>

definition nullifies :: "json obj \<Rightarrow> bool option" where
  "nullifies item =
     (case oget item ''url'' of
        None \<Rightarrow> Some False
      | Some JNull \<Rightarrow> Some False
      | Some (JStr u) \<Rightarrow> Some (includes_str ''dynamic-groups'' u)
      | Some (JArr vs) \<Rightarrow> Some (List.member vs (JStr ''dynamic-groups''))
      | Some _ \<Rightarrow> None)"

definition spread_children :: "json option \<Rightarrow> json list option" where
  "spread_children v =
     (case v of
        None \<Rightarrow> Some []
      | Some JNull \<Rightarrow> Some []
      | Some (JArr cs) \<Rightarrow> Some cs
      | Some (JStr t) \<Rightarrow> Some (map (\<lambda>c. JStr [c]) t)
      | Some _ \<Rightarrow> None)"

definition group_result ::
    "path_reader \<Rightarrow> choice_field \<Rightarrow> nat \<Rightarrow> json obj \<Rightarrow> json obj \<Rightarrow> js_error + json obj" where
  "group_result getp el index rec acc =
     (let item = item_of getp el rec
      in case nullifies item of
           None \<Rightarrow> Inl TypeError
         | Some drop_children \<Rightarrow>
             (case collection_of item of
                None \<Rightarrow> Inr (oset (show_nat index) (JObj item) acc)
              | Some (prop, text) \<Rightarrow>
                  let old = oget acc prop;
                      base = own_entries old;
                      titled = (if truthy_opt old then base else put ''text'' text base)
                  in if drop_children then Inr (oset prop (JObj (odel ''children'' titled)) acc)
                     else
                       (case spread_children (jopt ''children'' old) of
                          None \<Rightarrow> Inl TypeError
                        | Some cs \<Rightarrow>
                            Inr (oset prop (JObj (oset ''children'' (JArr (cs @ [JObj item])) titled)) acc))))"

fun group_from ::
    "path_reader \<Rightarrow> choice_field \<Rightarrow> nat \<Rightarrow> json obj list \<Rightarrow> json obj \<Rightarrow> js_error + json obj" where
  "group_from getp el index [] acc = Inr acc"
| "group_from getp el index (rec # recs) acc =
     (case group_result getp el index rec acc of
        Inl e \<Rightarrow> Inl e
      | Inr acc' \<Rightarrow> group_from getp el (Suc index) recs acc')"

text \<open>
  \<open>Object.values\<close>: the integer keys first, in ascending order, then the others in the order
  they were created.
\<close>

definition index_key :: "string \<Rightarrow> nat option" where
  "index_key k =
     (if k \<noteq> [] \<and> list_all is_digit k \<and> show_nat (nat (digits_val k)) = k \<and> digits_val k < 4294967295
      then Some (nat (digits_val k)) else None)"

definition js_entries :: "json obj \<Rightarrow> json obj" where
  "js_entries ob =
     sort_key (\<lambda>e. the (index_key (fst e))) (filter (\<lambda>e. index_key (fst e) \<noteq> None) ob) @
     filter (\<lambda>e. index_key (fst e) = None) ob"

text \<open>The \<open>processResults\<close> callback: the results and whether there are more.\<close>

definition process_results ::
    "path_reader \<Rightarrow> choice_field \<Rightarrow> json \<Rightarrow> json \<Rightarrow> json obj list \<Rightarrow> js_error + (bool \<times> json list)" where
  "process_results getp el previous next recs =
     (case group_from getp el 0 recs [] of
        Inl e \<Rightarrow> Inl e
      | Inr acc \<Rightarrow>
          let null = oget (el_attrs el) ''data-null-option'';
              first = (case nonempty null of
                         Some t \<Rightarrow> if previous = JNull then [JObj [(''id'', JStr ''null''), (''text'', JStr t)]] else []
                       | None \<Rightarrow> [])
          in Inr (next \<noteq> JNull, first @ map snd (js_entries acc)))"

definition enable_options :: "uid \<Rightarrow> 'a page_scheme \<Rightarrow> 'a page_scheme" where
  "enable_options u p = upd_all (qsa p u (\<lambda>e. tag e = ''OPTION'')) (remove_attr ''disabled'') p"

text \<open>The results an entry of the grouping stands for.\<close>

definition children_of :: "json \<Rightarrow> json list" where
  "children_of v = (case jget ''children'' v of Some (JArr cs) \<Rightarrow> cs | _ \<Rightarrow> [])"

definition entry_items :: "string \<times> json \<Rightarrow> json list" where
  "entry_items e = (if index_key (fst e) \<noteq> None then [snd e] else children_of (snd e))"

definition all_items :: "json obj \<Rightarrow> json list" where
  "all_items acc = concat (map entry_items acc)"

text \<open>No group has a number as its name, and no result hides its children.\<close>

definition plain_result :: "path_reader \<Rightarrow> choice_field \<Rightarrow> json obj \<Rightarrow> bool" where
  "plain_result getp el rec \<longleftrightarrow>
     nullifies (item_of getp el rec) = Some False \<and>
     (case collection_of (item_of getp el rec) of
        None \<Rightarrow> True
      | Some c \<Rightarrow> index_key (fst c) = None)"

definition entry_ok :: "nat \<Rightarrow> string \<Rightarrow> json \<Rightarrow> bool" where
  "entry_ok n k v \<longleftrightarrow>
     (if index_key k = None then \<exists>ms cs. v = JObj ms \<and> oget ms ''children'' = Some (JArr cs)
      else \<exists>j < n. k = show_nat j)"

definition grouping :: "nat \<Rightarrow> json obj \<Rightarrow> bool" where
  "grouping n acc \<longleftrightarrow> wf_obj acc \<and> (\<forall>k v. oget acc k = Some v \<longrightarrow> entry_ok n k v)"

lemma index_key_show: "n < 4294967295 \<Longrightarrow> index_key (show_nat n) = Some n"
  using show_nat_digits [of n] by (simp add: index_key_def digits_val_show_nat list_all_iff)

lemma all_items_oset:
  "wf_obj acc \<Longrightarrow>
     mset (all_items (oset k v acc)) +
       (case oget acc k of None \<Rightarrow> {#} | Some w \<Rightarrow> mset (entry_items (k, w))) =
     mset (all_items acc) + mset (entry_items (k, v))"
proof (induction acc)
  case (Cons e acc)
  obtain k' w where e: "e = (k', w)" by (cases e)
  show ?case
  proof (cases "k' = k")
    case True
    then show ?thesis using e by (simp add: all_items_def)
  next
    case False
    have "wf_obj acc" using Cons.prems by (simp add: wf_obj_def)
    from Cons.IH [OF this] False show ?thesis
      unfolding e by (simp add: all_items_def add.assoc)
  qed
qed (simp add: all_items_def)

lemma entry_ok_Suc: "entry_ok n k v \<Longrightarrow> entry_ok (Suc n) k v"
  by (auto simp: entry_ok_def intro: less_SucI split: if_splits)

lemma grouping_oset:
  "grouping n acc \<Longrightarrow> entry_ok (Suc n) k v \<Longrightarrow> grouping (Suc n) (oset k v acc)"
  by (simp add: grouping_def entry_ok_Suc)

lemma group_result_keeps:
  assumes g: "grouping n acc" and n: "n < 4294967295" and r: "plain_result getp el rec"
  shows "\<exists>acc'. group_result getp el n rec acc = Inr acc' \<and> grouping (Suc n) acc' \<and>
    mset (all_items acc') = mset (all_items acc) + {#JObj (item_of getp el rec)#}"
proof -
  let ?item = "item_of getp el rec"
  have nul: "nullifies ?item = Some False" using r by (simp add: plain_result_def)
  have wf: "wf_obj acc" using g by (simp add: grouping_def)
  show ?thesis
  proof (cases "collection_of ?item")
    case None
    have k: "index_key (show_nat n) = Some n" using n by (rule index_key_show)
    have new: "oget acc (show_nat n) = None"
    proof (rule ccontr)
      assume "oget acc (show_nat n) \<noteq> None"
      then obtain v where "entry_ok n (show_nat n) v" using g by (auto simp: grouping_def)
      then obtain j where "j < n" "show_nat n = show_nat j" using k by (auto simp: entry_ok_def)
      then show False using show_nat_inj by blast
    qed
    have "mset (all_items (oset (show_nat n) (JObj ?item) acc)) = mset (all_items acc) + {#JObj ?item#}"
      using all_items_oset [OF wf, of "show_nat n" "JObj ?item"] new k by (simp add: entry_items_def)
    moreover have "grouping (Suc n) (oset (show_nat n) (JObj ?item) acc)"
      using g k by (intro grouping_oset) (auto simp: entry_ok_def)
    ultimately show ?thesis using None nul by (simp add: group_result_def Let_def)
  next
    case (Some c)
    obtain p t where c: "c = (p, t)" by (cases c)
    have k: "index_key p = None" using r Some c by (simp add: plain_result_def)
    obtain cs where cs: "spread_children (jopt ''children'' (oget acc p)) = Some cs"
      and old: "(case oget acc p of None \<Rightarrow> {#} | Some w \<Rightarrow> mset (entry_items (p, w))) = mset cs"
    proof (cases "oget acc p")
      case None
      then show ?thesis using that [of "[]"] by (simp add: jopt_def spread_children_def)
    next
      case (Some v)
      then have "entry_ok n p v" using g by (simp add: grouping_def)
      then obtain ms ds where "v = JObj ms" "oget ms ''children'' = Some (JArr ds)"
        using k by (auto simp: entry_ok_def)
      then show ?thesis using that [of ds] Some k
        by (simp add: jopt_def spread_children_def entry_items_def children_of_def)
    qed
    define base where "base = (if truthy_opt (oget acc p) then own_entries (oget acc p)
      else put ''text'' t (own_entries (oget acc p)))"
    define v where "v = JObj (oset ''children'' (JArr (cs @ [JObj ?item])) base)"
    have res: "group_result getp el n rec acc = Inr (oset p v acc)"
      using Some c nul cs by (simp add: group_result_def Let_def v_def base_def)
    have "mset (all_items (oset p v acc)) + mset cs = mset (all_items acc) + (mset cs + {#JObj ?item#})"
      using all_items_oset [OF wf, of p v] old k by (simp add: entry_items_def children_of_def v_def)
    then have "mset (all_items (oset p v acc)) = mset (all_items acc) + {#JObj ?item#}"
      by (simp add: union_assoc [symmetric])
    moreover have "grouping (Suc n) (oset p v acc)"
      using g k by (intro grouping_oset) (auto simp: v_def entry_ok_def)
    ultimately show ?thesis using res by blast
  qed
qed

lemma group_from_keeps:
  "grouping n acc \<Longrightarrow> n + length recs \<le> 4294967295 \<Longrightarrow> list_all (plain_result getp el) recs \<Longrightarrow>
     \<exists>acc'. group_from getp el n recs acc = Inr acc' \<and>
       mset (all_items acc') = mset (all_items acc) + mset (map (\<lambda>rec. JObj (item_of getp el rec)) recs)"
proof (induction recs arbitrary: n acc)
  case (Cons rec recs)
  obtain acc1 where a: "group_result getp el n rec acc = Inr acc1" "grouping (Suc n) acc1"
    "mset (all_items acc1) = mset (all_items acc) + {#JObj (item_of getp el rec)#}"
    using group_result_keeps [OF Cons.prems(1), of getp el rec] Cons.prems by auto
  then show ?case using Cons.IH [OF a(2)] Cons.prems by auto
qed simp

lemma mset_all_items: "mset (all_items acc) = (\<Sum>e \<in># mset acc. mset (entry_items e))"
  by (induction acc) (simp_all add: all_items_def)

lemma mset_js_entries: "mset (js_entries acc) = mset acc"
proof -
  have "mset (js_entries acc) =
      filter_mset (\<lambda>e. index_key (fst e) \<noteq> None) (mset acc) + filter_mset (\<lambda>e. index_key (fst e) = None) (mset acc)"
    unfolding js_entries_def by (simp only: mset_append mset_sort mset_filter)
  also have "\<dots> = mset acc"
    using multiset_partition [of "mset acc" "\<lambda>e. index_key (fst e) \<noteq> None"] by simp
  finally show ?thesis .
qed

lemma all_items_entries: "mset (all_items (js_entries acc)) = mset (all_items acc)"
  by (simp only: mset_all_items mset_js_entries)

text \<open>
  C21: Grouping loses and repeats no result: as long as no group is named like a number, the
  entries offered by the combo box, taken apart into their children, are the records of
  the response, each exactly once.
\<close>

theorem grouping_keeps_results:
  assumes "length recs \<le> 4294967295" and "list_all (plain_result getp el) recs"
  shows "\<exists>acc. process_results getp el JNull next recs =
      Inr (next \<noteq> JNull,
        (case nonempty (oget (el_attrs el) ''data-null-option'') of
           None \<Rightarrow> [] | Some t \<Rightarrow> [JObj [(''id'', JStr ''null''), (''text'', JStr t)]]) @
        map snd (js_entries acc)) \<and>
    mset (all_items (js_entries acc)) = mset (map (\<lambda>rec. JObj (item_of getp el rec)) recs)"
proof -
  have "grouping 0 []" by (simp add: grouping_def wf_obj_def)
  then obtain acc where "group_from getp el 0 recs [] = Inr acc"
    "mset (all_items acc) = mset (map (\<lambda>rec. JObj (item_of getp el rec)) recs)"
    using group_from_keeps [of 0 "[]" recs getp el] assms by (auto simp: all_items_def)
  then show ?thesis
    by (intro exI [of _ acc])
       (simp add: process_results_def Let_def all_items_entries split: option.split)
qed

definition read_member :: path_reader where
  "read_member rec path = (case path of None \<Rightarrow> None | Some k \<Rightarrow> oget rec k)"

definition demo_choice :: choice_field where
  "demo_choice = \<lparr>el_id = ''id_rack'', in_dynamic_row = False,
     el_attrs = [(''value-field'', ''id''), (''display-field'', ''name'')]\<rparr>"

definition demo_records :: "json obj list" where
  "demo_records =
     [[(''id'', JNum 1), (''name'', JStr ''r1''), (''group'', JObj [(''name'', JStr ''Row'')])],
      [(''id'', JNum 2), (''name'', JStr ''r2'')],
      [(''id'', JNum 3), (''name'', JStr ''r3''), (''group'', JObj [(''name'', JStr ''Row'')])]]"

lemma grouping_keeps_results_witness:
  "\<exists>acc. process_results read_member demo_choice JNull JNull demo_records = Inr (False, map snd (js_entries acc)) \<and>
     length (all_items (js_entries acc)) = 3"
proof -
  have l: "length demo_records \<le> 4294967295" by (simp add: demo_records_def)
  have p: "list_all (plain_result read_member demo_choice) demo_records" by code_simp
  obtain acc where a: "process_results read_member demo_choice JNull JNull demo_records = Inr (False, map snd (js_entries acc))"
    and m: "mset (all_items (js_entries acc)) = mset (map (\<lambda>rec. JObj (item_of read_member demo_choice rec)) demo_records)"
    using grouping_keeps_results [OF l p, of JNull]
    by (auto simp: demo_choice_def nonempty_def)
  have "length (all_items (js_entries acc)) = 3"
    using arg_cong [OF m, of size] by (simp add: demo_records_def)
  with a show ?thesis by blast
qed

text \<open>
  A group that is named like a number shares its key with the result at that index: here the
  first of two records is lost.
\<close>

lemma numeric_group_is_overwritten:
  "process_results read_member demo_choice JNull JNull
     [[(''id'', JNum 1), (''name'', JStr ''a''), (''group'', JObj [(''name'', JStr ''1'')])],
      [(''id'', JNum 2), (''name'', JStr ''b'')]] =
   Inr (False, [JObj [(''id'', JNum 2), (''name'', JStr ''b''), (''disabled'', JBool False), (''text'', JStr ''b'')]])"
  by code_simp

section \<open>Adding a value with Enter\<close>

text \<open>
  The keydown listener on the search box of a multiple combo box: the text that is typed, the
  select, whether the default action is prevented.
\<close>

fun select_first :: "string \<Rightarrow> opt list \<Rightarrow> opt list" where
  "select_first v [] = []"
| "select_first v (c # cs) =
     (if o_value c = v then c\<lparr>o_selected := True\<rparr> # cs else c # select_first v cs)"

definition on_enter_value :: "string \<Rightarrow> string \<times> select_box \<Rightarrow> bool \<times> string \<times> select_box" where
  "on_enter_value k s =
     (case s of (search, sb) \<Rightarrow>
        if k \<noteq> ''Enter'' then (False, search, sb)
        else
          let v = js_trim search
          in if v = [] then (True, search, sb)
             else
               let os = (if has_option v (opts sb) then select_first v (opts sb)
                         else opts sb @ [\<lparr>o_text = v, o_value = v, o_selected = True\<rparr>])
               in (True, [], trigger ''change'' (sb\<lparr>opts := os\<rparr>)))"

text \<open>Opening the drop-down binds the listener once per search box.\<close>

definition on_select2_open :: "'a page_scheme \<Rightarrow> 'a page_scheme \<times> uid option" where
  "on_select2_open p =
     (case doc_qs p (has_class ''select2-container--open'') of
        None \<Rightarrow> (p, None)
      | Some c \<Rightarrow>
          (case qs p c (\<lambda>e. tag e = ''INPUT'' \<and> has_class ''select2-search__field'' e) of
             None \<Rightarrow> (p, None)
           | Some s \<Rightarrow>
               if nonempty (get_attr ''data-enter-binds'' (heap p s)) \<noteq> None then (p, None)
               else (upd s (set_attr ''data-enter-binds'' ''1'') p, Some s)))"

lemma select_first_chosen:
  "has_option v os \<Longrightarrow> set (map o_value (filter o_selected (select_first v os))) =
     insert v (set (map o_value (filter o_selected os)))"
  by (induction os) (auto simp: has_option_def simp del: set_map set_filter)

text \<open>
  Enter in the search box of a multiple combo box selects the trimmed text, as an option of
  the box or as a new one, keeps everything selected before, and empties the search box; with
  nothing but space in it, it changes nothing.
\<close>

theorem enter_adds_value:
  "(case on_enter_value ''Enter'' (search, sb) of (prevented, search', sb') \<Rightarrow>
      prevented \<and>
      set (chosen_values sb') =
        (if js_trim search = [] then {} else {js_trim search}) \<union> set (chosen_values sb) \<and>
      search' = (if js_trim search = [] then search else []))"
  using select_first_chosen [of "js_trim search" "opts sb"]
  by (simp add: on_enter_value_def Let_def chosen_values_def chosen_def trigger_def
      insert_commute del: set_map set_filter)

lemma listener_bound_once:
  assumes "wf_page p"
  shows "snd (on_select2_open (fst (on_select2_open p))) = None"
proof (cases "snd (on_select2_open p)")
  case None
  then show ?thesis by (auto simp: on_select2_open_def split: option.splits if_splits)
next
  case (Some s)
  then obtain c where c: "doc_qs p (has_class ''select2-container--open'') = Some c"
    and s: "qs p c (\<lambda>e. tag e = ''INPUT'' \<and> has_class ''select2-search__field'' e) = Some s"
    and q: "fst (on_select2_open p) = upd s (set_attr ''data-enter-binds'' ''1'') p"
    by (auto simp: on_select2_open_def split: option.splits if_splits)
  let ?q = "upd s (set_attr ''data-enter-binds'' ''1'') p"
  have t: "untouched [''data-enter-binds''] [] p ?q" by simp
  have "doc_qs ?q (has_class ''select2-container--open'') = Some c"
    using c doc_qs_cong [of ?q p "has_class ''select2-container--open''" "has_class ''select2-container--open''"]
    by (simp add: heap_upd)
  moreover have "qs ?q c (\<lambda>e. tag e = ''INPUT'' \<and> has_class ''select2-search__field'' e) = Some s"
    using s unfolding qs_def qsa_def
    by (simp only: untouched_tag [OF t] untouched_class [OF t] untouched_doc [OF t] list.set empty_iff not_False_eq_True)
  ultimately have "on_select2_open ?q = (?q, None)" by (simp add: on_select2_open_def nonempty_def)
  then show ?thesis by (simp add: q)
qed

section \<open>Initialization\<close>

text \<open>\<open>label.id ||= ...\<close> for the labels of a field, and the text of \<open>aria-labelledby\<close>.\<close>

definition label_id :: "string \<Rightarrow> nat \<Rightarrow> elem \<Rightarrow> string" where
  "label_id field_id k e =
     (case nonempty (get_attr ''id'' e) of Some i \<Rightarrow> i | None \<Rightarrow> field_id @ ''_label_'' @ show_nat k)"

fun label_ids :: "string \<Rightarrow> nat \<Rightarrow> uid list \<Rightarrow> 'a page_scheme \<Rightarrow> string list \<times> 'a page_scheme" where
  "label_ids field_id k [] p = ([], p)"
| "label_ids field_id k (l # ls) p =
     (let i = label_id field_id k (heap p l);
          (is, q) = label_ids field_id (Suc k) ls (upd l (set_attr ''id'' i) p)
      in (i # is, q))"

definition label_selection :: "string \<Rightarrow> uid list \<Rightarrow> uid \<Rightarrow> 'a page_scheme \<Rightarrow> 'a page_scheme" where
  "label_selection field_id labels sel p =
     (let (is, q) = label_ids field_id 0 labels p
      in if is = [] then q
         else
           let t = join_str '' '' is;
               q1 = upd sel (set_attr ''aria-labelledby'' t) q
           in (case qs q1 sel (has_class ''select2-selection__rendered'') of
                 None \<Rightarrow> q1
               | Some r \<Rightarrow> upd r (set_attr ''aria-labelledby'' t) q1))"

text \<open>
  \<open>initializeSelect2Fields\<close>: which elements become combo boxes of which kind, with which
  parent for the drop-down (\<open>None\<close> is no parent), in order.
\<close>

datatype box_kind = Color_Picker | Dynamic_Choice | Multi_Value | Static_Choice

definition kind_class :: "box_kind \<Rightarrow> string" where
  "kind_class k =
     (case k of
        Color_Picker \<Rightarrow> ''nautobot-select2-color-picker''
      | Dynamic_Choice \<Rightarrow> ''nautobot-select2-api''
      | Multi_Value \<Rightarrow> ''nautobot-select2-multi-value-char''
      | Static_Choice \<Rightarrow> ''nautobot-select2-static'')"

definition init_kind :: "'a page_scheme \<Rightarrow> uid \<Rightarrow> uid option \<Rightarrow> box_kind \<Rightarrow> (uid \<times> box_kind \<times> uid option) list" where
  "init_kind p ctx dropdown k = map (\<lambda>u. (u, k, dropdown)) (qsa p ctx (has_class (kind_class k)))"

definition init_kinds :: "'a page_scheme \<Rightarrow> uid \<Rightarrow> uid option \<Rightarrow> (uid \<times> box_kind \<times> uid option) list" where
  "init_kinds p ctx dropdown =
     concat (map (init_kind p ctx dropdown) [Color_Picker, Dynamic_Choice, Multi_Value, Static_Choice])"

definition initialize_select2_fields :: "'a page_scheme \<Rightarrow> uid \<Rightarrow> (uid \<times> box_kind \<times> uid option) list" where
  "initialize_select2_fields p ctx =
     (let dropdown = (if closest p (has_class ''modal'') ctx \<noteq> None then Some ctx else None)
      in init_kinds p ctx dropdown @
         concat (map (\<lambda>m. init_kinds p m (Some m)) (qsa p ctx (has_class ''modal''))))"

text \<open>The last initialization of an element decides: inside a modal it opens in the modal.\<close>

definition final_parent :: "(uid \<times> box_kind \<times> uid option) list \<Rightarrow> uid \<Rightarrow> box_kind \<Rightarrow> uid option option" where
  "final_parent is u k = map_option (\<lambda>(v, k', d). d) (List.find (\<lambda>(v, k', d). v = u \<and> k' = k) (rev is))"

end
