(* ===== verification/Filter_Form.thy ===== *)
theory Filter_Form
  imports Select2
begin

text \<open>
  The filter drawer, \<open>project-static/js/filter_form.js\<close>. A filter is shown twice: as a
  field of the basic form, and as badges in the advanced form, one group of badges per field
  (\<open>.nb-multi-badge\<close>), one badge with a hidden input per value. \<open>syncDefaultToDynamic\<close> and
  \<open>syncDynamicToDefault\<close> keep the two alike, \<open>manageDynamicFilter\<close> edits the badges, and
  the listeners react to clicks, changes and answers of the server.
\<close>

section \<open>The two forms\<close>

text \<open>
  A badge has the name and the value of its hidden input. The markup the server renders has
  white space between the badges of a group (\<open>g_space\<close>); a group the script creates has none.
\<close>

record badge =
  b_name :: string
  b_value :: string
  b_text :: string

record badge_group =
  g_field :: string
  g_text :: string
  g_space :: bool
  g_badges :: "badge list"

record basic_field =
  f_name :: string
  f_tag :: string
  f_label :: "string option"
  f_value :: string
  f_box :: select_box

record filter_page =
  groups :: "badge_group list"
  basic :: "basic_field list option"

definition basic_of :: "string \<Rightarrow> filter_page \<Rightarrow> basic_field option" where
  "basic_of n p = (case basic p of None \<Rightarrow> None | Some fs \<Rightarrow> List.find (\<lambda>f. f_name f = n) fs)"

fun upd_first :: "('a \<Rightarrow> bool) \<Rightarrow> ('a \<Rightarrow> 'a) \<Rightarrow> 'a list \<Rightarrow> 'a list" where
  "upd_first P f [] = []"
| "upd_first P f (x # xs) = (if P x then f x # xs else x # upd_first P f xs)"

fun remove_first :: "('a \<Rightarrow> bool) \<Rightarrow> 'a list \<Rightarrow> 'a list" where
  "remove_first P [] = []"
| "remove_first P (x # xs) = (if P x then xs else x # remove_first P xs)"

definition upd_basic :: "string \<Rightarrow> (basic_field \<Rightarrow> basic_field) \<Rightarrow> filter_page \<Rightarrow> filter_page" where
  "upd_basic n f p = p\<lparr>basic := map_option (upd_first (\<lambda>g. f_name g = n) f) (basic p)\<rparr>"

section \<open>Editing the badges\<close>

datatype filter_action = Add_Values | Set_Values

definition new_badge :: "string \<Rightarrow> string \<times> string \<Rightarrow> badge" where
  "new_badge name tv = \<lparr>b_name = name, b_value = snd tv, b_text = fst tv\<rparr>"

definition new_group :: "string \<Rightarrow> string \<Rightarrow> badge_group" where
  "new_group name text = \<lparr>g_field = name, g_text = text @ '':'', g_space = False, g_badges = []\<rparr>"

definition kept_badges :: "filter_action \<Rightarrow> (string \<times> string) list \<Rightarrow> badge list \<Rightarrow> badge list" where
  "kept_badges action vs bs =
     (case action of
        Add_Values \<Rightarrow> filter (\<lambda>b. \<not> list_ex (\<lambda>tv. b_value b = snd tv) vs) bs
      | Set_Values \<Rightarrow> [])"

text \<open>Every new badge is inserted as the first one.\<close>

definition edit_group :: "filter_action \<Rightarrow> string \<Rightarrow> (string \<times> string) list \<Rightarrow> badge_group \<Rightarrow> badge_group" where
  "edit_group action name vs g =
     g\<lparr>g_badges := fold (\<lambda>tv bs. new_badge name tv # bs) vs (kept_badges action vs (g_badges g))\<rparr>"

definition manage_dynamic_filter ::
    "filter_action \<Rightarrow> string \<Rightarrow> string \<Rightarrow> (string \<times> string) list \<Rightarrow> filter_page \<Rightarrow> filter_page" where
  "manage_dynamic_filter action name text vs p =
     (let old = List.find (\<lambda>g. g_field g = name) (groups p);
          g = edit_group action name vs (case old of Some g \<Rightarrow> g | None \<Rightarrow> new_group name text);
          rest = remove_first (\<lambda>g. g_field g = name) (groups p)
      in p\<lparr>groups := (if g_badges g \<noteq> [] \<or> g_space g then g # rest else rest)\<rparr>)"

section \<open>Keeping the forms alike\<close>

definition field_values :: "basic_field \<Rightarrow> (string \<times> string) list" where
  "field_values f =
     (if f_tag f = ''SELECT'' then map (\<lambda>c. (o_text c, o_value c)) (chosen (f_box f))
      else if f_value f \<noteq> [] then [(f_value f, f_value f)] else [])"

definition sync_default_to_dynamic :: "string \<Rightarrow> filter_page \<Rightarrow> filter_page outcome" where
  "sync_default_to_dynamic name p =
     (case basic_of name p of
        None \<Rightarrow> Throw TypeError p
      | Some f \<Rightarrow>
          Done (manage_dynamic_filter Set_Values name
            (case f_label f of None \<Rightarrow> ''undefined'' | Some t \<Rightarrow> js_trim t) (field_values f) p))"

text \<open>
  The hidden inputs of a name, anywhere in the advanced form. Setting a select fires a
  \<open>change\<close> event, whose listener copies the field back to the badges.
\<close>

definition dynamic_values :: "string \<Rightarrow> filter_page \<Rightarrow> (string \<times> string) list" where
  "dynamic_values name p =
     map (\<lambda>b. (b_text b, b_value b)) (filter (\<lambda>b. b_name b = name) (concat (map g_badges (groups p))))"

definition sync_dynamic_to_default :: "string option \<Rightarrow> filter_page \<Rightarrow> filter_page outcome" where
  "sync_dynamic_to_default nm p =
     (let name = (case nm of None \<Rightarrow> ''undefined'' | Some n \<Rightarrow> n);
          current = dynamic_values name p
      in case basic_of name p of
           None \<Rightarrow> Done p
         | Some f \<Rightarrow>
             if f_tag f = ''INPUT'' \<or> f_tag f = ''TEXTAREA'' then
               Done (upd_basic name
                 (\<lambda>g. g\<lparr>f_value := (case current of [] \<Rightarrow> [] | tv # _ \<Rightarrow> snd tv)\<rparr>) p)
             else if f_tag f = ''SELECT'' then
               sync_default_to_dynamic name
                 (upd_basic name (\<lambda>g. g\<lparr>f_box := set_select2_value (Some current) (f_box g)\<rparr>) p)
             else Done p)"

section \<open>Listeners\<close>

text \<open>A control of the "Add filter" form: a select or a text field.\<close>

datatype control = Sel select_box | Txt string

definition is_missing :: "control option \<Rightarrow> bool" where
  "is_missing c =
     (case c of
        None \<Rightarrow> True
      | Some (Sel sb) \<Rightarrow> chosen sb = []
      | Some (Txt v) \<Rightarrow> v = [])"

text \<open>\<open>/\(\w+\)/.test(suffix)\<close>\<close>

definition word_char :: "char \<Rightarrow> bool" where
  "word_char c \<longleftrightarrow> is_upper c \<or> is_lower c \<or> is_digit c \<or> c = CHR ''_''"

fun has_paren_word :: "string \<Rightarrow> bool" where
  "has_paren_word [] = False"
| "has_paren_word (c # s) =
     ((c = CHR ''('' \<and> takeWhile word_char s \<noteq> [] \<and> starts_with '')'' (dropWhile word_char s)) \<or>
      has_paren_word s)"

definition control_values :: "control \<Rightarrow> (string \<times> string) list" where
  "control_values c =
     (case c of
        Txt v \<Rightarrow> [(v, v)]
      | Sel sb \<Rightarrow>
          if multi sb then map (\<lambda>x. (js_trim (o_text x), o_value x)) (chosen sb)
          else (case get_value sb of One v \<Rightarrow> [(v, v)] | Many vs \<Rightarrow> []))"

definition filter_text :: "opt \<Rightarrow> opt \<Rightarrow> string" where
  "filter_text field type =
     (let label = js_trim (o_text field); suffix = js_trim (o_text type)
      in if has_paren_word suffix then label @ '' '' @ suffix else label)"

text \<open>A click on "Add filter": the lookup field with its prefix, the lookup type, the value.\<close>

definition add_name :: "string option \<Rightarrow> select_box \<Rightarrow> string" where
  "add_name prefix tb =
     (let default_name = o_value (hd (chosen tb))
      in case nonempty prefix of Some pre \<Rightarrow> pre @ ''-'' @ default_name | None \<Rightarrow> default_name)"

definition on_click_add ::
    "string option \<Rightarrow> control option \<Rightarrow> control option \<Rightarrow> control option \<Rightarrow> filter_page \<Rightarrow> filter_page outcome" where
  "on_click_add prefix field type value p =
     (if is_missing field \<or> is_missing type \<or> is_missing value then Done p
      else
        (case (field, type, value) of
           (Some (Sel fb), Some (Sel tb), Some v) \<Rightarrow>
             let name = add_name prefix tb;
                 text = filter_text (hd (chosen fb)) (hd (chosen tb))
             in if basic p = None then Throw TypeError p
                else
                  let action = (if basic_of name p \<noteq> None \<and> (case v of Txt _ \<Rightarrow> True | Sel _ \<Rightarrow> False)
                                then Set_Values else Add_Values)
                  in sync_dynamic_to_default (Some name)
                       (manage_dynamic_filter action name text (control_values v) p)
         | _ \<Rightarrow> Throw TypeError p))"

text \<open>
  A click on a remove button: in the group \<open>i\<close> itself, or in its badge \<open>j\<close>. A group goes with
  its last badge. The name that is synchronized is the one of the first hidden input of what
  was removed.
\<close>

definition badge_target :: "nat \<Rightarrow> nat option \<Rightarrow> filter_page \<Rightarrow> badge list" where
  "badge_target i j p =
     (let bs = g_badges (groups p ! i)
      in case j of None \<Rightarrow> bs | Some k \<Rightarrow> if k < length bs then [bs ! k] else [])"

definition drop_nth :: "nat \<Rightarrow> 'a list \<Rightarrow> 'a list" where
  "drop_nth k xs = take k xs @ drop (Suc k) xs"

definition remove_badge :: "nat \<Rightarrow> nat option \<Rightarrow> filter_page \<Rightarrow> filter_page" where
  "remove_badge i j p =
     (let g = groups p ! i
      in case j of
           None \<Rightarrow> p\<lparr>groups := drop_nth i (groups p)\<rparr>
         | Some k \<Rightarrow>
             if length (g_badges g) = 1 then p\<lparr>groups := drop_nth i (groups p)\<rparr>
             else p\<lparr>groups := (groups p)[i := g\<lparr>g_badges := drop_nth k (g_badges g)\<rparr>]\<rparr>)"

definition on_click_remove :: "nat \<Rightarrow> nat option \<Rightarrow> filter_page \<Rightarrow> filter_page outcome" where
  "on_click_remove i j p =
     sync_dynamic_to_default (map_option b_name (first_of (badge_target i j p))) (remove_badge i j p)"

definition on_basic_change :: "string \<Rightarrow> filter_page \<Rightarrow> filter_page outcome" where
  "on_basic_change name p = sync_default_to_dynamic name p"

section \<open>The two forms agree\<close>

definition own_badges :: "badge_group \<Rightarrow> bool" where
  "own_badges g \<longleftrightarrow> list_all (\<lambda>b. b_name b = g_field g) (g_badges g)"

definition wf_filters :: "filter_page \<Rightarrow> bool" where
  "wf_filters p \<longleftrightarrow> distinct (map g_field (groups p)) \<and>
     list_all own_badges (groups p) \<and>
     (case basic p of None \<Rightarrow> True
      | Some fs \<Rightarrow> list_all (\<lambda>f. f_tag f = ''SELECT'' \<or> f_tag f = ''INPUT'' \<or> f_tag f = ''TEXTAREA'') fs)"

definition values_agree :: "basic_field \<Rightarrow> (string \<times> string) list \<Rightarrow> bool" where
  "values_agree f vs \<longleftrightarrow>
     (if f_tag f = ''SELECT'' then set (map snd vs) = set (map snd (field_values f))
      else map snd vs = map snd (field_values f))"

definition agree :: "string \<Rightarrow> filter_page \<Rightarrow> bool" where
  "agree n p \<longleftrightarrow> (case basic_of n p of None \<Rightarrow> True | Some f \<Rightarrow> values_agree f (dynamic_values n p))"

text \<open>The values of a name in a list of groups.\<close>

definition group_values :: "string \<Rightarrow> badge_group list \<Rightarrow> (string \<times> string) list" where
  "group_values n gs = map (\<lambda>b. (b_text b, b_value b)) (filter (\<lambda>b. b_name b = n) (concat (map g_badges gs)))"

lemma dynamic_values_groups: "dynamic_values n p = group_values n (groups p)"
  by (simp add: dynamic_values_def group_values_def)

lemma group_values_simps [simp]:
  "group_values n [] = []"
  "group_values n (gs @ hs) = group_values n gs @ group_values n hs"
  "group_values n (g # gs) =
     map (\<lambda>b. (b_text b, b_value b)) (filter (\<lambda>b. b_name b = n) (g_badges g)) @ group_values n gs"
  by (simp_all add: group_values_def)

lemma own_badges_filter:
  "own_badges g \<Longrightarrow> filter (\<lambda>b. b_name b = n) (g_badges g) = (if g_field g = n then g_badges g else [])"
  by (auto simp: own_badges_def list_all_iff filter_empty_conv intro!: filter_True)

lemma wf_filters_own: "wf_filters p \<Longrightarrow> g \<in> set (groups p) \<Longrightarrow> own_badges g"
  by (auto simp: wf_filters_def list_all_iff)

lemma remove_first_set: "set (remove_first P xs) \<subseteq> set xs"
  by (induction xs) auto

lemma remove_first_fields:
  "distinct (map g_field gs) \<Longrightarrow>
     distinct (map g_field (remove_first (\<lambda>g. g_field g = n) gs)) \<and>
     n \<notin> g_field ` set (remove_first (\<lambda>g. g_field g = n) gs)"
proof (induction gs)
  case (Cons g gs)
  then show ?case using remove_first_set [of "\<lambda>g. g_field g = n" gs] by (auto simp: image_iff)
qed simp

lemma group_values_remove_first:
  "list_all own_badges gs \<Longrightarrow> m \<noteq> n \<Longrightarrow>
     group_values m (remove_first (\<lambda>g. g_field g = n) gs) = group_values m gs"
  by (induction gs) (auto simp: own_badges_filter)

lemma group_values_absent:
  "list_all own_badges gs \<Longrightarrow> n \<notin> g_field ` set gs \<Longrightarrow> group_values n gs = []"
  by (induction gs) (auto simp: own_badges_filter)

lemma group_values_find:
  "list_all own_badges gs \<Longrightarrow> distinct (map g_field gs) \<Longrightarrow>
     group_values n gs = (case List.find (\<lambda>g. g_field g = n) gs of
       None \<Rightarrow> [] | Some g \<Rightarrow> map (\<lambda>b. (b_text b, b_value b)) (g_badges g))"
  by (induction gs) (auto simp: own_badges_filter group_values_absent)

lemma new_badge_simps [simp]:
  "b_name (new_badge n tv) = n" "b_value (new_badge n tv) = snd tv" "b_text (new_badge n tv) = fst tv"
  by (simp_all add: new_badge_def)

lemma fold_new_badges: "fold (\<lambda>tv bs. new_badge n tv # bs) vs bs = rev (map (new_badge n) vs) @ bs"
  by (induction vs arbitrary: bs) auto

lemma find_Some: "List.find P xs = Some x \<Longrightarrow> P x \<and> x \<in> set xs"
  by (induction xs) (auto split: if_splits)

definition managed_values :: "filter_action \<Rightarrow> (string \<times> string) list \<Rightarrow> (string \<times> string) list \<Rightarrow> (string \<times> string) list" where
  "managed_values action vs old =
     rev vs @ (case action of
       Add_Values \<Rightarrow> filter (\<lambda>tv. \<not> list_ex (\<lambda>w. snd tv = snd w) vs) old
     | Set_Values \<Rightarrow> [])"

lemma manage_dynamic_filter_effect:
  assumes wf: "wf_filters p"
  shows "wf_filters (manage_dynamic_filter a n t vs p) \<and>
    basic (manage_dynamic_filter a n t vs p) = basic p \<and>
    dynamic_values n (manage_dynamic_filter a n t vs p) = managed_values a vs (dynamic_values n p) \<and>
    (m \<noteq> n \<longrightarrow> dynamic_values m (manage_dynamic_filter a n t vs p) = dynamic_values m p)"
proof -
  let ?rest = "remove_first (\<lambda>g. g_field g = n) (groups p)"
  define g where "g = (case List.find (\<lambda>g. g_field g = n) (groups p) of Some g \<Rightarrow> g | None \<Rightarrow> new_group n t)"
  define h where "h = edit_group a n vs g"
  have own: "list_all own_badges (groups p)" using wf_filters_own [OF wf] by (simp add: list_all_iff)
  have dist: "distinct (map g_field (groups p))" using wf by (simp add: wf_filters_def)
  note rf = remove_first_fields [OF dist, of n]
  have g: "g_field g = n \<and> own_badges g"
  proof (cases "List.find (\<lambda>g. g_field g = n) (groups p)")
    case None
    then show ?thesis by (simp add: g_def new_group_def own_badges_def)
  next
    case (Some k)
    have "g_field k = n \<and> k \<in> set (groups p)" using find_Some [OF Some] .
    then show ?thesis using own Some by (simp add: g_def list_all_iff)
  qed
  have h: "g_field h = n" "own_badges h" "g_space h = g_space g"
    using g by (auto simp: h_def edit_group_def fold_new_badges own_badges_def list_all_iff
        kept_badges_def split: filter_action.splits)
  have rest: "list_all own_badges ?rest" using own remove_first_set by (fastforce simp: list_all_iff)
  have old: "dynamic_values n p = map (\<lambda>b. (b_text b, b_value b)) (g_badges g)"
    using group_values_find [OF own dist, of n] by (simp add: dynamic_values_groups g_def new_group_def split: option.splits)
  have new: "map (\<lambda>b. (b_text b, b_value b)) (g_badges h) = managed_values a vs (dynamic_values n p)"
    by (cases a) (simp_all add: h_def edit_group_def fold_new_badges managed_values_def kept_badges_def old
        rev_map comp_def filter_map)
  have q: "groups (manage_dynamic_filter a n t vs p) = (if g_badges h \<noteq> [] \<or> g_space h then h # ?rest else ?rest)"
    "basic (manage_dynamic_filter a n t vs p) = basic p"
    by (simp_all add: manage_dynamic_filter_def Let_def h_def g_def)
  have "wf_filters (manage_dynamic_filter a n t vs p)"
    using wf q h rest rf by (auto simp: wf_filters_def)
  moreover have "dynamic_values n (manage_dynamic_filter a n t vs p) = map (\<lambda>b. (b_text b, b_value b)) (g_badges h)"
    using q h rf group_values_absent [OF rest, of n] by (simp add: dynamic_values_groups own_badges_filter)
  moreover have "m \<noteq> n \<longrightarrow> dynamic_values m (manage_dynamic_filter a n t vs p) = dynamic_values m p"
    using q h group_values_remove_first [OF own, of m n] by (simp add: dynamic_values_groups own_badges_filter)
  ultimately show ?thesis using q new by simp
qed

lemma upd_first_find:
  "(\<And>x. k (f x) = k x) \<Longrightarrow>
     List.find (\<lambda>x. k x = m) (upd_first (\<lambda>x. k x = n) f xs) =
       (if m = n then map_option f (List.find (\<lambda>x. k x = n) xs) else List.find (\<lambda>x. k x = m) xs)"
  by (induction xs) auto

lemma basic_of_upd:
  "(\<And>g. f_name (f g) = f_name g) \<Longrightarrow>
     basic_of m (upd_basic n f p) = (if m = n then map_option f (basic_of n p) else basic_of m p)"
  by (auto simp: basic_of_def upd_basic_def upd_first_find split: option.splits)

lemma upd_first_all: "list_all P xs \<Longrightarrow> (\<And>x. P x \<Longrightarrow> P (f x)) \<Longrightarrow> list_all P (upd_first Q f xs)"
  by (induction xs) auto

lemma upd_basic_simps [simp]:
  "groups (upd_basic n f p) = groups p" "dynamic_values m (upd_basic n f p) = dynamic_values m p"
  by (simp_all add: upd_basic_def dynamic_values_def)

lemma wf_upd_basic: "wf_filters p \<Longrightarrow> (\<And>g. f_tag (f g) = f_tag g) \<Longrightarrow> wf_filters (upd_basic n f p)"
  by (auto simp: wf_filters_def upd_basic_def upd_first_all split: option.splits)

lemma basic_of_tag:
  "wf_filters p \<Longrightarrow> basic_of n p = Some f \<Longrightarrow> f_tag f = ''SELECT'' \<or> f_tag f = ''INPUT'' \<or> f_tag f = ''TEXTAREA''"
  by (auto simp: wf_filters_def basic_of_def list_all_iff dest!: find_Some split: option.splits)

definition set_box :: "(string \<times> string) list \<Rightarrow> basic_field \<Rightarrow> basic_field" where
  "set_box vs f = f\<lparr>f_box := set_select2_value (Some vs) (f_box f)\<rparr>"

definition set_text :: "(string \<times> string) list \<Rightarrow> basic_field \<Rightarrow> basic_field" where
  "set_text vs f = f\<lparr>f_value := (case vs of [] \<Rightarrow> [] | tv # _ \<Rightarrow> snd tv)\<rparr>"

lemma set_field_simps [simp]:
  "f_name (set_box vs f) = f_name f" "f_tag (set_box vs f) = f_tag f"
  "f_name (set_text vs f) = f_name f" "f_tag (set_text vs f) = f_tag f"
  "f_value (set_text vs f) = (case vs of [] \<Rightarrow> [] | tv # _ \<Rightarrow> snd tv)"
  by (simp_all add: set_box_def set_text_def)

text \<open>What an operation on the filter \<open>n\<close> leaves alone.\<close>

definition only_filter :: "string \<Rightarrow> filter_page \<Rightarrow> filter_page \<Rightarrow> bool" where
  "only_filter n p q \<longleftrightarrow> (\<forall>m. m \<noteq> n \<longrightarrow> dynamic_values m q = dynamic_values m p \<and> basic_of m q = basic_of m p)"

lemma only_filter_trans: "only_filter n p q \<Longrightarrow> only_filter n q r \<Longrightarrow> only_filter n p r"
  by (simp add: only_filter_def)

lemma only_filter_agree: "only_filter n p q \<Longrightarrow> m \<noteq> n \<Longrightarrow> agree m p \<Longrightarrow> agree m q"
  by (auto simp: only_filter_def agree_def split: option.splits)

lemma only_filter_manage: "wf_filters p \<Longrightarrow> only_filter n p (manage_dynamic_filter a n t vs p)"
  using manage_dynamic_filter_effect by (simp add: only_filter_def basic_of_def)

lemma only_filter_upd: "(\<And>g. f_name (f g) = f_name g) \<Longrightarrow> only_filter n p (upd_basic n f p)"
  by (simp add: only_filter_def basic_of_upd)

lemma field_values_single: "f_tag f \<noteq> ''SELECT'' \<Longrightarrow> length (field_values f) \<le> 1"
  by (simp add: field_values_def)

lemma sync_default_effect:
  assumes "wf_filters p" and "basic_of n p = Some f"
  shows "\<exists>q. sync_default_to_dynamic n p = Done q \<and> wf_filters q \<and> agree n q \<and> only_filter n p q"
proof -
  let ?q = "manage_dynamic_filter Set_Values n
    (case f_label f of None \<Rightarrow> ''undefined'' | Some t \<Rightarrow> js_trim t) (field_values f) p"
  have e: "wf_filters ?q" "basic ?q = basic p" "dynamic_values n ?q = rev (field_values f)"
    using manage_dynamic_filter_effect [OF assms(1), of Set_Values n _ "field_values f"]
    by (simp_all add: managed_values_def)
  have "rev (field_values f) = field_values f" if "f_tag f \<noteq> ''SELECT''"
    using field_values_single [OF that] by (cases "field_values f") auto
  then have "agree n ?q"
    using assms(2) e by (simp add: agree_def values_agree_def basic_of_def)
  then show ?thesis
    using assms e only_filter_manage by (simp add: sync_default_to_dynamic_def)
qed

lemma sync_dynamic_effect:
  assumes wf: "wf_filters p"
    and small: "\<And>f. basic_of n p = Some f \<Longrightarrow> f_tag f \<noteq> ''SELECT'' \<Longrightarrow>
      length (dynamic_values n p) \<le> 1 \<and> [] \<notin> snd ` set (dynamic_values n p)"
  shows "\<exists>q. sync_dynamic_to_default (Some n) p = Done q \<and> wf_filters q \<and> agree n q \<and> only_filter n p q"
proof (cases "basic_of n p")
  case None
  then show ?thesis using wf by (simp add: sync_dynamic_to_default_def agree_def only_filter_def)
next
  case (Some f)
  show ?thesis
  proof (cases "f_tag f = ''SELECT''")
    case True
    let ?p1 = "upd_basic n (set_box (dynamic_values n p)) p"
    have w: "wf_filters ?p1" using wf by (rule wf_upd_basic) simp
    have b: "basic_of n ?p1 = Some (set_box (dynamic_values n p) f)" using Some by (simp add: basic_of_upd)
    have "only_filter n p ?p1" by (rule only_filter_upd) simp
    moreover have "sync_dynamic_to_default (Some n) p = sync_default_to_dynamic n ?p1"
      using Some True by (simp add: sync_dynamic_to_default_def Let_def set_box_def [abs_def])
    ultimately show ?thesis using sync_default_effect [OF w b] only_filter_trans by fastforce
  next
    case False
    let ?q = "upd_basic n (set_text (dynamic_values n p)) p"
    have tag: "f_tag f = ''INPUT'' \<or> f_tag f = ''TEXTAREA''" using basic_of_tag [OF wf Some] False by blast
    have s: "sync_dynamic_to_default (Some n) p = Done ?q"
      using Some False tag by (auto simp: sync_dynamic_to_default_def Let_def set_text_def [abs_def])
    have l: "length (dynamic_values n p) \<le> 1 \<and> [] \<notin> snd ` set (dynamic_values n p)"
      using small [OF Some False] .
    have "agree n ?q"
      using Some False l
      by (cases "dynamic_values n p") (auto simp: agree_def basic_of_upd values_agree_def field_values_def)
    moreover have "wf_filters ?q" using wf by (rule wf_upd_basic) simp
    moreover have "only_filter n p ?q" by (rule only_filter_upd) simp
    ultimately show ?thesis using s by blast
  qed
qed

lemma remove_badge_effect:
  assumes wf: "wf_filters p" and i: "i < length (groups p)"
    and j: "\<And>k. j = Some k \<Longrightarrow> k < length (g_badges (groups p ! i))"
  shows "wf_filters (remove_badge i j p) \<and> basic (remove_badge i j p) = basic p \<and>
    length (dynamic_values n (remove_badge i j p)) \<le> length (dynamic_values n p) \<and>
    set (dynamic_values n (remove_badge i j p)) \<subseteq> set (dynamic_values n p) \<and>
    (n \<noteq> g_field (groups p ! i) \<or> g_badges (groups p ! i) = [] \<longrightarrow>
       dynamic_values n (remove_badge i j p) = dynamic_values n p)"
proof -
  define g where "g = groups p ! i"
  obtain xs ys where gs: "groups p = xs @ g # ys" and l: "length xs = i"
    using i id_take_nth_drop [of i "groups p"] by (metis g_def length_take min.absorb4)
  have own: "list_all own_badges xs" "own_badges g" "list_all own_badges ys"
    and dist: "distinct (map g_field (xs @ g # ys))"
    using wf gs by (simp_all add: wf_filters_def)
  have nth: "(xs @ g # ys) ! i = g" "groups p ! i = g" using l by (auto simp: g_def)
  show ?thesis
  proof (cases "j = None \<or> length (g_badges g) = 1")
    case True
    then have r: "remove_badge i j p = p\<lparr>groups := xs @ ys\<rparr>"
      using gs l by (auto simp: remove_badge_def drop_nth_def nth split: option.split)
    show ?thesis
      using wf own dist gs
      by (auto simp: r dynamic_values_groups own_badges_filter wf_filters_def nth)
  next
    case False
    then obtain k where k: "j = Some k" "k < length (g_badges g)" using j by (auto simp: g_def)
    define h where "h = g\<lparr>g_badges := drop_nth k (g_badges g)\<rparr>"
    have r: "remove_badge i j p = p\<lparr>groups := xs @ h # ys\<rparr>"
      using gs l k False by (auto simp: remove_badge_def h_def nth list_update_append)
    have h: "g_field h = g_field g" "own_badges h"
      using own(2) by (auto simp: h_def own_badges_def drop_nth_def list_all_iff dest: in_set_takeD in_set_dropD)
    have b: "length (g_badges h) \<le> length (g_badges g)" "set (g_badges h) \<subseteq> set (g_badges g)"
      using k by (auto simp: h_def drop_nth_def dest: in_set_takeD in_set_dropD)
    have "g_badges g \<noteq> []" using k by auto
    then show ?thesis
      using wf own dist gs h b
      by (auto simp: r dynamic_values_groups own_badges_filter wf_filters_def nth)
  qed
qed

section \<open>What the user does\<close>

datatype filter_event =
  Click_Add "string option" "control option" "control option" "control option"
| Click_Remove nat "nat option"
| Edit_Basic basic_field

definition filter_step :: "filter_event \<Rightarrow> filter_page \<Rightarrow> filter_page" where
  "filter_step e p =
     final_state
       (case e of
          Click_Add pre f t v \<Rightarrow> on_click_add pre f t v p
        | Click_Remove i j \<Rightarrow> on_click_remove i j p
        | Edit_Basic f \<Rightarrow>
            on_basic_change (f_name f)
              (upd_basic (f_name f) (\<lambda>g. g\<lparr>f_value := f_value f, f_box := f_box f\<rparr>) p))"

text \<open>
  A click hits a button that is there; a field that is a text field in the basic form has a
  text field for its value in the advanced form; a field that is edited is on the page.
\<close>

definition possible :: "filter_event \<Rightarrow> filter_page \<Rightarrow> bool" where
  "possible e p =
     (case e of
        Click_Add pre f t v \<Rightarrow>
          (case (t, v) of
             (Some (Sel tb), Some (Sel vb)) \<Rightarrow>
               (case basic_of (add_name pre tb) p of
                  None \<Rightarrow> True | Some g \<Rightarrow> f_tag g = ''SELECT'')
           | _ \<Rightarrow> True)
      | Click_Remove i j \<Rightarrow>
          i < length (groups p) \<and>
          (case j of None \<Rightarrow> True | Some k \<Rightarrow> k < length (g_badges (groups p ! i)))
      | Edit_Basic f \<Rightarrow> basic_of (f_name f) p \<noteq> None)"

definition filters_ok :: "filter_page \<Rightarrow> bool" where
  "filters_ok p \<longleftrightarrow> wf_filters p \<and> (\<forall>n. agree n p)"

lemma agree_text_small:
  "agree n p \<Longrightarrow> basic_of n p = Some f \<Longrightarrow> f_tag f \<noteq> ''SELECT'' \<Longrightarrow>
     length (dynamic_values n p) \<le> 1 \<and> [] \<notin> snd ` set (dynamic_values n p)"
proof -
  assume "agree n p" "basic_of n p = Some f" "f_tag f \<noteq> ''SELECT''"
  then have e: "map snd (dynamic_values n p) = (if f_value f \<noteq> [] then [f_value f] else [])"
    by (simp add: agree_def values_agree_def field_values_def)
  have "length (dynamic_values n p) \<le> 1" using arg_cong [OF e, of length] by simp
  moreover have "snd ` set (dynamic_values n p) = set (if f_value f \<noteq> [] then [f_value f] else [])"
    using arg_cong [OF e, of set] by simp
  ultimately show ?thesis by auto
qed

lemma filters_ok_frame:
  assumes "filters_ok p" and "only_filter n p q" and "wf_filters q" and "agree n q"
  shows "filters_ok q"
proof -
  have "agree m q" for m
    using assms only_filter_agree [OF assms(2), of m] by (cases "m = n") (auto simp: filters_ok_def)
  with assms(3) show ?thesis by (simp add: filters_ok_def)
qed

lemma click_remove_keeps:
  assumes ok: "filters_ok p" and "possible (Click_Remove i j) p"
  shows "filters_ok (filter_step (Click_Remove i j) p)"
proof -
  let ?p1 = "remove_badge i j p"
  have wf: "wf_filters p" and i: "i < length (groups p)"
    and j: "\<And>k. j = Some k \<Longrightarrow> k < length (g_badges (groups p ! i))"
    using assms by (auto simp: filters_ok_def possible_def)
  note e = remove_badge_effect [OF wf i j]
  define nm where "nm = map_option b_name (first_of (badge_target i j p))"
  define n where "n = (case nm of None \<Rightarrow> ''undefined'' | Some m \<Rightarrow> m)"
  have own: "own_badges (groups p ! i)" using wf_filters_own [OF wf] i by simp
  have name: "nm = None \<and> g_badges (groups p ! i) = [] \<or> n = g_field (groups p ! i)"
  proof (cases "badge_target i j p")
    case Nil
    have "g_badges (groups p ! i) = []"
    proof (cases j)
      case None
      with Nil show ?thesis by (simp add: badge_target_def Let_def)
    next
      case (Some k)
      with Nil j [OF Some] show ?thesis by (simp add: badge_target_def Let_def)
    qed
    with Nil show ?thesis by (simp add: nm_def first_of_def)
  next
    case (Cons b bs)
    then have "b \<in> set (badge_target i j p)" by simp
    then have "b \<in> set (g_badges (groups p ! i))"
      by (auto simp: badge_target_def Let_def split: option.splits if_splits)
    then show ?thesis using own Cons by (simp add: nm_def n_def first_of_def own_badges_def list_all_iff)
  qed
  have o1: "only_filter n p ?p1" using name e by (auto simp: only_filter_def basic_of_def)
  have small: "length (dynamic_values n ?p1) \<le> 1 \<and> [] \<notin> snd ` set (dynamic_values n ?p1)"
    if f: "basic_of n ?p1 = Some f" "f_tag f \<noteq> ''SELECT''" for f
  proof -
    have "basic_of n p = Some f" using f(1) e by (simp add: basic_of_def)
    then have "length (dynamic_values n p) \<le> 1 \<and> [] \<notin> snd ` set (dynamic_values n p)"
      using agree_text_small f(2) ok by (auto simp: filters_ok_def)
    then show ?thesis using e [where n = n] by (meson image_mono le_trans subsetD)
  qed
  have "\<exists>q. sync_dynamic_to_default (Some n) ?p1 = Done q \<and> wf_filters q \<and> agree n q \<and> only_filter n ?p1 q"
    using e by (intro sync_dynamic_effect small) auto
  then obtain q where q: "sync_dynamic_to_default (Some n) ?p1 = Done q" "wf_filters q" "agree n q"
    "only_filter n ?p1 q" by blast
  have "sync_dynamic_to_default nm ?p1 = sync_dynamic_to_default (Some n) ?p1"
    by (simp add: sync_dynamic_to_default_def n_def)
  then have "filter_step (Click_Remove i j) p = q"
    using q(1) by (simp add: filter_step_def on_click_remove_def nm_def)
  then show ?thesis using filters_ok_frame [OF ok only_filter_trans [OF o1 q(4)]] q by simp
qed

lemma edit_basic_keeps:
  assumes ok: "filters_ok p" and "possible (Edit_Basic f) p"
  shows "filters_ok (filter_step (Edit_Basic f) p)"
proof -
  let ?u = "\<lambda>g. g\<lparr>f_value := f_value f, f_box := f_box f\<rparr>"
  let ?p1 = "upd_basic (f_name f) ?u p"
  obtain g where g: "basic_of (f_name f) p = Some g" using assms(2) by (auto simp: possible_def)
  have w: "wf_filters ?p1" using ok by (intro wf_upd_basic) (simp_all add: filters_ok_def)
  have b: "basic_of (f_name f) ?p1 = Some (?u g)" using g by (simp add: basic_of_upd)
  obtain q where q: "sync_default_to_dynamic (f_name f) ?p1 = Done q" "wf_filters q" "agree (f_name f) q"
    "only_filter (f_name f) ?p1 q"
    using sync_default_effect [OF w b] by blast
  have o1: "only_filter (f_name f) p ?p1" by (rule only_filter_upd) simp
  have "filter_step (Edit_Basic f) p = q" using q(1) by (simp add: filter_step_def on_basic_change_def)
  then show ?thesis using filters_ok_frame [OF ok only_filter_trans [OF o1 q(4)]] q by simp
qed

lemma click_add_keeps:
  assumes ok: "filters_ok p" and pos: "possible (Click_Add pre f t v) p"
  shows "filters_ok (filter_step (Click_Add pre f t v) p)"
proof (cases "on_click_add pre f t v p = Done p \<or> on_click_add pre f t v p = Throw TypeError p")
  case True
  then show ?thesis using ok by (auto simp: filter_step_def)
next
  case False
  then obtain fb tb c where c: "f = Some (Sel fb)" "t = Some (Sel tb)" "v = Some c" "\<not> is_missing v" "basic p \<noteq> None"
    by (auto simp: on_click_add_def Let_def split: if_splits option.splits control.splits)
  define n where "n = add_name pre tb"
  define act where "act = (if basic_of n p \<noteq> None \<and> (case c of Txt _ \<Rightarrow> True | Sel _ \<Rightarrow> False)
    then Set_Values else Add_Values)"
  define p1 where "p1 = manage_dynamic_filter act n (filter_text (hd (chosen fb)) (hd (chosen tb))) (control_values c) p"
  have wf: "wf_filters p" using ok by (simp add: filters_ok_def)
  have s: "on_click_add pre f t v p = sync_dynamic_to_default (Some n) p1"
    using False c by (auto simp: on_click_add_def n_def act_def p1_def Let_def split: if_splits)
  note e = manage_dynamic_filter_effect [OF wf, of act n _ "control_values c"]
  have w1: "wf_filters p1" "only_filter n p p1" "basic p1 = basic p"
    "dynamic_values n p1 = managed_values act (control_values c) (dynamic_values n p)"
    using e only_filter_manage [OF wf] by (simp_all add: p1_def)
  have small: "length (dynamic_values n p1) \<le> 1 \<and> [] \<notin> snd ` set (dynamic_values n p1)"
    if g: "basic_of n p1 = Some g" "f_tag g \<noteq> ''SELECT''" for g
  proof -
    have b: "basic_of n p = Some g" using g(1) w1(3) by (simp add: basic_of_def)
    then obtain x where x: "c = Txt x"
      using pos g(2) c by (cases c) (auto simp: possible_def n_def)
    then have "x \<noteq> []" using c by (simp add: is_missing_def)
    then show ?thesis using b x w1(4) by (simp add: act_def managed_values_def control_values_def)
  qed
  have "\<exists>q. sync_dynamic_to_default (Some n) p1 = Done q \<and> wf_filters q \<and> agree n q \<and> only_filter n p1 q"
    using w1(1) by (intro sync_dynamic_effect small) auto
  then obtain q where q: "sync_dynamic_to_default (Some n) p1 = Done q" "wf_filters q" "agree n q"
    "only_filter n p1 q" by blast
  have "filter_step (Click_Add pre f t v) p = q" using s q(1) by (simp add: filter_step_def)
  then show ?thesis using filters_ok_frame [OF ok only_filter_trans [OF w1(2) q(4)]] q by simp
qed

fun possible_run :: "filter_event list \<Rightarrow> filter_page \<Rightarrow> bool" where
  "possible_run [] p = True"
| "possible_run (e # es) p = (possible e p \<and> possible_run es (filter_step e p))"


text \<open>A page with a select and a text field, no filter chosen; two filters added, one removed.\<close>

definition demo_box :: "bool \<Rightarrow> (string \<times> bool) list \<Rightarrow> select_box" where
  "demo_box m vs = \<lparr>opts = map (\<lambda>(v, b). \<lparr>o_text = v, o_value = v, o_selected = b\<rparr>) vs, multi = m, fired = []\<rparr>"

definition demo_filters :: filter_page where
  "demo_filters = \<lparr>groups = [], basic = Some
     [\<lparr>f_name = ''site'', f_tag = ''SELECT'', f_label = Some ''Site'', f_value = [],
       f_box = demo_box True [(''a'', False), (''b'', False)]\<rparr>,
      \<lparr>f_name = ''q'', f_tag = ''INPUT'', f_label = Some ''Search'', f_value = [], f_box = demo_box False []\<rparr>]\<rparr>"

definition demo_events :: "filter_event list" where
  "demo_events =
     [Click_Add None (Some (Sel (demo_box False [(''Site'', True)]))) (Some (Sel (demo_box False [(''site'', True)])))
        (Some (Sel (demo_box True [(''a'', True), (''c'', True)]))),
      Click_Add None (Some (Sel (demo_box False [(''Search'', True)]))) (Some (Sel (demo_box False [(''q'', True)])))
        (Some (Txt ''x'')),
      Click_Remove 1 (Some 0)]"

lemma demo_filters_ok: "filters_ok demo_filters"
proof -
  have "agree n demo_filters" for n
    by (auto simp: agree_def demo_filters_def basic_of_def dynamic_values_def values_agree_def
        field_values_def demo_box_def chosen_def split: if_splits)
  then show ?thesis by (simp add: filters_ok_def wf_filters_def demo_filters_def)
qed


text \<open>
  Two ways the forms differ from what is meant. A group that came from the server keeps its
  white space when its last badge goes with the basic field, and stays as an empty group; a
  single select that is set back to its blank option becomes a badge with an empty value.
\<close>

lemma server_group_stays_empty:
  assumes "basic_of n p = Some f" and "field_values f = []"
    and "groups p = [\<lparr>g_field = n, g_text = t, g_space = True, g_badges = bs\<rparr>]"
  shows "groups (final_state (on_basic_change n p)) = [\<lparr>g_field = n, g_text = t, g_space = True, g_badges = []\<rparr>]"
  using assms
  by (simp add: on_basic_change_def sync_default_to_dynamic_def manage_dynamic_filter_def Let_def
      edit_group_def kept_badges_def)

lemma blank_choice_becomes_badge:
  assumes "basic_of n p = Some f" and "f_tag f = ''SELECT''" and "wf_filters p"
    and "chosen (f_box f) = [\<lparr>o_text = ''---------'', o_value = [], o_selected = True\<rparr>]"
  shows "dynamic_values n (final_state (on_basic_change n p)) = [(''---------'', [])]"
  using assms manage_dynamic_filter_effect [OF assms(3), of Set_Values n _ "field_values f"]
  by (simp add: on_basic_change_def sync_default_to_dynamic_def field_values_def managed_values_def)

lemma add_throws_without_basic_form:
  assumes "basic p = None" and "chosen fb \<noteq> []" and "chosen tb \<noteq> []" and "x \<noteq> []"
  shows "on_click_add pre (Some (Sel fb)) (Some (Sel tb)) (Some (Txt x)) p = Throw TypeError p"
  using assms by (simp add: on_click_add_def is_missing_def Let_def)

section \<open>The value control of a lookup type\<close>

text \<open>
  A new lookup type fetches a new value control. The listener takes the control that is on the
  page when the type changes, and replaces that one when the answer comes; an element that is
  not on the page any more is not replaced. \<open>control_id\<close> tells the elements apart,
  \<open>control_for\<close> is the lookup type an element was made for.
\<close>

record lookup_page =
  lookup_type :: string
  control_id :: nat
  control_for :: string
  fresh :: nat
  in_flight :: "(nat \<times> string) list"

definition on_type_change :: "string \<Rightarrow> lookup_page \<Rightarrow> lookup_page" where
  "on_type_change t p =
     (let q = p\<lparr>lookup_type := t\<rparr>
      in if t = [] then q else q\<lparr>in_flight := in_flight q @ [(control_id q, t)]\<rparr>)"

definition on_answer :: "nat \<Rightarrow> lookup_page \<Rightarrow> lookup_page" where
  "on_answer k p =
     (if k < length (in_flight p) then
        (case in_flight p ! k of
           (el, t) \<Rightarrow>
             let q = p\<lparr>in_flight := drop_nth k (in_flight p)\<rparr>
             in if el = control_id p
                then q\<lparr>control_id := fresh p, control_for := t, fresh := Suc (fresh p)\<rparr>
                else q)
      else p)"

text \<open>What replaces the control: the first element of the answer, or a text field after an error.\<close>

definition fallback_control :: "string \<Rightarrow> elem" where
  "fallback_control n =
     set_attr ''type'' ''text'' (set_attr ''name'' n (set_attr ''id'' (''id_for_'' @ n)
       (class_toggle ''form-control'' (Some True) (class_toggle ''lookup_value-input'' (Some True) (new_elem ''INPUT'')))))"

definition value_control :: "string \<Rightarrow> elem option \<Rightarrow> elem" where
  "value_control n answer = (case answer of Some e \<Rightarrow> e | None \<Rightarrow> fallback_control n)"

lemma answer_matches_type:
  assumes "in_flight p = []" and "t \<noteq> []"
  shows "control_for (on_answer 0 (on_type_change t p)) = lookup_type (on_answer 0 (on_type_change t p))"
  using assms by (simp add: on_type_change_def on_answer_def Let_def drop_nth_def)

text \<open>With two types chosen before the first answer, the control is that of the first answer.\<close>

lemma later_answer_is_dropped:
  assumes "in_flight p = []" and "control_id p < fresh p" and "s \<noteq> []" and "t \<noteq> []"
  shows "let q = on_answer 0 (on_answer 0 (on_type_change t (on_type_change s p)))
    in in_flight q = [] \<and> lookup_type q = t \<and> control_for q = s"
  using assms by (simp add: on_type_change_def on_answer_def Let_def drop_nth_def)

text \<open>
  The other listener of the "Add filter" form: a new lookup field empties the type and the
  value, a new type the value. Emptying the type is a change of the type again.
\<close>

record add_form =
  type_box :: select_box
  value_ctl :: control

definition clear_control :: "control \<Rightarrow> control" where
  "clear_control c = (case c of Sel sb \<Rightarrow> Sel (trigger ''change'' (jq_clear sb)) | Txt v \<Rightarrow> Txt [])"

definition on_type_reset :: "add_form \<Rightarrow> add_form" where
  "on_type_reset a = a\<lparr>value_ctl := clear_control (value_ctl a)\<rparr>"

definition on_lookup_change :: "string option \<Rightarrow> add_form \<Rightarrow> add_form" where
  "on_lookup_change name a =
     (case name of
        None \<Rightarrow> a
      | Some n \<Rightarrow>
          let is_field = ends_with ''lookup_field'' n; is_type = ends_with ''lookup_type'' n;
              a1 = (if is_field then on_type_reset (a\<lparr>type_box := trigger ''change'' (jq_clear (type_box a))\<rparr>) else a)
          in if is_field \<or> is_type then on_type_reset a1 else a1)"

lemma lookup_change_empties_value:
  assumes "ends_with ''lookup_field'' n \<or> ends_with ''lookup_type'' n"
  shows "(case value_ctl (on_lookup_change (Some n) a) of
      Txt v \<Rightarrow> v = [] | Sel sb \<Rightarrow> set (chosen_values sb) \<subseteq> {[]})"
  using assms jq_val_chosen_blank
  by (auto simp: on_lookup_change_def on_type_reset_def clear_control_def Let_def jq_clear_def split: control.split)

end
