(* ===== verification/Custom_Field_Form.thy ===== *)
theory Custom_Field_Form
  imports Dom Json
begin

text \<open>
  The form of a custom field, \<open>project-static/js/customfield_form.js\<close>: the panels that are
  shown for the selected type, and the rows of the choices, which are kept out of the
  submitted form while they are hidden by setting the counters of the formset to 0
  (\<open>setChoicesFieldSubmissionState\<close>).
\<close>

section \<open>Types\<close>

text \<open>\<open>parseTypeSet\<close>: the text of a script element, read as JSON.\<close>

definition parse_type_set :: "string option \<Rightarrow> js_error + string list" where
  "parse_type_set text =
     (case text of
        None \<Rightarrow> Inr []
      | Some t \<Rightarrow>
          if t = [] then Inr []
          else
            (case json_parse t of
               None \<Rightarrow> Inl SyntaxError
             | Some (JArr vs) \<Rightarrow> Inr (concat (map (\<lambda>v. case v of JStr s \<Rightarrow> [s] | _ \<Rightarrow> []) vs))
             | Some (JStr s) \<Rightarrow> Inr (map (\<lambda>c. [c]) s)
             | Some JNull \<Rightarrow> Inr []
             | Some _ \<Rightarrow> Inl TypeError))"

definition choice_types :: "string list" where
  "choice_types = [''select'', ''multi-select'']"

section \<open>Panels\<close>

definition set_section_visibility :: "uid option \<Rightarrow> bool \<Rightarrow> 'a page_scheme \<Rightarrow> 'a page_scheme" where
  "set_section_visibility u visible p =
     (case u of None \<Rightarrow> p | Some c \<Rightarrow> upd c (class_toggle ''d-none'' (Some (\<not> visible))) p)"

definition is_control :: "elem \<Rightarrow> bool" where
  "is_control e \<longleftrightarrow> tag e = ''INPUT'' \<or> tag e = ''SELECT'' \<or> tag e = ''TEXTAREA''"

definition set_disabled :: "bool \<Rightarrow> elem \<Rightarrow> elem" where
  "set_disabled b e = e\<lparr>disabled := b\<rparr>"

definition set_field_visibility :: "string \<Rightarrow> bool \<Rightarrow> 'a page_scheme \<Rightarrow> 'a page_scheme" where
  "set_field_visibility i visible p =
     (case by_id p i of
        None \<Rightarrow> p
      | Some c \<Rightarrow>
          let q = set_section_visibility (Some c) visible p
          in upd_all (qsa q c is_control) (set_disabled (\<not> visible)) q)"

definition set_field_help_text :: "string \<Rightarrow> string \<Rightarrow> 'a page_scheme \<Rightarrow> 'a page_scheme" where
  "set_field_help_text i text p =
     (case by_id p i of
        None \<Rightarrow> p
      | Some c \<Rightarrow>
          (case qs p c (\<lambda>e. has_class ''form-text'' e \<or> has_class ''help-block'' e) of
             None \<Rightarrow> p
           | Some h \<Rightarrow> upd h (\<lambda>e. e\<lparr>inner := text\<rparr>) p))"

definition update_min_max_help_text :: "string \<Rightarrow> 'a page_scheme \<Rightarrow> 'a page_scheme" where
  "update_min_max_help_text t p =
     (if t = ''integer''
      then set_field_help_text ''nb-validation-maximum-field'' ''Maximum numeric value.''
             (set_field_help_text ''nb-validation-minimum-field'' ''Minimum numeric value.'' p)
      else set_field_help_text ''nb-validation-maximum-field'' ''Maximum length of the value.''
             (set_field_help_text ''nb-validation-minimum-field'' ''Minimum length of the value.'' p))"

section \<open>The rows of the choices\<close>

text \<open>A control whose name ends in one of the names of the management form.\<close>

definition name_ends :: "string \<Rightarrow> elem \<Rightarrow> bool" where
  "name_ends s e \<longleftrightarrow> tag e = ''INPUT'' \<and>
     (case get_attr ''name'' e of None \<Rightarrow> False | Some n \<Rightarrow> ends_with s n)"

definition management_names :: "string list" where
  "management_names = [''-TOTAL_FORMS'', ''-INITIAL_FORMS'', ''-MIN_NUM_FORMS'', ''-MAX_NUM_FORMS'']"

definition management_fields :: "'a page_scheme \<Rightarrow> uid \<Rightarrow> uid list" where
  "management_fields p panel = List.map_filter (\<lambda>s. qs p panel (name_ends s)) management_names"

definition save_original :: "elem \<Rightarrow> elem" where
  "save_original e =
     (case get_attr ''data-original-value'' e of
        None \<Rightarrow> set_attr ''data-original-value'' (val_of e) e
      | Some v \<Rightarrow> e)"

definition restore_original :: "elem \<Rightarrow> elem" where
  "restore_original e =
     (case get_attr ''data-original-value'' e of
        None \<Rightarrow> e
      | Some v \<Rightarrow> e\<lparr>val_of := v\<rparr>)"

definition set_zero :: "elem \<Rightarrow> elem" where
  "set_zero e = e\<lparr>val_of := ''0''\<rparr>"

definition zero_counter :: "string \<Rightarrow> uid \<Rightarrow> 'a page_scheme \<Rightarrow> 'a page_scheme" where
  "zero_counter s panel p = (case qs p panel (name_ends s) of None \<Rightarrow> p | Some u \<Rightarrow> upd u set_zero p)"

text \<open>\<open>input[name], select[name], textarea[name]\<close> that are not part of the management form.\<close>

definition row_control :: "elem \<Rightarrow> bool" where
  "row_control e \<longleftrightarrow> is_control e \<and>
     (case get_attr ''name'' e of
        None \<Rightarrow> False
      | Some n \<Rightarrow> \<not> list_ex (\<lambda>s. ends_with s n) management_names)"

definition choices_card :: "'a page_scheme \<Rightarrow> uid option" where
  "choices_card p = by_id p ''nb-custom-field-choices-card''"

definition set_choices_submission :: "bool \<Rightarrow> 'a page_scheme \<Rightarrow> 'a page_scheme" where
  "set_choices_submission enabled p =
     (case choices_card p of
        None \<Rightarrow> p
      | Some panel \<Rightarrow>
          let ms = management_fields p panel;
              q = (if enabled then upd_all ms restore_original p
                   else zero_counter ''-INITIAL_FORMS'' panel
                          (zero_counter ''-TOTAL_FORMS'' panel (upd_all ms save_original p)))
          in upd_all (qsa q panel row_control) (set_disabled (\<not> enabled)) q)"

definition update_custom_field_type_panels ::
    "string list \<Rightarrow> string list \<Rightarrow> 'a page_scheme \<Rightarrow> 'a page_scheme" where
  "update_custom_field_type_panels min_max regex p =
     (case by_id p ''id_type'' of
        None \<Rightarrow> p
      | Some u \<Rightarrow>
          let t = val_of (heap p u);
              p1 = update_min_max_help_text t p;
              show_min_max = List.member min_max t; show_regex = List.member regex t;
              show_choices = List.member choice_types t;
              p2 = set_section_visibility (by_id p1 ''nb-validation-rules-card'') (show_min_max \<or> show_regex) p1;
              p3 = set_field_visibility ''nb-validation-minimum-field'' show_min_max p2;
              p4 = set_field_visibility ''nb-validation-maximum-field'' show_min_max p3;
              p5 = set_field_visibility ''nb-validation-regex-field'' show_regex p4;
              p6 = set_section_visibility (choices_card p5) show_choices p5
          in set_choices_submission show_choices p6)"

section \<open>Hiding and showing the choices\<close>

lemma set_disabled_simps [simp]:
  "val_of (set_disabled b e) = val_of e" "get_attr a (set_disabled b e) = get_attr a e"
  "set_disabled b (set_disabled b' e) = set_disabled b e" "disabled (set_disabled b e) = b" "tag (set_disabled b e) = tag e" "has_class c (set_disabled b e) = has_class c e"
  by (simp_all add: set_disabled_def)

lemma original_simps [simp]:
  "val_of (save_original e) = val_of e"
  "get_attr ''data-original-value'' (save_original e) =
     (case get_attr ''data-original-value'' e of None \<Rightarrow> Some (val_of e) | Some v \<Rightarrow> Some v)"
  "get_attr a (restore_original e) = get_attr a e"
  "val_of (restore_original e) =
     (case get_attr ''data-original-value'' e of None \<Rightarrow> val_of e | Some v \<Rightarrow> v)"
  "get_attr a (set_zero e) = get_attr a e"
  by (auto simp: save_original_def restore_original_def set_zero_def split: option.split)

lemma untouched_upd_all:
  "(\<And>u p. untouched as cs p (upd u f (p :: 'a page_scheme))) \<Longrightarrow> untouched as cs p (upd_all us f (p :: 'a page_scheme))"
proof (induction us arbitrary: p)
  case (Cons u us)
  show ?case using untouched_trans [OF Cons.prems Cons.IH [OF Cons.prems]] by simp
qed simp

lemma untouched_ops [simp]:
  "untouched [''data-original-value''] [] p (upd u save_original p)"
  "untouched [''data-original-value''] [] p (upd u restore_original p)"
  "untouched [''data-original-value''] [] p (upd u set_zero p)"
  "untouched [''data-original-value''] [] p (upd u (set_disabled b) p)"
  by (auto simp: untouched_def heap_upd save_original_def restore_original_def set_zero_def set_disabled_def
      split: option.split)

lemma untouched_zero [simp]: "untouched [''data-original-value''] [] p (zero_counter s c p)"
  by (simp add: zero_counter_def split: option.split)

lemma untouched_qsa:
  assumes "untouched as [] p q"
    and "\<And>e e'. tag e = tag e' \<Longrightarrow> (\<And>a. a \<notin> set as \<Longrightarrow> get_attr a e = get_attr a e') \<Longrightarrow> sel e = sel e'"
  shows "qsa q c sel = qsa p c sel"
proof (rule qsa_cong)
  show "doc q = doc p" using assms(1) by (rule untouched_doc)
  show "sel (heap q u) = sel (heap p u)" for u
    by (rule assms(2)) (simp_all add: untouched_tag [OF assms(1)] untouched_attr [OF assms(1)])
qed

lemma name_ends_cong:
  "tag e = tag e' \<Longrightarrow> (\<And>a. a \<notin> set [''data-original-value''] \<Longrightarrow> get_attr a e = get_attr a e') \<Longrightarrow>
     name_ends s e = name_ends s e'"
  by (simp add: name_ends_def)

lemma row_control_cong:
  "tag e = tag e' \<Longrightarrow> (\<And>a. a \<notin> set [''data-original-value''] \<Longrightarrow> get_attr a e = get_attr a e') \<Longrightarrow>
     row_control e = row_control e'"
  by (simp add: row_control_def is_control_def)

text \<open>What hiding or showing the rows leaves: the same card, fields and controls.\<close>

lemma choices_frame:
  assumes "untouched [''data-original-value''] [] p q"
  shows "choices_card q = choices_card p" and "management_fields q c = management_fields p c"
    and "qs q c (name_ends s) = qs p c (name_ends s)" and "qsa q c row_control = qsa p c row_control"
proof -
  show "choices_card q = choices_card p" unfolding choices_card_def using assms by (rule untouched_by_id) simp
  show s: "qs q c (name_ends s) = qs p c (name_ends s)" for s
    unfolding qs_def using untouched_qsa [OF assms name_ends_cong] by simp
  then show "management_fields q c = management_fields p c" by (simp add: management_fields_def)
  show "qsa q c row_control = qsa p c row_control" using untouched_qsa [OF assms row_control_cong] .
qed

lemma untouched_all_ops [simp]:
  "untouched [''data-original-value''] [] p (upd_all us save_original p)"
  "untouched [''data-original-value''] [] p (upd_all us restore_original p)"
  "untouched [''data-original-value''] [] p (upd_all us (set_disabled b) p)"
  by (rule untouched_upd_all, simp)+

definition counters_set :: "bool \<Rightarrow> uid \<Rightarrow> 'a page_scheme \<Rightarrow> 'a page_scheme" where
  "counters_set enabled c p =
     (if enabled then upd_all (management_fields p c) restore_original p
      else zero_counter ''-INITIAL_FORMS'' c
             (zero_counter ''-TOTAL_FORMS'' c (upd_all (management_fields p c) save_original p)))"

lemma set_choices_submission_eq:
  "choices_card p = Some c \<Longrightarrow>
     set_choices_submission b p =
       upd_all (qsa (counters_set b c p) c row_control) (set_disabled (\<not> b)) (counters_set b c p)"
  by (simp add: set_choices_submission_def counters_set_def Let_def)

lemma untouched_counters: "untouched [''data-original-value''] [] p (counters_set b c p)"
proof -
  have "untouched [''data-original-value''] [] p
      (zero_counter ''-INITIAL_FORMS'' c
        (zero_counter ''-TOTAL_FORMS'' c (upd_all (management_fields p c) save_original p)))"
    by (rule untouched_trans, rule untouched_trans, rule untouched_all_ops, rule untouched_zero, rule untouched_zero)
  then show ?thesis by (simp add: counters_set_def)
qed

lemma untouched_submission: "untouched [''data-original-value''] [] p (set_choices_submission b p)"
proof (cases "choices_card p")
  case (Some c)
  have "untouched [''data-original-value''] [] p
      (upd_all (qsa (counters_set b c p) c row_control) (set_disabled (\<not> b)) (counters_set b c p))"
    by (rule untouched_trans [OF untouched_counters untouched_all_ops(3)])
  then show ?thesis by (simp add: set_choices_submission_eq [OF Some])
qed (simp add: set_choices_submission_def)

text \<open>The values and saved values of a field of the management form.\<close>

definition saved_value :: "elem \<Rightarrow> string" where
  "saved_value e = (case get_attr ''data-original-value'' e of None \<Rightarrow> val_of e | Some v \<Rightarrow> v)"

lemmas heap_upd_all_val = heap_upd_all_pres [where g = val_of]
lemmas heap_upd_all_attr = heap_upd_all_pres [where g = "get_attr a" for a]

lemma save_all_saved:
  "u \<in> set us \<Longrightarrow>
     get_attr ''data-original-value'' (heap (upd_all us save_original p) u) = Some (saved_value (heap p u))"
proof (induction us arbitrary: p)
  case (Cons w us)
  show ?case
  proof (cases "u \<in> set us")
    case True
    then show ?thesis using Cons.IH [OF True, of "upd w save_original p"]
      by (simp add: saved_value_def heap_upd split: option.splits)
  next
    case False
    then have "u = w" using Cons.prems by simp
    moreover have "heap (upd_all us save_original (upd w save_original p)) u = heap (upd w save_original p) u"
      using False by (rule heap_upd_all_notin)
    ultimately show ?thesis by (simp add: saved_value_def split: option.split)
  qed
qed simp

lemma zero_counter_attr [simp]: "get_attr a (heap (zero_counter s c p) u) = get_attr a (heap p u)"
  by (simp add: zero_counter_def heap_upd split: option.split)

lemma disabled_saved:
  assumes "choices_card p = Some c" and "u \<in> set (management_fields p c)"
  shows "get_attr ''data-original-value'' (heap (set_choices_submission False p) u) = Some (saved_value (heap p u))"
  using assms save_all_saved [OF assms(2)]
  by (simp add: set_choices_submission_eq counters_set_def heap_upd_all_attr)

lemma restore_all:
  "u \<in> set us \<Longrightarrow> get_attr ''data-original-value'' (heap p u) = Some v \<Longrightarrow>
     val_of (heap (upd_all us restore_original p) u) = v"
proof (induction us arbitrary: p)
  case (Cons w us)
  have k: "get_attr ''data-original-value'' (heap (upd w restore_original p) u) = Some v"
    using Cons.prems by (auto simp: heap_upd)
  show ?case
  proof (cases "u \<in> set us")
    case True
    then show ?thesis using Cons.IH [OF True k] by simp
  next
    case False
    then have "heap (upd_all us restore_original (upd w restore_original p)) u = heap (upd w restore_original p) u"
      by (rule heap_upd_all_notin)
    then show ?thesis using False Cons.prems by auto
  qed
qed simp

text \<open>
  C29: Hiding the choices and showing them again gives each counter of the formset back the value
  that was saved when the choices were hidden for the first time, enables every control of
  the rows, and hiding itself makes the form submit no rows: the counters are 0 and every
  control of the rows is disabled.
\<close>

theorem choices_come_back:
  assumes "choices_card p = Some c" and "u \<in> set (management_fields p c)" and "w \<in> set (qsa p c row_control)"
  shows "val_of (heap (set_choices_submission True (set_choices_submission False p)) u) = saved_value (heap p u) \<and>
    \<not> disabled (heap (set_choices_submission True (set_choices_submission False p)) w) \<and>
    disabled (heap (set_choices_submission False p) w) \<and>
    (qs p c (name_ends ''-TOTAL_FORMS'') = Some u \<longrightarrow> val_of (heap (set_choices_submission False p) u) = ''0'')"
proof -
  let ?q = "set_choices_submission False p"
  note f = choices_frame [OF untouched_submission [where p = p and b = False]]
  have q: "choices_card ?q = Some c" "u \<in> set (management_fields ?q c)" using assms f by simp_all
  have v: "val_of (heap (set_choices_submission True ?q) u) = saved_value (heap p u)"
    using restore_all [OF q(2) disabled_saved [OF assms(1,2)]]
    by (simp add: set_choices_submission_eq [OF q(1)] counters_set_def heap_upd_all_val)
  have d: "disabled (heap (set_choices_submission b r) w) = (\<not> b)"
    if "choices_card r = Some c" "w \<in> set (qsa r c row_control)" for b and r :: "'a page_scheme"
  proof -
    have "w \<in> set (qsa (counters_set b c r) c row_control)"
      using that(2) choices_frame(4) [OF untouched_counters [where p = r and b = b and c = c]] by simp
    then show ?thesis using that(1) by (simp add: set_choices_submission_eq heap_upd_all)
  qed
  have "val_of (heap ?q u) = ''0''" if t: "qs p c (name_ends ''-TOTAL_FORMS'') = Some u"
  proof -
    let ?r = "upd_all (management_fields p c) save_original p"
    have "qs ?r c (name_ends ''-TOTAL_FORMS'') = Some u"
      using t choices_frame(3) [OF untouched_all_ops(1)] by metis
    then show ?thesis
      using assms(1)
      by (simp add: set_choices_submission_eq counters_set_def heap_upd_all_val zero_counter_def heap_upd set_zero_def
          split: option.split)
  qed
  with v d assms q(1) f(4) [of c] show ?thesis by auto
qed

text \<open>A card with its four counters and the control of one row.\<close>

definition counter_elem :: "string \<Rightarrow> string \<Rightarrow> elem" where
  "counter_elem n v = (set_attr ''name'' n (new_elem ''INPUT''))\<lparr>val_of := v\<rparr>"

definition demo_heap :: "uid \<Rightarrow> elem" where
  "demo_heap u =
     (if u = 2 then set_attr ''id'' ''nb-custom-field-choices-card'' (new_elem ''DIV'')
      else if u = 3 then counter_elem ''c-TOTAL_FORMS'' ''5''
      else if u = 4 then counter_elem ''c-INITIAL_FORMS'' ''2''
      else if u = 5 then counter_elem ''c-0-value'' ''red''
      else new_elem ''FORM'')"

definition demo_choices :: page where
  "demo_choices = \<lparr>doc = Node 0 [Node 2 [Node 3 [], Node 4 [], Node 5 []]], heap = demo_heap, focus = None\<rparr>"

lemma choices_come_back_witness:
  "val_of (heap (set_choices_submission True (set_choices_submission False demo_choices)) 3) = ''5'' \<and>
   val_of (heap (set_choices_submission False demo_choices) 3) = ''0'' \<and>
   disabled (heap (set_choices_submission False demo_choices) 5)"
proof -
  have "choices_card demo_choices = Some 2" "3 \<in> set (management_fields demo_choices 2)"
    "5 \<in> set (qsa demo_choices 2 row_control)" "qs demo_choices 2 (name_ends ''-TOTAL_FORMS'') = Some 3"
    "saved_value (heap demo_choices 3) = ''5''"
    by code_simp+
  with choices_come_back [of demo_choices 2 3 5] show ?thesis by simp
qed

text \<open>
  A row that is added after the choices were hidden once is counted, and lost when they are
  hidden and shown again: the saved value is never renewed.
\<close>

definition add_row :: "page \<Rightarrow> page" where
  "add_row p = upd 3 (\<lambda>e. e\<lparr>val_of := ''6''\<rparr>) p"

lemma added_row_is_forgotten:
  "let p = add_row (set_choices_submission True (set_choices_submission False demo_choices));
       q = set_choices_submission True (set_choices_submission False p)
   in val_of (heap p 3) = ''6'' \<and> val_of (heap q 3) = ''5''"
  by code_simp

end
