(* ===== verification/Relationship_Form.thy ===== *)
theory Relationship_Form
  imports Dom
begin

text \<open>
  The form of a relationship, \<open>project-static/js/relationship_form.js\<close>: while a symmetric
  type is selected, the fields of the destination are disabled and repeat those of the source
  (\<open>mirrorSourceToDestination\<close>); just before the form is submitted they are enabled, since
  a disabled field is not submitted.
\<close>

section \<open>The form\<close>

text \<open>
  The pairs of fields that are both on the page, the type field, the container of the help text
  (present or not) and the help text; \<open>options\<close> gives the values a select accepts, \<open>changed\<close>
  logs the \<open>change\<close> events that are dispatched.
\<close>

record rel_page = page +
  type_fld :: "uid option"
  field_pairs :: "(uid \<times> uid) list"
  help_container :: bool
  help_text :: bool
  options :: "uid \<Rightarrow> string list"
  changed :: "uid list"

definition symmetric_types :: "string list" where
  "symmetric_types = [''symmetric-one-to-one'', ''symmetric-many-to-many'']"

definition pair_ids :: "(string \<times> string) list" where
  "pair_ids =
     [(''id_source_type'', ''id_destination_type''), (''id_source_label'', ''id_destination_label''),
      (''id_source_hidden'', ''id_destination_hidden''), (''id_source_filter'', ''id_destination_filter'')]"

definition mirrored_pairs :: "'a page_scheme \<Rightarrow> (uid \<times> uid) list" where
  "mirrored_pairs p =
     List.map_filter (\<lambda>(s, d). case (by_id p s, by_id p d) of (Some u, Some v) \<Rightarrow> Some (u, v) | _ \<Rightarrow> None) pair_ids"

definition is_symmetric :: "rel_page \<Rightarrow> bool" where
  "is_symmetric p \<longleftrightarrow>
     (case type_fld p of None \<Rightarrow> False | Some t \<Rightarrow> List.member symmetric_types (val_of (heap p t)))"

definition update_help_text :: "bool \<Rightarrow> rel_page \<Rightarrow> rel_page" where
  "update_help_text symm p =
     (if type_fld p = None \<or> \<not> help_container p then p else p\<lparr>help_text := symm\<rparr>)"

text \<open>Writing the value of an element; a select takes only a value that it has an option for.\<close>

definition write_value :: "uid \<Rightarrow> string \<Rightarrow> rel_page \<Rightarrow> rel_page" where
  "write_value u v p =
     (let w = (if tag (heap p u) = ''SELECT'' \<and> \<not> List.member (options p u) v then [] else v)
      in upd u (\<lambda>e. e\<lparr>val_of := w\<rparr>) p)"

definition dispatch_change :: "uid \<Rightarrow> rel_page \<Rightarrow> rel_page" where
  "dispatch_change u p = p\<lparr>changed := changed p @ [u]\<rparr>"

definition is_checkbox :: "elem \<Rightarrow> bool" where
  "is_checkbox e \<longleftrightarrow> tag e = ''INPUT'' \<and> get_attr ''type'' e = Some ''checkbox''"

definition copy_field_value :: "uid \<times> uid \<Rightarrow> rel_page \<Rightarrow> rel_page" where
  "copy_field_value sd p =
     (case sd of (s, d) \<Rightarrow>
        if tag (heap p s) = ''SELECT'' then dispatch_change d (write_value d (val_of (heap p s)) p)
        else if is_checkbox (heap p s)
        then dispatch_change d (upd d (\<lambda>e. e\<lparr>checked := checked (heap p s)\<rparr>) p)
        else write_value d (val_of (heap p s)) p)"

definition mirror :: "rel_page \<Rightarrow> rel_page" where
  "mirror p = fold copy_field_value (field_pairs p) p"

definition set_field_disabled :: "bool \<Rightarrow> uid \<Rightarrow> rel_page \<Rightarrow> rel_page" where
  "set_field_disabled b d p =
     (let q = upd d (\<lambda>e. e\<lparr>disabled := b\<rparr>) p
      in if tag (heap q d) = ''SELECT'' then dispatch_change d q else q)"

definition set_disabled_state :: "bool \<Rightarrow> rel_page \<Rightarrow> rel_page" where
  "set_disabled_state b p = fold (set_field_disabled b) (map snd (field_pairs p)) p"

definition handle_symmetric_change :: "rel_page \<Rightarrow> rel_page" where
  "handle_symmetric_change p =
     (let symm = is_symmetric p; q = (if symm then mirror p else p)
      in update_help_text symm (set_disabled_state symm q))"

definition on_source_event :: "rel_page \<Rightarrow> rel_page" where
  "on_source_event p = (if is_symmetric p then mirror p else p)"

definition on_submit :: "rel_page \<Rightarrow> rel_page" where
  "on_submit p = set_disabled_state False (if is_symmetric p then mirror p else p)"

text \<open>
  The listeners of a source field: a select and a checkbox have the one for \<open>change\<close>, the
  others one for \<open>input\<close> as well.
\<close>

definition source_events :: "elem \<Rightarrow> string list" where
  "source_events e = (if tag e \<noteq> ''SELECT'' \<and> \<not> is_checkbox e then [''change'', ''input''] else [''change''])"

definition init_relationship_form :: "rel_page \<Rightarrow> rel_page" where
  "init_relationship_form p = handle_symmetric_change p"

section \<open>What the user does\<close>

text \<open>
  A disabled field cannot be edited, and a select has one of its options as value; typing
  fires \<open>input\<close>, choosing fires \<open>change\<close>.
\<close>

datatype rel_event =
  Choose_Type string
| Edit_Source_Field uid string bool
| Edit_Destination uid string bool

definition put_field :: "string \<Rightarrow> bool \<Rightarrow> elem \<Rightarrow> elem" where
  "put_field v b e = e\<lparr>val_of := v, checked := b\<rparr>"

definition rel_step :: "rel_event \<Rightarrow> rel_page \<Rightarrow> rel_page" where
  "rel_step e p =
     (case e of
        Choose_Type t \<Rightarrow>
          (case type_fld p of
             None \<Rightarrow> p
           | Some u \<Rightarrow> handle_symmetric_change (upd u (\<lambda>x. x\<lparr>val_of := t\<rparr>) p))
      | Edit_Source_Field u v b \<Rightarrow>
          if u \<in> fst ` set (field_pairs p) \<and> (tag (heap p u) = ''SELECT'' \<longrightarrow> List.member (options p u) v)
          then on_source_event (upd u (put_field v b) p) else p
      | Edit_Destination u v b \<Rightarrow>
          if u \<in> snd ` set (field_pairs p) \<and> \<not> disabled (heap p u) then upd u (put_field v b) p else p)"

definition mirrored :: "rel_page \<Rightarrow> uid \<times> uid \<Rightarrow> bool" where
  "mirrored p sd \<longleftrightarrow>
     (if is_checkbox (heap p (fst sd)) then checked (heap p (snd sd)) = checked (heap p (fst sd))
      else val_of (heap p (snd sd)) = val_of (heap p (fst sd)))"

text \<open>
  The fields are different elements, the two fields of a pair are of one kind, and a select of
  the destination has every option of its source.
\<close>

definition rel_form :: "rel_page \<Rightarrow> bool" where
  "rel_form p \<longleftrightarrow>
     distinct (map fst (field_pairs p) @ map snd (field_pairs p) @ (case type_fld p of None \<Rightarrow> [] | Some t \<Rightarrow> [t])) \<and>
     list_all (\<lambda>(s, d). tag (heap p s) = tag (heap p d) \<and>
       (tag (heap p s) = ''SELECT'' \<longrightarrow>
          List.member (options p s) (val_of (heap p s)) \<and> set (options p s) \<subseteq> set (options p d))) (field_pairs p)"

definition destination_follows :: "rel_page \<Rightarrow> bool" where
  "destination_follows p \<longleftrightarrow>
     list_all (\<lambda>sd. disabled (heap p (snd sd)) = is_symmetric p \<and> (is_symmetric p \<longrightarrow> mirrored p sd)) (field_pairs p)"

text \<open>Only values, check marks and disabled flags of destination fields change.\<close>

definition same_form :: "rel_page \<Rightarrow> rel_page \<Rightarrow> bool" where
  "same_form p q \<longleftrightarrow> type_fld q = type_fld p \<and> field_pairs q = field_pairs p \<and> options q = options p \<and>
     (\<forall>u. tag (heap q u) = tag (heap p u) \<and> attrs (heap q u) = attrs (heap p u)) \<and>
     (\<forall>u. u \<notin> snd ` set (field_pairs p) \<longrightarrow> heap q u = heap p u)"

lemma same_form_refl [simp]: "same_form p p"
  by (simp add: same_form_def)

lemma same_form_trans: "same_form p q \<Longrightarrow> same_form q r \<Longrightarrow> same_form p r"
  by (simp add: same_form_def)

lemma rel_upd [simp]:
  "type_fld (upd u f p) = type_fld p" "field_pairs (upd u f p) = field_pairs p" "options (upd u f p) = options p"
  "changed (upd u f p) = changed p" "help_container (upd u f p) = help_container p" "help_text (upd u f p) = help_text p"
  by (simp_all add: upd_def)

lemma dispatch_simps [simp]:
  "heap (dispatch_change u p) = heap p" "type_fld (dispatch_change u p) = type_fld p"
  "field_pairs (dispatch_change u p) = field_pairs p" "options (dispatch_change u p) = options p"
  by (simp_all add: dispatch_change_def)

text \<open>Writing one destination.\<close>

lemma copy_effect:
  assumes "s \<noteq> d" and "tag (heap p s) = tag (heap p d)"
    and "tag (heap p s) = ''SELECT'' \<longrightarrow> List.member (options p d) (val_of (heap p s))"
  shows "mirrored (copy_field_value (s, d) p) (s, d) \<and>
    (\<forall>u. u \<noteq> d \<longrightarrow> heap (copy_field_value (s, d) p) u = heap p u) \<and>
    (\<forall>u. disabled (heap (copy_field_value (s, d) p) u) = disabled (heap p u) \<and>
         tag (heap (copy_field_value (s, d) p) u) = tag (heap p u) \<and>
         attrs (heap (copy_field_value (s, d) p) u) = attrs (heap p u)) \<and>
    type_fld (copy_field_value (s, d) p) = type_fld p \<and> field_pairs (copy_field_value (s, d) p) = field_pairs p \<and>
    options (copy_field_value (s, d) p) = options p"
  using assms
  by (auto simp: copy_field_value_def write_value_def Let_def mirrored_def is_checkbox_def heap_upd get_attr_def)

lemma mirrored_cong:
  "heap q (fst sd) = heap p (fst sd) \<Longrightarrow> heap q (snd sd) = heap p (snd sd) \<Longrightarrow> mirrored q sd = mirrored p sd"
  by (simp add: mirrored_def)

lemma copy_all:
  assumes "distinct (map fst ps @ map snd ps)"
    and "list_all (\<lambda>(s, d). tag (heap p s) = tag (heap p d) \<and>
      (tag (heap p s) = ''SELECT'' \<longrightarrow> List.member (options p d) (val_of (heap p s)))) ps"
  shows "(\<forall>u. u \<notin> snd ` set ps \<longrightarrow> heap (fold copy_field_value ps p) u = heap p u) \<and>
    (\<forall>u. disabled (heap (fold copy_field_value ps p) u) = disabled (heap p u) \<and>
         tag (heap (fold copy_field_value ps p) u) = tag (heap p u) \<and>
         attrs (heap (fold copy_field_value ps p) u) = attrs (heap p u)) \<and>
    type_fld (fold copy_field_value ps p) = type_fld p \<and>
    field_pairs (fold copy_field_value ps p) = field_pairs p \<and>
    options (fold copy_field_value ps p) = options p \<and>
    list_all (mirrored (fold copy_field_value ps p)) ps"
  using assms
proof (induction ps arbitrary: p)
  case (Cons sd ps)
  obtain s d where sd: "sd = (s, d)" by (cases sd)
  let ?q = "copy_field_value (s, d) p"
  have dist: "s \<noteq> d" "d \<notin> fst ` set ps" "d \<notin> snd ` set ps" "s \<notin> snd ` set ps" "distinct (map fst ps @ map snd ps)"
    using Cons.prems(1) by (auto simp: sd)
  have c: "mirrored ?q (s, d)" "\<And>u. u \<noteq> d \<Longrightarrow> heap ?q u = heap p u"
    "\<And>u. disabled (heap ?q u) = disabled (heap p u) \<and> tag (heap ?q u) = tag (heap p u) \<and> attrs (heap ?q u) = attrs (heap p u)"
    "type_fld ?q = type_fld p" "field_pairs ?q = field_pairs p" "options ?q = options p"
    using copy_effect [of s d p] Cons.prems(2) dist(1) by (auto simp: sd)
  have "val_of (heap ?q s') = val_of (heap p s')" if "(s', d') \<in> set ps" for s' d'
    using c(2) [of s'] dist(2) that by (metis fst_conv imageI)
  then have "list_all (\<lambda>(s, d). tag (heap ?q s) = tag (heap ?q d) \<and>
      (tag (heap ?q s) = ''SELECT'' \<longrightarrow> List.member (options ?q d) (val_of (heap ?q s)))) ps"
    using Cons.prems(2) c(3,6) by (auto simp: list_all_iff sd)
  note IH = Cons.IH [OF dist(5) this]
  have "mirrored (fold copy_field_value ps ?q) (s, d)"
    using c(1) IH dist by (subst mirrored_cong [where p = ?q]) auto
  then show ?case using IH c by (auto simp: sd)
qed simp

lemma rel_form_pairs: "rel_form p \<Longrightarrow> distinct (map fst (field_pairs p) @ map snd (field_pairs p))"
  by (auto simp: rel_form_def)

lemma mirror_effect:
  assumes "rel_form p"
  shows "same_form p (mirror p) \<and> list_all (mirrored (mirror p)) (field_pairs p) \<and>
    (\<forall>u. disabled (heap (mirror p) u) = disabled (heap p u))"
proof -
  have "list_all (\<lambda>(s, d). tag (heap p s) = tag (heap p d) \<and>
      (tag (heap p s) = ''SELECT'' \<longrightarrow> List.member (options p d) (val_of (heap p s)))) (field_pairs p)"
    using assms by (auto simp: rel_form_def list_all_iff)
  from copy_all [OF rel_form_pairs [OF assms] this] show ?thesis
    by (simp add: mirror_def same_form_def)
qed

lemma disabled_all:
  "type_fld (fold (set_field_disabled b) ds p) = type_fld p \<and>
   field_pairs (fold (set_field_disabled b) ds p) = field_pairs p \<and>
   options (fold (set_field_disabled b) ds p) = options p \<and>
   (\<forall>u. heap (fold (set_field_disabled b) ds p) u =
     (if u \<in> set ds then (heap p u)\<lparr>disabled := b\<rparr> else heap p u))"
proof (induction ds arbitrary: p)
  case (Cons d ds)
  show ?case using Cons [of "set_field_disabled b d p"]
    by (auto simp: set_field_disabled_def Let_def heap_upd)
qed simp

lemma set_disabled_state_heap:
  "heap (set_disabled_state b p) u =
     (if u \<in> snd ` set (field_pairs p) then (heap p u)\<lparr>disabled := b\<rparr> else heap p u)"
  using disabled_all [of b "map snd (field_pairs p)" p] by (simp add: set_disabled_state_def)

lemma same_form_disabled: "same_form p (set_disabled_state b p)"
  using disabled_all [of b "map snd (field_pairs p)" p]
  by (auto simp: same_form_def set_disabled_state_def)

lemma mirrored_disabled [simp]: "mirrored (set_disabled_state b p) sd = mirrored p sd"
  by (auto simp: mirrored_def set_disabled_state_heap is_checkbox_def get_attr_def)

lemma rel_form_distinct:
  assumes "rel_form p" and "(s, d) \<in> set (field_pairs p)"
  shows "s \<notin> snd ` set (field_pairs p)" and "type_fld p \<noteq> Some s" and "type_fld p \<noteq> Some d"
  using assms by (force simp: rel_form_def split: option.splits)+

lemma same_form_symmetric: "rel_form p \<Longrightarrow> same_form p q \<Longrightarrow> is_symmetric q = is_symmetric p"
  using rel_form_distinct(3) [of p]
  by (force simp: same_form_def is_symmetric_def split: option.splits)

lemma same_form_rel_form:
  assumes "rel_form p" and "same_form p q"
  shows "rel_form q"
proof -
  have "heap q s = heap p s" if "(s, d) \<in> set (field_pairs p)" for s d
    using rel_form_distinct(1) [OF assms(1) that] assms(2) by (simp add: same_form_def)
  then show ?thesis using assms by (auto simp: rel_form_def same_form_def list_all_iff)
qed

lemma update_help_simps [simp]:
  "heap (update_help_text b p) = heap p" "type_fld (update_help_text b p) = type_fld p"
  "field_pairs (update_help_text b p) = field_pairs p" "options (update_help_text b p) = options p"
  by (simp_all add: update_help_text_def)

lemma symmetric_help [simp]: "is_symmetric (update_help_text b p) = is_symmetric p"
  by (simp add: is_symmetric_def split: option.split)

lemma follows_help [simp]: "destination_follows (update_help_text b p) = destination_follows p"
  by (simp add: destination_follows_def mirrored_def)

lemma same_form_help [simp]: "same_form p (update_help_text b q) = same_form p q"
  by (simp add: same_form_def)

lemma handle_effect:
  assumes "rel_form p"
  shows "rel_form (handle_symmetric_change p) \<and> destination_follows (handle_symmetric_change p) \<and>
    same_form p (handle_symmetric_change p)"
proof -
  let ?b = "is_symmetric p" and ?q = "if is_symmetric p then mirror p else p"
  let ?r = "set_disabled_state ?b ?q"
  have h: "handle_symmetric_change p = update_help_text ?b ?r" by (simp add: handle_symmetric_change_def Let_def)
  have pq: "same_form p ?q" using mirror_effect [OF assms] by simp
  have pr: "same_form p ?r" using same_form_trans [OF pq same_form_disabled] .
  have pairs: "field_pairs ?r = field_pairs p" "field_pairs ?q = field_pairs p"
    using pr pq by (simp_all add: same_form_def)
  have "is_symmetric ?r = ?b" using same_form_symmetric [OF assms pr] .
  then have "destination_follows ?r"
    using mirror_effect [OF assms] pairs
    by (auto simp: destination_follows_def list_all_iff set_disabled_state_heap)
  then have "destination_follows (handle_symmetric_change p)"
    by (simp add: h)
  moreover have "same_form p (handle_symmetric_change p)" using pr by (simp add: h)
  ultimately show ?thesis using same_form_rel_form [OF assms] by blast
qed

lemma source_event_effect:
  assumes "rel_form p" and "list_all (\<lambda>sd. disabled (heap p (snd sd)) = is_symmetric p) (field_pairs p)"
  shows "rel_form (on_source_event p) \<and> destination_follows (on_source_event p)"
proof (cases "is_symmetric p")
  case True
  have m: "same_form p (mirror p)" using mirror_effect [OF assms(1)] by blast
  have "is_symmetric (mirror p)" using same_form_symmetric [OF assms(1) m] True by simp
  then show ?thesis
    using True assms mirror_effect [OF assms(1)] same_form_rel_form [OF assms(1) m]
    by (auto simp: on_source_event_def destination_follows_def list_all_iff same_form_def)
next
  case False
  with assms show ?thesis by (auto simp: on_source_event_def destination_follows_def list_all_iff)
qed

lemma put_field_simps [simp]:
  "tag (put_field v b e) = tag e" "attrs (put_field v b e) = attrs e" "disabled (put_field v b e) = disabled e"
  "val_of (put_field v b e) = v" "checked (put_field v b e) = b"
  by (simp_all add: put_field_def)

lemma rel_form_upd:
  assumes f: "rel_form p" and t: "\<And>e. tag (f e) = tag e"
    and v: "\<And>d. (u, d) \<in> set (field_pairs p) \<Longrightarrow> tag (heap p u) = ''SELECT'' \<Longrightarrow>
      List.member (options p u) (val_of (f (heap p u)))"
  shows "rel_form (upd u f p)"
proof -
  have tags: "tag (heap (upd u f p) x) = tag (heap p x)" for x by (simp add: heap_upd t)
  have "tag (heap p s) = tag (heap p d) \<and>
      (tag (heap p s) = ''SELECT'' \<longrightarrow>
         List.member (options p s) (val_of (heap (upd u f p) s)) \<and> set (options p s) \<subseteq> set (options p d))"
    if "(s, d) \<in> set (field_pairs p)" for s d
  proof -
    have "tag (heap p s) = tag (heap p d) \<and>
      (tag (heap p s) = ''SELECT'' \<longrightarrow>
         List.member (options p s) (val_of (heap p s)) \<and> set (options p s) \<subseteq> set (options p d))"
      using f that by (auto simp: rel_form_def list_all_iff)
    then show ?thesis using v that by (cases "s = u") auto
  qed
  then show ?thesis using f by (auto simp: rel_form_def list_all_iff tags)
qed

lemma rel_step_keeps:
  assumes f: "rel_form p" and d: "destination_follows p"
  shows "rel_form (rel_step e p) \<and> destination_follows (rel_step e p)"
proof (cases e)
  case (Choose_Type t)
  show ?thesis
  proof (cases "type_fld p")
    case (Some u)
    have "rel_form (upd u (\<lambda>x. x\<lparr>val_of := t\<rparr>) p)"
      using rel_form_distinct(2) [OF f] Some by (intro rel_form_upd [OF f]) auto
    then show ?thesis using handle_effect Choose_Type Some by (simp add: rel_step_def)
  qed (use assms Choose_Type in \<open>simp add: rel_step_def\<close>)
next
  case (Edit_Source_Field u v b)
  show ?thesis
  proof (cases "u \<in> fst ` set (field_pairs p) \<and> (tag (heap p u) = ''SELECT'' \<longrightarrow> List.member (options p u) v)")
    case True
    let ?q = "upd u (put_field v b) p"
    obtain w where w: "(u, w) \<in> set (field_pairs p)" using True by auto
    have "rel_form ?q" using True by (intro rel_form_upd [OF f]) auto
    moreover have "is_symmetric ?q = is_symmetric p"
      using rel_form_distinct(2) [OF f w] by (auto simp: is_symmetric_def heap_upd split: option.splits)
    moreover have "list_all (\<lambda>sd. disabled (heap ?q (snd sd)) = is_symmetric p) (field_pairs ?q)"
      using d by (auto simp: destination_follows_def list_all_iff heap_upd)
    ultimately show ?thesis
      using source_event_effect [of ?q] True Edit_Source_Field by (simp add: rel_step_def)
  qed (use assms Edit_Source_Field in \<open>auto simp: rel_step_def\<close>)
next
  case (Edit_Destination u v b)
  show ?thesis
  proof (cases "u \<in> snd ` set (field_pairs p) \<and> \<not> disabled (heap p u)")
    case True
    let ?q = "upd u (put_field v b) p"
    have sy: "\<not> is_symmetric p" using True d by (auto simp: destination_follows_def list_all_iff)
    have form: "same_form p ?q" using True by (auto simp: same_form_def heap_upd)
    have "\<not> is_symmetric ?q" using sy same_form_symmetric [OF f form] by simp
    then have "destination_follows ?q"
      using d sy by (auto simp: destination_follows_def list_all_iff heap_upd)
    then show ?thesis using True same_form_rel_form [OF f form] Edit_Destination by (simp add: rel_step_def)
  qed (use assms Edit_Destination in \<open>auto simp: rel_step_def\<close>)
qed

interpretation relationship: machine rel_step "\<lambda>p. rel_form p \<and> destination_follows p"
  using rel_step_keeps by unfold_locales blast

lemma rel_run_keeps:
  "rel_form p \<Longrightarrow> destination_follows p \<Longrightarrow>
     rel_form (fold rel_step es p) \<and> destination_follows (fold rel_step es p)"
  using relationship.run_inv by blast

text \<open>
  C14: Whatever types are chosen and fields edited after the form was initialized, the
  destination fields are disabled exactly while a symmetric type is selected, and each then
  repeats its source; when the form is submitted they still repeat it and are all enabled, so
  that they are sent.
\<close>

theorem symmetric_relationship_is_mirrored:
  assumes "rel_form p"
  shows "destination_follows (fold rel_step es (init_relationship_form p)) \<and>
    (let q = fold rel_step es (init_relationship_form p); r = on_submit q
     in list_all (\<lambda>sd. \<not> disabled (heap r (snd sd)) \<and> (is_symmetric q \<longrightarrow> mirrored r sd)) (field_pairs r))"
proof -
  let ?q = "fold rel_step es (init_relationship_form p)"
  let ?m = "if is_symmetric ?q then mirror ?q else ?q"
  have q: "rel_form ?q" "destination_follows ?q"
    using rel_run_keeps handle_effect [OF assms] by (simp_all add: init_relationship_form_def)
  have "field_pairs ?m = field_pairs ?q" using mirror_effect [OF q(1)] by (simp add: same_form_def)
  moreover have "field_pairs (set_disabled_state False ?m) = field_pairs ?m"
    using same_form_disabled by (simp add: same_form_def)
  ultimately show ?thesis
    using q mirror_effect [OF q(1)]
    by (auto simp: on_submit_def Let_def list_all_iff set_disabled_state_heap)
qed

definition demo_rel :: rel_page where
  "demo_rel =
     \<lparr>doc = Node 0 [Node 2 [], Node 3 [], Node 4 []],
      heap = (\<lambda>u. (new_elem (if u = 4 then ''SELECT'' else ''INPUT''))\<lparr>val_of := ''one-to-one''\<rparr>),
      focus = None, type_fld = Some 4, field_pairs = [(2, 3)], help_container = True, help_text = False,
      options = (\<lambda>_. []), changed = []\<rparr>"

lemma symmetric_relationship_is_mirrored_witness:
  "let q = fold rel_step [Choose_Type ''symmetric-one-to-one'', Edit_Source_Field 2 ''peer'' False]
         (init_relationship_form demo_rel)
   in destination_follows q \<and> is_symmetric q \<and> val_of (heap q 3) = ''peer''"
proof -
  have "rel_form demo_rel" by code_simp
  from symmetric_relationship_is_mirrored [OF this,
      of "[Choose_Type ''symmetric-one-to-one'', Edit_Source_Field 2 ''peer'' False]"]
  have "destination_follows (fold rel_step [Choose_Type ''symmetric-one-to-one'', Edit_Source_Field 2 ''peer'' False]
      (init_relationship_form demo_rel))" by blast
  moreover have "is_symmetric (fold rel_step [Choose_Type ''symmetric-one-to-one'', Edit_Source_Field 2 ''peer'' False]
        (init_relationship_form demo_rel)) \<and>
      val_of (heap (fold rel_step [Choose_Type ''symmetric-one-to-one'', Edit_Source_Field 2 ''peer'' False]
        (init_relationship_form demo_rel)) 3) = ''peer''"
    by code_simp
  ultimately show ?thesis by (simp add: Let_def)
qed

end
