(* ===== verification/Formset.thy ===== *)
theory Formset
  imports Dom
begin

text \<open>
  The rows of a Django formset, \<open>project-static/jquery/jquery.formset.js\<close>: numbering of the
  controls, adding and deleting rows, the counter of the management form and the limits on
  the number of rows.
  New rows are cleared copies of the last one. Theory \<open>Formset_Links\<close> has where the delete
  links go, theory \<open>Formset_Button\<close> the add button, templates given as an option and callbacks.
\<close>

section \<open>Rows and their numbers\<close>

text \<open>
  A row has the elements that match \<open>childElementSelector\<close>, in document order; its delete link
  is there after initialization. The limits are fields of the management form.
\<close>

record form_row =
  controls :: "elem list"
  row_classes :: "string list"
  row_shown :: bool
  link_shown :: "bool option"

datatype limit = Absent | Blank | Limit int

record formset =
  prefix :: string
  extra_classes :: "string list"
  form_rows :: "form_row list"
  total :: int
  max_forms :: limit
  min_forms :: limit
  form_template :: "form_row option"
  add_shown :: bool

definition apply_extra_classes :: "string list \<Rightarrow> nat \<Rightarrow> form_row \<Rightarrow> form_row" where
  "apply_extra_classes extra n r =
     (if extra = [] then r
      else r\<lparr>row_classes := List.insert (extra ! (n mod length extra))
               (filter (\<lambda>c. \<not> List.member extra c) (row_classes r))\<rparr>)"

text \<open>
  The regular expression \<open>prefix-(\d+|__prefix__)-\<close> and the replacement of its first match. The
  part between the dashes has no dash itself, so it is what is before the next one.
\<close>

definition index_token :: "string \<Rightarrow> bool" where
  "index_token t \<longleftrightarrow> t \<noteq> [] \<and> list_all is_digit t \<or> t = ''__prefix__''"

definition match_index :: "string \<Rightarrow> string \<Rightarrow> string option" where
  "match_index p s =
     (if starts_with (p @ ''-'') s
      then (let r = drop (Suc (length p)) s; rest = dropWhile (\<lambda>c. c \<noteq> CHR ''-'') r
            in if index_token (takeWhile (\<lambda>c. c \<noteq> CHR ''-'') r) \<and> rest \<noteq> [] then Some (tl rest) else None)
      else None)"

fun reindex :: "string \<Rightarrow> string \<Rightarrow> string \<Rightarrow> string" where
  "reindex p n [] = []"
| "reindex p n (c # cs) =
     (case match_index p (c # cs) of
        Some rest \<Rightarrow> p @ ''-'' @ n @ ''-'' @ rest
      | None \<Rightarrow> c # reindex p n cs)"

definition update_attr :: "string \<Rightarrow> string \<Rightarrow> string \<Rightarrow> elem \<Rightarrow> elem" where
  "update_attr p n a e =
     (case get_attr a e of
        Some v \<Rightarrow> if v = [] then e else set_attr a (reindex p n v) e
      | None \<Rightarrow> e)"

definition update_element_index :: "string \<Rightarrow> string \<Rightarrow> elem \<Rightarrow> elem" where
  "update_element_index p n e = update_attr p n ''name'' (update_attr p n ''id'' (update_attr p n ''for'' e))"

definition index_row :: "string \<Rightarrow> string \<Rightarrow> form_row \<Rightarrow> form_row" where
  "index_row p n r = r\<lparr>controls := map (update_element_index p n) (controls r)\<rparr>"

definition has_child_elements :: "form_row \<Rightarrow> bool" where
  "has_child_elements r \<longleftrightarrow> controls r \<noteq> []"

text \<open>What may be shown: one more row, one row less.\<close>

definition show_add_button :: "formset \<Rightarrow> bool" where
  "show_add_button p = (case max_forms p of Limit m \<Rightarrow> m - total p > 0 | _ \<Rightarrow> True)"

definition show_delete_links :: "formset \<Rightarrow> bool" where
  "show_delete_links p = (case min_forms p of Limit m \<Rightarrow> total p - m > 0 | _ \<Rightarrow> True)"

definition set_links :: "bool \<Rightarrow> form_row \<Rightarrow> form_row" where
  "set_links b r = r\<lparr>link_shown := map_option (\<lambda>_. b) (link_shown r)\<rparr>"

section \<open>Deleting and adding\<close>

definition is_hidden_delete :: "elem \<Rightarrow> bool" where
  "is_hidden_delete e \<longleftrightarrow> tag e = ''INPUT'' \<and> get_attr ''type'' e = Some ''hidden'' \<and>
     (case get_attr ''id'' e of Some i \<Rightarrow> ends_with ''-DELETE'' i | None \<Rightarrow> False)"

definition is_inline :: "form_row \<Rightarrow> bool" where
  "is_inline r \<longleftrightarrow> list_ex is_hidden_delete (controls r)"

definition mark_deleted :: "form_row \<Rightarrow> form_row" where
  "mark_deleted r =
     r\<lparr>controls := map (\<lambda>e. if is_hidden_delete e then e\<lparr>val_of := ''on''\<rparr> else e) (controls r), row_shown := False\<rparr>"

fun style_shown :: "string list \<Rightarrow> nat \<Rightarrow> form_row list \<Rightarrow> form_row list" where
  "style_shown extra i [] = []"
| "style_shown extra i (r # rs) =
     (if row_shown r then apply_extra_classes extra i r # style_shown extra (Suc i) rs
      else r # style_shown extra i rs)"

fun number_rows :: "string \<Rightarrow> string list \<Rightarrow> nat \<Rightarrow> form_row list \<Rightarrow> form_row list" where
  "number_rows p extra i [] = []"
| "number_rows p extra i (r # rs) =
     index_row p (show_nat i) (apply_extra_classes extra i r) # number_rows p extra (Suc i) rs"

definition on_delete :: "nat \<Rightarrow> formset \<Rightarrow> formset" where
  "on_delete k p =
     (if k < length (form_rows p) then
        (let r = form_rows p ! k;
             p1 = (if is_inline r
                   then (let rs = (form_rows p)[k := mark_deleted r]
                         in p\<lparr>total := int (length (filter row_shown rs)),
                              form_rows := style_shown (extra_classes p) 0 rs\<rparr>)
                   else (let rs = take k (form_rows p) @ drop (Suc k) (form_rows p)
                         in p\<lparr>total := int (length rs), form_rows := number_rows (prefix p) (extra_classes p) 0 rs\<rparr>));
             p2 = (if show_delete_links p1 then p1 else p1\<lparr>form_rows := map (set_links False) (form_rows p1)\<rparr>)
         in if \<not> add_shown p2 \<and> show_add_button p2 then p2\<lparr>add_shown := True\<rparr> else p2)
      else p)"

text \<open>The class marks a template that stands in the page, so that it is not taken for a row.\<close>

definition plain_row :: "form_row \<Rightarrow> form_row" where
  "plain_row r = r\<lparr>row_classes := filter (\<lambda>c. c \<noteq> ''formset-custom-template'') (row_classes r)\<rparr>"

definition on_add :: "formset \<Rightarrow> formset" where
  "on_add p =
     (case form_template p of
        None \<Rightarrow> p
      | Some t \<Rightarrow>
          (let n = total p;
               row = index_row (prefix p) (show_int n) ((apply_extra_classes (extra_classes p) (nat n) (plain_row t))\<lparr>row_shown := True\<rparr>);
               p1 = p\<lparr>form_rows := form_rows p @ [row], total := n + 1\<rparr>;
               p2 = (if show_delete_links p1 then p1\<lparr>form_rows := map (set_links True) (form_rows p1)\<rparr> else p1)
           in if show_add_button p2 then p2 else p2\<lparr>add_shown := False\<rparr>))"

section \<open>Initialization\<close>

text \<open>A check box for deleting is replaced by a hidden field; a row already deleted stays hidden.\<close>

definition is_delete_box :: "elem \<Rightarrow> bool" where
  "is_delete_box e \<longleftrightarrow> tag e = ''INPUT'' \<and> get_attr ''type'' e = Some ''checkbox'' \<and>
     (case get_attr ''id'' e of Some i \<Rightarrow> ends_with ''-DELETE'' i | None \<Rightarrow> False)"

definition attr_text :: "string \<Rightarrow> elem \<Rightarrow> string" where
  "attr_text a e = (case get_attr a e of Some v \<Rightarrow> v | None \<Rightarrow> ''undefined'')"

definition hidden_delete :: "bool \<Rightarrow> elem \<Rightarrow> elem" where
  "hidden_delete on e = (new_elem ''INPUT'')
     \<lparr>attrs := [(''type'', ''hidden''), (''name'', attr_text ''name'' e), (''id'', attr_text ''id'' e)],
      val_of := (if on then ''on'' else [])\<rparr>"

definition replace_delete_box :: "form_row \<Rightarrow> form_row" where
  "replace_delete_box r =
     (case filter is_delete_box (controls r) of
        [] \<Rightarrow> r
      | d # ds \<Rightarrow>
          (let on = list_ex checked (d # ds)
           in r\<lparr>controls := map (\<lambda>e. if is_delete_box e then hidden_delete on d else e) (controls r),
                row_shown := (row_shown r \<and> \<not> on)\<rparr>))"

definition init_row :: "formset \<Rightarrow> nat \<Rightarrow> form_row \<Rightarrow> form_row list" where
  "init_row p i r =
     (let r1 = replace_delete_box r
      in if has_child_elements r1
         then [apply_extra_classes (extra_classes p) i (r1\<lparr>link_shown := Some (show_delete_links p)\<rparr>)]
         else [])"

fun init_rows :: "formset \<Rightarrow> nat \<Rightarrow> form_row list \<Rightarrow> form_row list" where
  "init_rows p i [] = []"
| "init_rows p i (r # rs) = init_row p i r @ init_rows p (Suc i) rs"

definition cleared :: "(elem \<Rightarrow> bool) \<Rightarrow> elem \<Rightarrow> elem" where
  "cleared keep e =
     (if keep e then e
      else if tag e = ''INPUT'' \<and> (get_attr ''type'' e = Some ''checkbox'' \<or> get_attr ''type'' e = Some ''radio'')
      then e\<lparr>checked := False\<rparr>
      else e\<lparr>val_of := []\<rparr>)"

definition make_template :: "(elem \<Rightarrow> bool) \<Rightarrow> form_row \<Rightarrow> form_row" where
  "make_template keep r = r\<lparr>controls := map (cleared keep) (filter (\<lambda>e. \<not> is_hidden_delete e) (controls r))\<rparr>"

definition init_formset :: "(elem \<Rightarrow> bool) \<Rightarrow> bool \<Rightarrow> formset \<Rightarrow> formset" where
  "init_formset keep hide_last p =
     (let rs = init_rows p 0 (form_rows p)
      in if form_rows p = [] then p
         else if rs = [] then p\<lparr>form_rows := [], add_shown := show_add_button p\<rparr>
         else (let l = (if hide_last then (last rs)\<lparr>row_shown := False\<rparr> else last rs)
               in p\<lparr>form_rows := butlast rs @ [l], form_template := Some (make_template keep l),
                    add_shown := show_add_button p\<rparr>))"

section \<open>Numbering\<close>

text \<open>A name that was numbered can be numbered again: the first match stays where it was.\<close>

lemma match_index_iff:
  "match_index p s = Some rest \<longleftrightarrow> (\<exists>t. index_token t \<and> CHR ''-'' \<notin> set t \<and> s = p @ ''-'' @ t @ ''-'' @ rest)"
proof
  assume m: "match_index p s = Some rest"
  then obtain r where s: "s = p @ ''-'' @ r"
    by (auto simp: match_index_def starts_with_iff split: if_splits)
  let ?t = "takeWhile (\<lambda>c. c \<noteq> CHR ''-'') r"
  let ?d = "dropWhile (\<lambda>c. c \<noteq> CHR ''-'') r"
  have "drop (Suc (length p)) s = r" and "starts_with (p @ ''-'') s" using s by (simp_all add: starts_with_iff)
  with m have t: "index_token ?t" and d: "?d \<noteq> []" "rest = tl ?d"
    by (auto simp: match_index_def Let_def split: if_splits)
  have "hd ?d = CHR ''-''" using hd_dropWhile [OF d(1)] by simp
  with d have "?d = ''-'' @ rest" by (cases ?d) auto
  then have "r = ?t @ ''-'' @ rest" using takeWhile_dropWhile_id [of "\<lambda>c. c \<noteq> CHR ''-''" r] by simp
  moreover have "CHR ''-'' \<notin> set ?t" using set_takeWhileD by fastforce
  ultimately show "\<exists>t. index_token t \<and> CHR ''-'' \<notin> set t \<and> s = p @ ''-'' @ t @ ''-'' @ rest"
    using s t by blast
next
  assume "\<exists>t. index_token t \<and> CHR ''-'' \<notin> set t \<and> s = p @ ''-'' @ t @ ''-'' @ rest"
  then obtain t where t: "index_token t" "CHR ''-'' \<notin> set t" and s: "s = p @ ''-'' @ t @ ''-'' @ rest" by blast
  let ?r = "t @ ''-'' @ rest"
  have "\<forall>c \<in> set t. c \<noteq> CHR ''-''" using t(2) by blast
  then have "takeWhile (\<lambda>c. c \<noteq> CHR ''-'') ?r = t" "dropWhile (\<lambda>c. c \<noteq> CHR ''-'') ?r = ''-'' @ rest"
    by (simp_all add: takeWhile_append dropWhile_append)
  moreover have "drop (Suc (length p)) s = ?r" "starts_with (p @ ''-'') s" using s by (simp_all add: starts_with_iff)
  ultimately show "match_index p s = Some rest" using t(1) by (simp add: match_index_def)
qed

lemma token_swap:
  assumes "u \<noteq> []" and "match_index p (u @ p @ ''-'' @ x) \<noteq> None"
  shows "match_index p (u @ p @ ''-'' @ y) \<noteq> None"
proof -
  obtain t rest where t: "index_token t" "CHR ''-'' \<notin> set t"
    and eq: "(u @ p) @ ''-'' @ x = p @ ''-'' @ t @ ''-'' @ rest"
    using assms(2) by (auto simp: match_index_iff)
  have "length p < length (u @ p)" using assms(1) by simp
  then obtain b where b: "u @ p = p @ ''-'' @ b"
    using eq assms(1) by (auto simp: append_eq_append_conv2 append_eq_Cons_conv Cons_eq_append_conv)
  then have bx: "b @ ''-'' @ x = t @ ''-'' @ rest" using eq by simp
  have "\<exists>rest'. b @ ''-'' @ y = t @ ''-'' @ rest'"
    using bx t(2) by (auto simp: append_eq_append_conv2 append_eq_Cons_conv Cons_eq_append_conv)
  then obtain rest' where "u @ p @ ''-'' @ y = p @ ''-'' @ t @ ''-'' @ rest'" using b by (metis append.assoc)
  then show ?thesis using t match_index_iff [of p "u @ p @ ''-'' @ y"] by blast
qed

lemma reindex_cases:
  "reindex p n v = v \<or> (\<exists>u t rest. v = u @ p @ ''-'' @ t @ ''-'' @ rest \<and> reindex p n v = u @ p @ ''-'' @ n @ ''-'' @ rest)"
proof (induction v)
  case (Cons c cs)
  show ?case
  proof (cases "match_index p (c # cs)")
    case None
    with Cons show ?thesis by simp (metis append_Cons)
  next
    case (Some rest)
    then obtain t where "c # cs = [] @ p @ ''-'' @ t @ ''-'' @ rest" using match_index_iff by fastforce
    moreover have "reindex p n (c # cs) = [] @ p @ ''-'' @ n @ ''-'' @ rest" using Some by simp
    ultimately show ?thesis by blast
  qed
qed simp

lemma reindex_reindex:
  assumes "index_token n" and "CHR ''-'' \<notin> set n"
  shows "reindex p m (reindex p n v) = reindex p m v"
proof (induction v)
  case (Cons c cs)
  show ?case
  proof (cases "match_index p (c # cs)")
    case None
    have "match_index p (c # reindex p n cs) = None"
    proof (rule ccontr)
      assume some: "match_index p (c # reindex p n cs) \<noteq> None"
      with None have "reindex p n cs \<noteq> cs" by auto
      then obtain u t rest where "cs = u @ p @ ''-'' @ t @ ''-'' @ rest" "reindex p n cs = u @ p @ ''-'' @ n @ ''-'' @ rest"
        using reindex_cases [of p n cs] by blast
      with some token_swap [of "c # u" p "n @ ''-'' @ rest" "t @ ''-'' @ rest"] None show False by simp
    qed
    with None Cons show ?thesis by simp
  next
    case (Some rest)
    have "match_index p (p @ ''-'' @ n @ ''-'' @ rest) = Some rest" using assms match_index_iff by blast
    moreover obtain d ds where "p @ ''-'' @ n @ ''-'' @ rest = d # ds" by (cases p) auto
    ultimately show ?thesis using Some by simp
  qed
qed simp

lemma show_nat_token: "index_token (show_nat n)" "CHR ''-'' \<notin> set (show_nat n)"
  using show_nat_digits [of n] digit_not_space by (auto simp: index_token_def list_all_iff)

lemma get_update_attr:
  "get_attr b (update_attr p n a e) =
     (if b = a then map_option (reindex p n) (get_attr a e) else get_attr b e)"
  by (auto simp: update_attr_def split: option.splits)

lemma tag_update_attr [simp]: "tag (update_attr p n a e) = tag e"
  by (simp add: update_attr_def split: option.splits)

lemma get_update_element_index:
  "get_attr b (update_element_index p n e) =
     (if b \<in> {''for'', ''id'', ''name''} then map_option (reindex p n) (get_attr b e) else get_attr b e)"
  "tag (update_element_index p n e) = tag e"
  by (simp_all add: update_element_index_def get_update_attr)

text \<open>A row carries a number when numbering it would change nothing.\<close>

definition numbered :: "string \<Rightarrow> nat \<Rightarrow> form_row \<Rightarrow> bool" where
  "numbered p i r \<longleftrightarrow>
     (\<forall>e \<in> set (controls r). \<forall>a \<in> {''for'', ''id'', ''name''}.
        (case get_attr a e of Some v \<Rightarrow> reindex p (show_nat i) v = v | None \<Rightarrow> True))"

lemma numbered_index_row: "numbered p i (index_row p (show_nat i) r)"
  by (auto simp: numbered_def index_row_def get_update_element_index reindex_reindex [OF show_nat_token]
      split: option.split)

lemma number_rows_length [simp]: "length (number_rows p extra k rs) = length rs"
  by (induction rs arbitrary: k) auto

lemma number_rows_nth:
  "i < length rs \<Longrightarrow> number_rows p extra k rs ! i =
     index_row p (show_nat (k + i)) (apply_extra_classes extra (k + i) (rs ! i))"
proof (induction rs arbitrary: k i)
  case (Cons r rs)
  then show ?case by (cases i) auto
qed simp

text \<open>Numbering does not make or unmake a field for deleting.\<close>

lemma ends_with_dash:
  assumes "CHR ''-'' \<notin> set w"
  shows "ends_with (CHR ''-'' # w) (y @ CHR ''-'' # rest) = ends_with (CHR ''-'' # w) (CHR ''-'' # rest)"
proof -
  have "(\<exists>t. y @ CHR ''-'' # rest = t @ CHR ''-'' # w) = (\<exists>t. CHR ''-'' # rest = t @ CHR ''-'' # w)"
    using assms by (auto simp: append_eq_append_conv2 append_eq_Cons_conv Cons_eq_append_conv)
  moreover have "ends_with v s = (\<exists>t. s = t @ v)" for v s :: string
  proof -
    have "ends_with v s = (\<exists>t. rev s = rev v @ t)" by (simp add: ends_with_def starts_with_iff)
    also have "\<dots> = (\<exists>t. s = t @ v)" by (metis rev_append rev_rev_ident)
    finally show ?thesis .
  qed
  ultimately show ?thesis by simp
qed

lemma ends_with_reindex: "ends_with ''-DELETE'' (reindex p n v) = ends_with ''-DELETE'' v"
proof (cases "reindex p n v = v")
  case False
  then obtain u t rest where v: "v = (u @ p @ ''-'' @ t) @ CHR ''-'' # rest"
    and r: "reindex p n v = (u @ p @ ''-'' @ n) @ CHR ''-'' # rest"
    using reindex_cases [of p n v] by auto
  have w: "CHR ''-'' \<notin> set ''DELETE''" by simp
  show ?thesis unfolding r using v ends_with_dash [OF w] by metis
qed simp

lemma is_hidden_delete_update [simp]: "is_hidden_delete (update_element_index p n e) = is_hidden_delete e"
  by (auto simp: is_hidden_delete_def get_update_element_index ends_with_reindex split: option.splits)

lemma row_ops_simps [simp]:
  "is_inline (index_row p n r) = is_inline r" "is_inline (apply_extra_classes ex i r) = is_inline r"
  "is_inline (set_links b r) = is_inline r" "is_inline (r\<lparr>row_shown := b\<rparr>) = is_inline r"
  "is_inline (r\<lparr>link_shown := l\<rparr>) = is_inline r"
  "is_inline (plain_row r) = is_inline r" "link_shown (plain_row r) = link_shown r"
  "link_shown (index_row p n r) = link_shown r" "link_shown (apply_extra_classes ex i r) = link_shown r"
  "link_shown (set_links b r) = map_option (\<lambda>_. b) (link_shown r)"
  "numbered p i (apply_extra_classes ex j r) = numbered p i r" "numbered p i (set_links b r) = numbered p i r"
  "numbered p i (r\<lparr>row_shown := b\<rparr>) = numbered p i r" "numbered p i (r\<lparr>link_shown := l\<rparr>) = numbered p i r"
  "controls (apply_extra_classes ex j r) = controls r"
  by (simp_all add: is_inline_def index_row_def apply_extra_classes_def set_links_def numbered_def list_ex_iff plain_row_def)

section \<open>The counter, the numbers and the limits\<close>

definition within_limits :: "formset \<Rightarrow> bool" where
  "within_limits p \<longleftrightarrow>
     (case max_forms p of Limit m \<Rightarrow> total p \<le> m | _ \<Rightarrow> True) \<and>
     (case min_forms p of Limit m \<Rightarrow> m \<le> total p | _ \<Rightarrow> True)"

definition in_sequence :: "formset \<Rightarrow> bool" where
  "in_sequence p \<longleftrightarrow>
     total p = int (length (form_rows p)) \<and>
     (\<forall>i < length (form_rows p). numbered (prefix p) i (form_rows p ! i))"

definition formset_ok :: "formset \<Rightarrow> bool" where
  "formset_ok p \<longleftrightarrow>
     in_sequence p \<and> within_limits p \<and> add_shown p = show_add_button p \<and>
     (\<forall>r \<in> set (form_rows p). \<not> is_inline r \<and> link_shown r = Some (show_delete_links p)) \<and>
     (case form_template p of None \<Rightarrow> False | Some t \<Rightarrow> \<not> is_inline t \<and> link_shown t \<noteq> None)"

text \<open>What a user can do: click the add button or a delete link, if they are shown.\<close>

datatype row_event = Add_Row | Delete_Row nat

definition formset_step :: "row_event \<Rightarrow> formset \<Rightarrow> formset" where
  "formset_step e p =
     (case e of
        Add_Row \<Rightarrow> if add_shown p then on_add p else p
      | Delete_Row k \<Rightarrow>
          if k < length (form_rows p) \<and> link_shown (form_rows p ! k) = Some True then on_delete k p else p)"

lemma add_keeps:
  assumes ok: "formset_ok p" and "add_shown p"
  shows "formset_ok (on_add p)"
proof -
  let ?n = "length (form_rows p)"
  obtain t where t: "form_template p = Some t" "\<not> is_inline t" "link_shown t \<noteq> None"
    using ok by (auto simp: formset_ok_def split: option.splits)
  let ?row = "index_row (prefix p) (show_nat ?n) ((apply_extra_classes (extra_classes p) ?n (plain_row t))\<lparr>row_shown := True\<rparr>)"
  let ?rows = "map (set_links True) (form_rows p @ [?row])"
  have n: "total p = int ?n" using ok by (simp add: formset_ok_def in_sequence_def)
  have row: "show_int (int ?n) = show_nat ?n" by (simp add: show_int_def)
  have links: "show_delete_links (p\<lparr>form_rows := rs, total := total p + 1\<rparr>)" for rs
    using ok by (auto simp: formset_ok_def within_limits_def show_delete_links_def split: limit.splits)
  have q: "on_add p = p\<lparr>form_rows := ?rows, total := total p + 1,
      add_shown := (add_shown p \<and> show_add_button (p\<lparr>total := total p + 1\<rparr>))\<rparr>"
    using t links assms(2) row n
    by (cases p) (auto simp: on_add_def Let_def show_add_button_def split: limit.split)
  have "in_sequence (on_add p)"
    using ok n unfolding q
    by (auto simp: in_sequence_def formset_ok_def nth_append less_Suc_eq numbered_index_row)
  moreover have "within_limits (on_add p)"
    using ok assms(2) unfolding q
    by (auto simp: formset_ok_def within_limits_def show_add_button_def split: limit.splits)
  moreover have "link_shown r = Some True" if "r \<in> set ?rows" for r
    using that ok t by (auto simp: formset_ok_def)
  moreover have "\<forall>r \<in> set ?rows. \<not> is_inline r" using ok t by (auto simp: formset_ok_def)
  moreover have "show_delete_links (on_add p)"
    using links [of ?rows] unfolding q by (simp add: show_delete_links_def split: limit.splits)
  ultimately show ?thesis
    using t assms(2) unfolding formset_ok_def q
    by (simp add: show_add_button_def split: limit.splits)
qed

lemma delete_keeps:
  assumes ok: "formset_ok p" and k: "k < length (form_rows p)" and link: "link_shown (form_rows p ! k) = Some True"
  shows "formset_ok (on_delete k p)"
proof -
  let ?rs = "take k (form_rows p) @ drop (Suc k) (form_rows p)"
  let ?rows = "number_rows (prefix p) (extra_classes p) 0 ?rs"
  let ?p1 = "p\<lparr>total := int (length ?rs), form_rows := ?rows\<rparr>"
  let ?rows2 = "if show_delete_links ?p1 then ?rows else map (set_links False) ?rows"
  have r: "form_rows p ! k \<in> set (form_rows p)" using k by simp
  have len: "int (length ?rs) = total p - 1" using k ok by (auto simp: formset_ok_def in_sequence_def)
  have more: "show_delete_links p" using ok link r by (auto simp: formset_ok_def)
  have inl: "\<not> is_inline (form_rows p ! k)" using ok r by (auto simp: formset_ok_def)
  have q: "on_delete k p = p\<lparr>total := int (length ?rs), form_rows := ?rows2,
      add_shown := (add_shown p \<or> show_add_button ?p1)\<rparr>"
    using k inl
    by (cases p) (auto simp: on_delete_def Let_def show_add_button_def show_delete_links_def split: limit.splits)
  have nth: "?rows ! i = index_row (prefix p) (show_nat i) (apply_extra_classes (extra_classes p) i (?rs ! i))"
    if "i < length ?rs" for i using number_rows_nth [OF that, of _ _ 0] by simp
  have "in_sequence (on_delete k p)"
    unfolding q by (auto simp: in_sequence_def nth numbered_index_row)
  moreover have "within_limits (on_delete k p)"
    using ok more len unfolding q
    by (auto simp: formset_ok_def within_limits_def show_delete_links_def split: limit.splits)
  moreover have set_rs: "\<not> is_inline r' \<and> link_shown r' = Some True" if m: "r' \<in> set ?rows" for r'
  proof -
    obtain i where "i < length ?rows" and e: "r' = ?rows ! i" using m unfolding in_set_conv_nth by blast
    then have i: "i < length ?rs" by (simp only: number_rows_length)
    from nth_mem [OF i] have "?rs ! i \<in> set (form_rows p)" by (auto dest: in_set_takeD in_set_dropD)
    then show ?thesis using ok more e nth [OF i] by (auto simp: formset_ok_def)
  qed
  moreover have "show_delete_links (on_delete k p) = show_delete_links ?p1"
    unfolding q by (auto simp: show_delete_links_def split: limit.splits)
  moreover have "add_shown (on_delete k p) = show_add_button (on_delete k p)"
    using ok len unfolding q by (auto simp: formset_ok_def show_add_button_def split: limit.splits)
  ultimately show ?thesis
    using ok unfolding formset_ok_def q by (auto split: if_splits)
qed

text \<open>Rows as Django renders them, without check boxes for deleting.\<close>

definition rendered :: "formset \<Rightarrow> bool" where
  "rendered p \<longleftrightarrow>
     form_rows p \<noteq> [] \<and> in_sequence p \<and> within_limits p \<and>
     (\<forall>r \<in> set (form_rows p). has_child_elements r \<and> \<not> is_inline r \<and> \<not> list_ex is_delete_box (controls r))"

lemma init_rows_plain:
  "list_all (\<lambda>r. has_child_elements r \<and> \<not> list_ex is_delete_box (controls r)) rs \<Longrightarrow>
   init_rows p k rs = map (\<lambda>(i, r). apply_extra_classes (extra_classes p) i (r\<lparr>link_shown := Some (show_delete_links p)\<rparr>))
     (enumerate k rs)"
proof (induction rs arbitrary: k)
  case (Cons r rs)
  have "filter is_delete_box (controls r) = []" using Cons.prems by (auto simp: list_ex_iff filter_empty_conv)
  then have "replace_delete_box r = r" by (simp add: replace_delete_box_def)
  with Cons show ?case by (simp add: init_row_def Let_def)
qed simp

lemma cleared_simps [simp]: "tag (cleared keep e) = tag e" "get_attr a (cleared keep e) = get_attr a e"
  by (auto simp: cleared_def)

lemma make_template_not_inline: "\<not> is_inline (make_template keep r)"
  by (auto simp: is_inline_def make_template_def list_ex_iff is_hidden_delete_def)

lemma init_formset_ok:
  assumes "rendered p"
  shows "formset_ok (init_formset keep hide_last p)"
proof -
  let ?rs = "form_rows p"
  let ?new = "\<lambda>(i, r). apply_extra_classes (extra_classes p) i (r\<lparr>link_shown := Some (show_delete_links p)\<rparr>)"
  let ?is = "map ?new (enumerate 0 ?rs)"
  let ?l = "if hide_last then (last ?is)\<lparr>row_shown := False\<rparr> else last ?is"
  let ?q = "init_formset keep hide_last p"
  have "init_rows p 0 ?rs = ?is"
    using assms by (intro init_rows_plain) (auto simp: rendered_def list_all_iff)
  moreover have ne: "?is \<noteq> []" "?rs \<noteq> []" using assms by (auto simp: rendered_def enumerate_eq_zip)
  ultimately have q: "?q = p\<lparr>form_rows := butlast ?is @ [?l], form_template := Some (make_template keep ?l),
      add_shown := show_add_button p\<rparr>"
    by (simp add: init_formset_def Let_def)
  have len: "length (butlast ?is @ [?l]) = length ?rs" using ne by simp
  have nth: "\<exists>b. (butlast ?is @ [?l]) ! i = ?new (i, ?rs ! i) \<or>
      (butlast ?is @ [?l]) ! i = (?new (i, ?rs ! i))\<lparr>row_shown := b\<rparr>" if "i < length ?rs" for i
    using that ne by (auto simp: nth_append nth_butlast nth_enumerate_eq last_conv_nth not_less less_Suc_eq_le
      dest!: le_antisym)
  have row: "numbered (prefix p) i ((butlast ?is @ [?l]) ! i) \<and> \<not> is_inline ((butlast ?is @ [?l]) ! i) \<and>
      link_shown ((butlast ?is @ [?l]) ! i) = Some (show_delete_links p)" if i: "i < length ?rs" for i
  proof -
    have "numbered (prefix p) i (?rs ! i)" "\<not> is_inline (?rs ! i)"
      using assms i by (auto simp: rendered_def in_sequence_def)
    with nth [OF i] show ?thesis by auto
  qed
  have "link_shown (make_template keep ?l) \<noteq> None"
    using row [of "length ?rs - 1"] len ne by (simp add: make_template_def nth_append)
  moreover have "show_delete_links ?q = show_delete_links p" "show_add_button ?q = show_add_button p"
    unfolding q by (auto simp: show_delete_links_def show_add_button_def split: limit.splits)
  moreover have "\<forall>r \<in> set (butlast ?is @ [?l]). \<not> is_inline r \<and> link_shown r = Some (show_delete_links p)"
    using row len by (metis in_set_conv_nth)
  moreover have "in_sequence ?q" "within_limits ?q"
    using assms row len unfolding q
    by (auto simp: rendered_def in_sequence_def within_limits_def split: limit.splits)
  ultimately show ?thesis
    using make_template_not_inline unfolding formset_ok_def q by simp
qed

interpretation form_rows: machine formset_step formset_ok
proof
  show "formset_ok p \<Longrightarrow> formset_ok (formset_step e p)" for p e
    using add_keeps delete_keeps by (cases e) (auto simp: formset_step_def)
qed

text \<open>
  Through any sequence of clicks on the add button and the delete links that are shown,
  the counter of the management form is the number of rows, the controls of every row carry
  the number of its position, and the number of rows stays within the limits. (Forms without
  check boxes for deleting.)
\<close>

theorem rows_stay_in_sequence:
  assumes "rendered p"
  shows "in_sequence (fold formset_step es (init_formset keep hide_last p)) \<and>
    within_limits (fold formset_step es (init_formset keep hide_last p))"
  using form_rows.run_inv [OF init_formset_ok [OF assms]] by (simp add: formset_ok_def)

text \<open>
  With check boxes for deleting it is different: a deleted row is only hidden and the rows
  keep their numbers, but the counter is set to the number of visible rows. The server reads
  the forms below the counter, so it never sees the last row; the next row that is added
  gets the number of a row that is still there.
\<close>

lemma style_shown_length [simp]: "length (style_shown extra k rs) = length rs"
  by (induction rs arbitrary: k) auto

lemma style_shown_controls: "map controls (style_shown extra k rs) = map controls rs"
  by (induction rs arbitrary: k) auto

lemma inline_deletion_hides_last_form:
  assumes "k < length (form_rows p)" and "list_all (\<lambda>r. is_inline r \<and> row_shown r) (form_rows p)"
  shows "let q = on_delete k p in
    length (form_rows q) = length (form_rows p) \<and> total q = int (length (form_rows p)) - 1 \<and>
    map (map (get_attr ''name'')) (map controls (form_rows q)) = map (map (get_attr ''name'')) (map controls (form_rows p))"
proof -
  let ?rs = "(form_rows p)[k := mark_deleted (form_rows p ! k)]"
  let ?p1 = "p\<lparr>total := int (length (filter row_shown ?rs)), form_rows := style_shown (extra_classes p) 0 ?rs\<rparr>"
  have inl: "is_inline (form_rows p ! k)" using assms by (simp add: list_all_length)
  have links: "map controls (map (set_links False) rs) = map controls rs" for rs
    by (simp add: set_links_def comp_def)
  have "filter row_shown (take k (form_rows p)) = take k (form_rows p)"
    "filter row_shown (drop (Suc k) (form_rows p)) = drop (Suc k) (form_rows p)"
    using assms(2) by (auto simp: filter_id_conv list_all_iff dest: in_set_takeD in_set_dropD)
  then have "filter row_shown ?rs = take k (form_rows p) @ drop (Suc k) (form_rows p)"
    using assms(1) by (simp add: upd_conv_take_nth_drop mark_deleted_def)
  then have "int (length (filter row_shown ?rs)) = int (length (form_rows p)) - 1"
    using assms(1) by simp
  moreover have "map (map (get_attr ''name'')) (map controls ?rs) = map (map (get_attr ''name'')) (map controls (form_rows p))"
    using assms(1) by (intro nth_equalityI) (auto simp: nth_list_update mark_deleted_def)
  ultimately show ?thesis
    using assms(1) inl
    by (auto simp: on_delete_def Let_def style_shown_controls links simp del: map_map)
qed

definition demo_input :: "string \<Rightarrow> elem" where
  "demo_input n = (new_elem ''INPUT'')\<lparr>attrs := [(''type'', ''text''), (''name'', n), (''id'', ''id_'' @ n)]\<rparr>"

definition demo_formset :: formset where
  "demo_formset =
     \<lparr>prefix = ''f'', extra_classes = [],
      form_rows = [\<lparr>controls = [demo_input ''f-0-x''], row_classes = [], row_shown = True, link_shown = None\<rparr>,
                   \<lparr>controls = [demo_input ''f-1-x''], row_classes = [], row_shown = True, link_shown = None\<rparr>],
      total = 2, max_forms = Limit 3, min_forms = Limit 1, form_template = None, add_shown = False\<rparr>"

lemma rows_stay_in_sequence_witness:
  "let q = fold formset_step [Delete_Row 0, Add_Row, Add_Row, Add_Row] (init_formset (\<lambda>_. False) False demo_formset)
   in total q = 3 \<and> total q = int (length (form_rows q)) \<and> within_limits q"
proof -
  have "rendered demo_formset" by code_simp
  from rows_stay_in_sequence [OF this, of "[Delete_Row 0, Add_Row, Add_Row, Add_Row]" "\<lambda>_. False" False]
  have "in_sequence (fold formset_step [Delete_Row 0, Add_Row, Add_Row, Add_Row] (init_formset (\<lambda>_. False) False demo_formset))"
    "within_limits (fold formset_step [Delete_Row 0, Add_Row, Add_Row, Add_Row] (init_formset (\<lambda>_. False) False demo_formset))"
    by blast+
  moreover have "total (fold formset_step [Delete_Row 0, Add_Row, Add_Row, Add_Row] (init_formset (\<lambda>_. False) False demo_formset)) = 3"
    by code_simp
  ultimately show ?thesis by (simp add: Let_def in_sequence_def)
qed

end
