(* ===== verification/Button_Spinner.thy ===== *)
theory Button_Spinner
  imports Prelude
begin

text \<open>
  The spinner of a button while its request is under way, \<open>ui/src/js/htmx-button-spinner.js\<close>.
  A button has its attributes and the elements below it in document order, each with its
  \<open>className\<close>; a leading icon lends its class to the spinner, otherwise a spinner is
  inserted before everything else.
\<close>

record inner_elem =
  class_name :: string
  inner_attrs :: "string obj"
  label_text :: string

record button =
  is_btn :: bool
  btn_attrs :: "string obj"
  inner_elems :: "inner_elem list"

definition class_tokens :: "string \<Rightarrow> string list" where
  "class_tokens s = filter (\<lambda>t. t \<noteq> []) (split_char (CHR '' '') s)"

definition is_icon :: "inner_elem \<Rightarrow> bool" where
  "is_icon e \<longleftrightarrow> List.member (class_tokens (class_name e)) ''mdi''"

definition spinner_class :: string where
  "spinner_class = ''mdi spinner-border spinner-border-sm''"

abbreviation active_attr :: string where
  "active_attr \<equiv> ''data-nb-spinner-active''"

abbreviation icon_class_attr :: string where
  "icon_class_attr \<equiv> ''data-nb-spinner-icon-class''"

abbreviation injected_attr :: string where
  "injected_attr \<equiv> ''data-nb-injected-spinner''"

fun on_first :: "('a \<Rightarrow> bool) \<Rightarrow> ('a \<Rightarrow> 'a list) \<Rightarrow> 'a list \<Rightarrow> 'a list" where
  "on_first P f [] = []"
| "on_first P f (x # xs) = (if P x then f x @ xs else x # on_first P f xs)"

definition set_class :: "string \<Rightarrow> inner_elem \<Rightarrow> inner_elem" where
  "set_class c e = e\<lparr>class_name := c\<rparr>"

definition new_spinner :: inner_elem where
  "new_spinner = \<lparr>class_name = spinner_class @ '' me-4'',
     inner_attrs = [(''aria-hidden'', ''true''), (injected_attr, ''true'')], label_text = []\<rparr>"

definition on_before_request :: "button \<Rightarrow> button" where
  "on_before_request b =
     (if \<not> is_btn b \<or> oget (btn_attrs b) active_attr \<noteq> None then b
      else
        (case List.find is_icon (inner_elems b) of
           Some icon \<Rightarrow>
             b\<lparr>btn_attrs := oset active_attr ''icon'' (oset icon_class_attr (class_name icon) (btn_attrs b)),
               inner_elems := on_first is_icon (\<lambda>e. [set_class spinner_class e]) (inner_elems b)\<rparr>
         | None \<Rightarrow>
             b\<lparr>btn_attrs := oset active_attr ''injected'' (btn_attrs b),
               inner_elems := new_spinner # inner_elems b\<rparr>))"

definition is_injected :: "inner_elem \<Rightarrow> bool" where
  "is_injected e \<longleftrightarrow> oget (inner_attrs e) injected_attr \<noteq> None"

definition on_after_request :: "button \<Rightarrow> button" where
  "on_after_request b =
     (if \<not> is_btn b then b
      else
        (case oget (btn_attrs b) active_attr of
           None \<Rightarrow> b
         | Some mode \<Rightarrow>
             if mode = [] then b
             else
               let b1 =
                 (if mode = ''icon'' then
                    let c = (case oget (btn_attrs b) icon_class_attr of None \<Rightarrow> ''null'' | Some c \<Rightarrow> c)
                    in b\<lparr>inner_elems := on_first is_icon (\<lambda>e. [set_class c e]) (inner_elems b),
                         btn_attrs := odel icon_class_attr (btn_attrs b)\<rparr>
                  else b\<lparr>inner_elems := on_first is_injected (\<lambda>e. []) (inner_elems b)\<rparr>)
               in b1\<lparr>btn_attrs := odel active_attr (btn_attrs b1)\<rparr>))"

datatype request_event = Before_Request | After_Request

definition spinner_step :: "request_event \<Rightarrow> button \<Rightarrow> button" where
  "spinner_step e b = (case e of Before_Request \<Rightarrow> on_before_request b | After_Request \<Rightarrow> on_after_request b)"

text \<open>A button as the page has it, without the attributes of the script.\<close>

definition idle :: "button \<Rightarrow> bool" where
  "idle b \<longleftrightarrow> oget (btn_attrs b) active_attr = None \<and> oget (btn_attrs b) icon_class_attr = None"

lemma odel_absent: "oget ob k = None \<Longrightarrow> odel k ob = ob"
  by (induction ob) (auto split: if_splits)

lemma odel_oset_absent: "oget ob k = None \<Longrightarrow> odel k (oset k v ob) = ob"
  by (induction ob) (auto split: if_splits)

lemma odel_oset_other: "k \<noteq> l \<Longrightarrow> odel k (oset l v ob) = oset l v (odel k ob)"
  by (induction ob) auto

lemma is_icon_spinner: "is_icon (set_class spinner_class e)"
proof -
  have "List.member (class_tokens spinner_class) ''mdi''" by code_simp
  then show ?thesis by (simp add: is_icon_def set_class_def)
qed

lemma set_class_back [simp]: "set_class (class_name e) (set_class c e) = e"
  by (simp add: set_class_def)

lemma on_first_restores_icon:
  "List.find is_icon xs = Some icon \<Longrightarrow>
     on_first is_icon (\<lambda>e. [set_class (class_name icon) e]) (on_first is_icon (\<lambda>e. [set_class spinner_class e]) xs) = xs"
proof (induction xs)
  case (Cons x xs)
  then show ?case by (auto simp: is_icon_spinner split: if_splits)
qed simp

lemma spinner_undone:
  assumes "idle b"
  shows "on_after_request (on_before_request b) = b"
proof (cases "is_btn b")
  case True
  show ?thesis
  proof (cases "List.find is_icon (inner_elems b)")
    case None
    have "is_injected new_spinner" by (simp add: is_injected_def new_spinner_def)
    then show ?thesis using assms True None
      by (simp add: on_before_request_def on_after_request_def idle_def odel_oset_absent Let_def)
  next
    case (Some icon)
    then show ?thesis using assms True on_first_restores_icon [OF Some]
      by (simp add: on_before_request_def on_after_request_def idle_def Let_def odel_oset_other
          odel_oset_absent)
  qed
qed (simp add: on_before_request_def on_after_request_def)

lemma spinner_once: "idle b \<Longrightarrow> on_before_request (on_before_request b) = on_before_request b"
  by (auto simp: on_before_request_def split: option.splits)

lemma spinner_idle: "idle b \<Longrightarrow> on_after_request b = b"
  by (simp add: on_after_request_def idle_def)


definition demo_button :: button where
  "demo_button = \<lparr>is_btn = True, btn_attrs = [(''type'', ''button'')],
     inner_elems = [\<lparr>class_name = ''mdi mdi-play'', inner_attrs = [], label_text = ''Run''\<rparr>]\<rparr>"


end
