(* ===== verification/Rack_Elevations.thy ===== *)
theory Rack_Elevations
  imports Dom Web_Storage
begin

text \<open>
  The list of rack elevations, \<open>project-static/js/rack_elevations.js\<close>: the button that
  shows full or short device names, whose state is remembered in the local storage, and the
  button that hides the device images. An elevation is an SVG in an \<open>object\<close> element that
  has no document until it is loaded.
\<close>

section \<open>The page\<close>

text \<open>The texts and images of a loaded elevation; \<open>True\<close> is hidden.\<close>

record svg_doc =
  fullnames_hidden :: "bool list"
  shortnames_hidden :: "bool list"
  images_hidden :: "bool list"

record rack_page =
  name_button :: elem
  name_icon :: elem
  image_button_selected :: bool
  image_icon :: elem
  elevations :: "svg_doc option list"
  svg_links :: "(string \<times> string) list list"
  local_storage :: storage
  default_state :: bool

abbreviation checked_icon :: string where
  "checked_icon \<equiv> ''mdi-checkbox-marked-circle-outline''"

abbreviation blank_icon :: string where
  "blank_icon \<equiv> ''mdi-checkbox-blank-circle-outline''"

definition fullname_key :: string where
  "fullname_key = ''rack_elevation_device_fullname''"

text \<open>The state at the start: what is stored, or full names.\<close>

definition stored_state :: "storage \<Rightarrow> bool" where
  "stored_state st = (case get_item fullname_key st of None \<Rightarrow> True | Some s \<Rightarrow> s = ''true'')"

section \<open>Device names\<close>

definition set_doc_names :: "bool \<Rightarrow> svg_doc \<Rightarrow> svg_doc" where
  "set_doc_names full d =
     d\<lparr>fullnames_hidden := map (\<lambda>_. \<not> full) (fullnames_hidden d),
       shortnames_hidden := map (\<lambda>_. full) (shortnames_hidden d)\<rparr>"

text \<open>\<open>set_rack_device_fullname_display\<close> of one elevation: there may be no document.\<close>

definition set_fullname_display :: "bool \<Rightarrow> nat \<Rightarrow> rack_page \<Rightarrow> rack_page outcome" where
  "set_fullname_display full i p =
     (case elevations p ! i of
        None \<Rightarrow> Throw TypeError p
      | Some d \<Rightarrow> Done (p\<lparr>elevations := (elevations p)[i := Some (set_doc_names full d)]\<rparr>))"

definition set_name_button :: "bool \<Rightarrow> rack_page \<Rightarrow> rack_page" where
  "set_name_button full p =
     p\<lparr>name_button := set_attr ''selected'' (show_bool full) (name_button p),
       name_icon :=
         (if full then class_remove blank_icon (class_add checked_icon (name_icon p))
          else class_add blank_icon (class_remove checked_icon (name_icon p)))\<rparr>"

definition set_links :: "bool \<Rightarrow> rack_page \<Rightarrow> rack_page" where
  "set_links full p = p\<lparr>svg_links := map (params_set ''display_fullname'' (show_bool full)) (svg_links p)\<rparr>"

definition save_state :: "bool \<Rightarrow> rack_page \<Rightarrow> rack_page" where
  "save_state full p = p\<lparr>local_storage := set_item fullname_key (show_bool full) (local_storage p)\<rparr>"

definition set_fullname_state :: "bool \<Rightarrow> rack_page \<Rightarrow> rack_page outcome" where
  "set_fullname_state full p =
     and_then
       (run_all (set_fullname_display full) [0..<length (elevations p)] (set_name_button full p))
       (\<lambda>q. Done (save_state full (set_links full q)))"

section \<open>Listeners\<close>

text \<open>
  The listener of the button reads the attribute of the element that was hit, which is the
  icon when the click is on it.
\<close>

datatype hit = On_Button | On_Icon

definition on_name_click :: "hit \<Rightarrow> rack_page \<Rightarrow> rack_page outcome" where
  "on_name_click h p =
     (let e = (case h of On_Button \<Rightarrow> name_button p | On_Icon \<Rightarrow> name_icon p)
      in set_fullname_state (get_attr ''selected'' e \<noteq> Some ''true'') p)"

definition on_ready :: "rack_page \<Rightarrow> rack_page outcome" where
  "on_ready p = set_fullname_state (default_state p) p"

text \<open>The script reads the storage when it starts, before the document is ready.\<close>

definition run_script :: "rack_page \<Rightarrow> rack_page" where
  "run_script p = p\<lparr>default_state := stored_state (local_storage p)\<rparr>"

definition on_elevation_load :: "nat \<Rightarrow> svg_doc \<Rightarrow> rack_page \<Rightarrow> rack_page" where
  "on_elevation_load i d p =
     final_state (set_fullname_display (default_state p) i (p\<lparr>elevations := (elevations p)[i := Some d]\<rparr>))"

text \<open>The button of the images.\<close>

definition on_image_click :: "rack_page \<Rightarrow> rack_page" where
  "on_image_click p =
     (let hide = image_button_selected p
      in p\<lparr>elevations := map (map_option (\<lambda>d. d\<lparr>images_hidden := map (\<lambda>_. hide) (images_hidden d)\<rparr>)) (elevations p),
           image_button_selected := \<not> hide,
           image_icon := class_toggle blank_icon None (class_toggle checked_icon None (image_icon p))\<rparr>)"

section \<open>One state everywhere\<close>

definition doc_shows :: "bool \<Rightarrow> svg_doc \<Rightarrow> bool" where
  "doc_shows full d \<longleftrightarrow>
     list_all (\<lambda>h. h = (\<not> full)) (fullnames_hidden d) \<and> list_all (\<lambda>h. h = full) (shortnames_hidden d)"

definition shows_names :: "bool \<Rightarrow> rack_page \<Rightarrow> bool" where
  "shows_names full p \<longleftrightarrow>
     get_attr ''selected'' (name_button p) = Some (show_bool full) \<and>
     has_class checked_icon (name_icon p) = full \<and> has_class blank_icon (name_icon p) = (\<not> full) \<and>
     list_all (\<lambda>d. case d of None \<Rightarrow> False | Some d \<Rightarrow> doc_shows full d) (elevations p) \<and>
     list_all (\<lambda>ps. map_of ps ''display_fullname'' = Some (show_bool full)) (svg_links p) \<and>
     (local_storage p \<noteq> None \<longrightarrow> stored_state (local_storage p) = full)"

definition all_loaded :: "rack_page \<Rightarrow> bool" where
  "all_loaded p \<longleftrightarrow> list_all (\<lambda>d. d \<noteq> None) (elevations p)"

lemma elevations_name_button [simp]: "elevations (set_name_button full p) = elevations p"
  by (simp add: set_name_button_def)

lemma doc_shows_set: "doc_shows full (set_doc_names full d)"
  by (simp add: doc_shows_def set_doc_names_def list_all_iff)

lemma display_all:
  "list_all (\<lambda>d. d \<noteq> None) (elevations p) \<Longrightarrow> n \<le> length (elevations p) \<Longrightarrow>
     run_all (set_fullname_display full) [0..<n] p =
       Done (p\<lparr>elevations := map (map_option (set_doc_names full)) (take n (elevations p)) @ drop n (elevations p)\<rparr>)"
proof (induction n)
  case (Suc n)
  let ?es = "elevations p"
  have "?es ! n \<noteq> None" using Suc.prems by (simp add: list_all_length)
  then obtain d where d: "?es ! n = Some d" by auto
  have dr: "drop n ?es = Some d # drop (Suc n) ?es" using Suc.prems(2) d by (metis Cons_nth_drop_Suc Suc_le_lessD)
  have tk: "take (Suc n) ?es = take n ?es @ [Some d]" using Suc.prems(2) d by (simp add: take_Suc_conv_app_nth)
  have l: "length (map (map_option (set_doc_names full)) (take n ?es)) = n" using Suc.prems(2) by simp
  show ?case
    using Suc l d dr tk
    by (simp add: run_all_append set_fullname_display_def nth_append list_update_append)
qed simp

text \<open>
  Once every elevation is loaded, a click on the button itself changes the names shown in
  all elevations, the button with its icon and the links to the other state together, and
  what is stored makes the page start with that state the next time.
\<close>

theorem name_click_reaches_everything:
  assumes "all_loaded p" and "get_attr ''selected'' (name_button p) = Some (show_bool full)"
  shows "\<exists>q. on_name_click On_Button p = Done q \<and> shows_names (\<not> full) q \<and>
    (local_storage p \<noteq> None \<longrightarrow> default_state (run_script q) = (\<not> full))"
proof -
  let ?p = "set_name_button (\<not> full) p"
  let ?q = "save_state (\<not> full) (set_links (\<not> full)
    (?p\<lparr>elevations := map (map_option (set_doc_names (\<not> full))) (elevations p)\<rparr>))"
  have "run_all (set_fullname_display (\<not> full)) [0..<length (elevations p)] ?p =
      Done (?p\<lparr>elevations := map (map_option (set_doc_names (\<not> full))) (elevations p)\<rparr>)"
    using display_all [of ?p "length (elevations p)" "\<not> full"] assms(1) by (simp add: all_loaded_def)
  then have q: "on_name_click On_Button p = Done ?q"
    using assms(2) by (cases full) (simp_all add: on_name_click_def set_fullname_state_def show_bool_def)
  have st: "local_storage p \<noteq> None \<longrightarrow> stored_state (local_storage ?q) = (\<not> full)"
    by (simp add: save_state_def set_links_def set_name_button_def stored_state_def get_set_item)
  have "list_all (\<lambda>d. case d of None \<Rightarrow> False | Some d \<Rightarrow> doc_shows (\<not> full) d) (elevations ?q)"
    using assms(1) by (auto simp: save_state_def set_links_def all_loaded_def list_all_iff doc_shows_set)
  moreover have "local_storage ?q \<noteq> None \<longrightarrow> stored_state (local_storage ?q) = (\<not> full)"
    using st by (simp add: save_state_def set_links_def set_name_button_def stored_state_def get_set_item)
  moreover have "list_all (\<lambda>ps. map_of ps ''display_fullname'' = Some (show_bool (\<not> full))) (svg_links ?q)"
    by (simp add: save_state_def set_links_def list_all_iff params_set_get)
  ultimately have "shows_names (\<not> full) ?q"
    unfolding shows_names_def
    by (intro conjI) (assumption | simp add: save_state_def set_links_def set_name_button_def)+
  then show ?thesis using q st by (auto simp: run_script_def)
qed

definition demo_rack :: rack_page where
  "demo_rack =
     \<lparr>name_button = set_attr ''selected'' ''true'' (new_elem ''BUTTON''), name_icon = class_add checked_icon (new_elem ''SPAN''),
      image_button_selected = True, image_icon = new_elem ''SPAN'',
      elevations = [Some \<lparr>fullnames_hidden = [False], shortnames_hidden = [True], images_hidden = []\<rparr>],
      svg_links = [[(''face'', ''front'')]], local_storage = Some (\<lambda>_. None), default_state = True\<rparr>"

lemma name_click_reaches_everything_witness:
  "\<exists>q. on_name_click On_Button demo_rack = Done q \<and> shows_names False q"
proof -
  have "all_loaded demo_rack" "get_attr ''selected'' (name_button demo_rack) = Some (show_bool True)" by code_simp+
  from name_click_reaches_everything [OF this] show ?thesis by auto
qed

text \<open>
  Three ways around it. A click on the icon is taken as one on a button that is not selected,
  so it cannot switch to the short names. As long as an elevation is not loaded the listener
  throws before it updates the links and stores the state. And an elevation that is loaded
  later shows what was stored when the page started.
\<close>

lemma icon_click_shows_full_names:
  assumes "all_loaded p" and "get_attr ''selected'' (name_icon p) = None"
  shows "on_name_click On_Icon p = set_fullname_state True p"
  using assms by (simp add: on_name_click_def)

lemma unloaded_elevation_throws:
  assumes "elevations p = None # es"
  shows "on_name_click h p = Throw TypeError (set_name_button (get_attr ''selected''
    (case h of On_Button \<Rightarrow> name_button p | On_Icon \<Rightarrow> name_icon p) \<noteq> Some ''true'') p)"
  using assms
  by (simp add: on_name_click_def set_fullname_state_def Let_def upt_conv_Cons set_fullname_display_def
      del: upt_Suc)

lemma late_elevation_shows_start_state:
  assumes "i < length (elevations p)"
  shows "elevations (on_elevation_load i d p) ! i = Some (set_doc_names (default_state p) d)"
  using assms by (simp add: on_elevation_load_def set_fullname_display_def)

end
