(* ===== verification/Page_Actions.thy ===== *)
theory Page_Actions
  imports Dom
begin

text \<open>
  Smaller listeners of the pages: the status of cables
  (\<open>project-static/js/connection_toggles.js\<close>), the filter of interfaces
  (\<open>project-static/js/interface_filtering.js\<close>), the generic modal (\<open>ui/src/js/modal.js\<close>)
  and the favorite buttons (\<open>ui/src/js/nautobot.js\<close>). A request is in flight until its answer
  arrives, which is an event of its own.
\<close>

section \<open>Cables\<close>

datatype request = Patch_Status "string option" string | Delete_Termination string

record cable_page = page +
  pending :: "request list"
  reloads :: nat

definition children_of_elem :: "'a page_scheme \<Rightarrow> uid \<Rightarrow> uid list" where
  "children_of_elem p u = (case find_sub u (doc p) of Some (Node _ ts) \<Rightarrow> map root_of ts | None \<Rightarrow> [])"

definition row_of_cable :: "string \<Rightarrow> elem \<Rightarrow> bool" where
  "row_of_cable pk e \<longleftrightarrow> tag e = ''TR'' \<and> get_attr ''data-cable-pk'' e = Some pk"

definition color_row :: "string \<Rightarrow> elem \<Rightarrow> elem" where
  "color_row status e =
     class_add (if status = ''Connected'' then ''table-success'' else ''table-info'')
       (class_remove ''table-warning'' (class_remove ''table-info'' (class_remove ''table-success'' e)))"

definition change_colors :: "string \<Rightarrow> string \<Rightarrow> 'a page_scheme \<Rightarrow> 'a page_scheme" where
  "change_colors pk status p =
     (if pk = [] then p else upd_all (doc_qsa p (row_of_cable pk)) (color_row status) p)"

definition toggle_of_cable :: "string \<Rightarrow> elem \<Rightarrow> bool" where
  "toggle_of_cable pk e \<longleftrightarrow> tag e = ''A'' \<and> has_class ''cable-toggle'' e \<and> get_attr ''data'' e = Some pk"

definition next_action :: "string \<Rightarrow> string" where
  "next_action status = (if status = ''Connected'' then ''Planned'' else ''Connected'')"

definition mark_toggle :: "string \<Rightarrow> elem \<Rightarrow> elem" where
  "mark_toggle status e =
     (class_toggle ''text-success'' (Some (status = ''Planned''))
       (class_toggle ''text-warning'' (Some (status = ''Connected''))
         (class_toggle ''connected'' (Some (status = ''Connected'')) e)))
     \<lparr>inner := ''Mark cable as '' @ next_action status\<rparr>"

definition mark_icon :: "string \<Rightarrow> elem \<Rightarrow> elem" where
  "mark_icon status e =
     class_toggle ''mdi-lan-pending'' (Some (status = ''Connected''))
       (class_toggle ''mdi-lan-connect'' (Some (status = ''Planned'')) e)"

definition change_toggle :: "string \<Rightarrow> uid \<Rightarrow> 'a page_scheme \<Rightarrow> 'a page_scheme" where
  "change_toggle status u p =
     (let icon = List.find (\<lambda>v. tag (heap p v) = ''SPAN'') (children_of_elem p u);
          q = upd u (mark_toggle status) p
      in case icon of None \<Rightarrow> q | Some v \<Rightarrow> upd v (mark_icon status) q)"

definition change_toggle_buttons :: "string \<Rightarrow> string \<Rightarrow> 'a page_scheme \<Rightarrow> 'a page_scheme" where
  "change_toggle_buttons pk status p =
     (if pk = [] then p else fold (change_toggle status) (doc_qsa p (toggle_of_cable pk)) p)"

definition toggle_connection :: "uid \<Rightarrow> cable_page \<Rightarrow> cable_page" where
  "toggle_connection u p =
     (let e = heap p u;
          status = (if has_class ''connected'' e then ''Planned'' else ''Connected'')
      in p\<lparr>pending := pending p @ [Patch_Status (get_attr ''data'' e) status]\<rparr>)"

definition disconnect_termination :: "uid \<Rightarrow> cable_page \<Rightarrow> cable_page" where
  "disconnect_termination u p =
     p\<lparr>pending := pending p @ [Delete_Termination (id_text (get_attr ''data'' (heap p u)))]\<rparr>"

text \<open>The delegated click listener: whether the default action is prevented, and the page.\<close>

definition on_cable_click :: "uid \<Rightarrow> cable_page \<Rightarrow> bool \<times> cable_page" where
  "on_cable_click u p =
     (case closest p (has_class ''cable-toggle'') u of
        Some t \<Rightarrow> (True, toggle_connection t p)
      | None \<Rightarrow>
          (case closest p (has_class ''cable-disconnect'') u of
             Some d \<Rightarrow> (True, disconnect_termination d p)
           | None \<Rightarrow> (False, p)))"

definition apply_answer :: "request \<Rightarrow> bool \<Rightarrow> cable_page \<Rightarrow> cable_page" where
  "apply_answer r ok p =
     (if \<not> ok then p
      else
        (case r of
           Patch_Status None status \<Rightarrow> p
         | Patch_Status (Some pk) status \<Rightarrow> change_toggle_buttons pk status (change_colors pk status p)
         | Delete_Termination pk \<Rightarrow> p\<lparr>reloads := Suc (reloads p)\<rparr>))"

definition on_cable_answer :: "nat \<Rightarrow> bool \<Rightarrow> cable_page \<Rightarrow> cable_page" where
  "on_cable_answer k ok p =
     (if k < length (pending p)
      then apply_answer (pending p ! k) ok (p\<lparr>pending := take k (pending p) @ drop (Suc k) (pending p)\<rparr>)
      else p)"

lemma color_row_simps [simp]:
  "tag (color_row s e) = tag e" "get_attr a (color_row s e) = get_attr a e"
  "has_class ''table-success'' (color_row s e) = (s = ''Connected'')"
  "has_class ''table-info'' (color_row s e) = (s \<noteq> ''Connected'')"
  "\<not> has_class ''table-warning'' (color_row s e)"
  by (simp_all add: color_row_def)

lemma color_row_other:
  "c \<notin> {''table-success'', ''table-info'', ''table-warning''} \<Longrightarrow> has_class c (color_row s e) = has_class c e"
  by (simp add: color_row_def)

lemma mark_toggle_simps [simp]:
  "tag (mark_toggle s e) = tag e" "get_attr a (mark_toggle s e) = get_attr a e"
  "has_class ''connected'' (mark_toggle s e) = (s = ''Connected'')"
  "inner (mark_toggle s e) = ''Mark cable as '' @ next_action s"
  by (simp_all add: mark_toggle_def)

lemma mark_toggle_other:
  "c \<notin> {''connected'', ''text-warning'', ''text-success''} \<Longrightarrow> has_class c (mark_toggle s e) = has_class c e"
  by (simp add: mark_toggle_def)

lemma mark_icon_simps [simp]:
  "tag (mark_icon s e) = tag e" "get_attr a (mark_icon s e) = get_attr a e" "inner (mark_icon s e) = inner e"
  by (simp_all add: mark_icon_def class_toggle_def class_add_def class_remove_def)

lemma mark_icon_other:
  "c \<notin> {''mdi-lan-pending'', ''mdi-lan-connect''} \<Longrightarrow> has_class c (mark_icon s e) = has_class c e"
  by (simp add: mark_icon_def)

lemma change_toggle_tag [simp]: "tag (heap (change_toggle s u p) w) = tag (heap p w)"
  by (auto simp: change_toggle_def Let_def heap_upd split: option.split)

lemma change_toggle_heap:
  assumes "tag (heap p u) = ''A''" and "tag (heap p w) \<noteq> ''SPAN''"
  shows "heap (change_toggle s u p) w = (if w = u then mark_toggle s (heap p w) else heap p w)"
proof -
  have "tag (heap p v) = ''SPAN''"
    if "List.find (\<lambda>v. tag (heap p v) = ''SPAN'') xs = Some v" for v xs
    using that by (auto simp: find_Some_iff)
  then show ?thesis using assms by (auto simp: change_toggle_def Let_def heap_upd split: option.split)
qed

lemma change_toggles_heap:
  "distinct us \<Longrightarrow> \<forall>u \<in> set us. tag (heap p u) = ''A'' \<Longrightarrow> tag (heap p w) \<noteq> ''SPAN'' \<Longrightarrow>
     heap (fold (change_toggle s) us p) w = (if w \<in> set us then mark_toggle s (heap p w) else heap p w)"
proof (induction us arbitrary: p)
  case (Cons u us)
  have "heap (fold (change_toggle s) us (change_toggle s u p)) w =
      (if w \<in> set us then mark_toggle s (heap (change_toggle s u p) w) else heap (change_toggle s u p) w)"
    using Cons by simp
  then show ?case using Cons.prems by (auto simp: change_toggle_heap)
qed simp


definition demo_cables :: cable_page where
  "demo_cables =
     \<lparr>doc = Node 0 [Node 2 [Node 3 []], Node 4 []],
      heap = (\<lambda>u. if u = 2 then set_attr ''data-cable-pk'' ''c'' (class_add ''table-info'' (new_elem ''TR''))
        else if u = 3 then set_attr ''data'' ''c'' (class_add ''cable-toggle'' (new_elem ''A''))
        else new_elem ''DIV''),
      focus = None, pending = [], reloads = 0\<rparr>"


section \<open>The filter of interfaces\<close>

text \<open>
  \<open>matches\<close> stands for \<open>new RegExp(pattern).test(name)\<close>; it is \<open>None\<close> for a pattern that the
  constructor rejects. A row has its name, its check box if it has one, and whether it is
  shown.
\<close>

record iface_row =
  row_name :: "string option"
  row_check :: "bool option"
  row_shown :: bool

definition filter_row :: "(string \<Rightarrow> bool) \<Rightarrow> bool \<Rightarrow> iface_row \<Rightarrow> iface_row" where
  "filter_row test toggle r =
     (if test (case row_name r of None \<Rightarrow> [] | Some n \<Rightarrow> n)
      then r\<lparr>row_check := map_option (\<lambda>_. toggle) (row_check r), row_shown := True\<rparr>
      else r\<lparr>row_check := map_option (\<lambda>_. False) (row_check r), row_shown := False\<rparr>)"

definition on_filter_input ::
    "(string \<Rightarrow> (string \<Rightarrow> bool) option) \<Rightarrow> string \<Rightarrow> bool option \<Rightarrow> iface_row list \<Rightarrow> iface_row list outcome" where
  "on_filter_input regexp pattern toggle rows =
     (case regexp pattern of
        None \<Rightarrow> Throw SyntaxError rows
      | Some test \<Rightarrow> Done (map (filter_row test (toggle = Some True)) rows))"

text \<open>No row that is hidden stays selected, so a bulk action reaches shown interfaces only.\<close>

lemma hidden_rows_unselected:
  assumes "on_filter_input regexp pattern toggle rows = Done rows'"
  shows "list_all (\<lambda>r. row_shown r \<or> row_check r \<noteq> Some True) rows' \<and>
    map row_name rows' = map row_name rows"
proof -
  obtain test where "rows' = map (filter_row test (toggle = Some True)) rows"
    using assms by (auto simp: on_filter_input_def split: option.splits)
  then show ?thesis by (auto simp: list_all_iff filter_row_def)
qed

section \<open>The generic modal\<close>

text \<open>
  The content of the modal: the markup in its container, if there is one, and whether it asks
  for a reload of the page on closing; its title and body, the class that stops transitions.
\<close>

datatype modal_content = Fetched string bool | Loading

record modal_page =
  container :: "modal_content option"
  title :: "string option"
  body :: "string option"
  transitioning :: bool
  page_reloads :: nat
  select2_inits :: nat

datatype modal_event =
  Modal_Show | Modal_Shown | Modal_Hide | Modal_Hidden bool
| After_Swap bool
| Response_Error bool int

text \<open>\<open>show\<close>/\<open>hide\<close> and \<open>shown\<close>/\<open>hidden\<close> of any modal, then the listeners of the generic one.\<close>

definition on_modal_hidden :: "bool \<Rightarrow> modal_page \<Rightarrow> modal_page" where
  "on_modal_hidden generic p =
     (if \<not> generic then p
      else
        (case container p of
           None \<Rightarrow> p
         | Some (Fetched _ True) \<Rightarrow> p\<lparr>page_reloads := Suc (page_reloads p)\<rparr>
         | Some _ \<Rightarrow> p\<lparr>container := Some Loading\<rparr>))"

definition error_body :: "int \<Rightarrow> string" where
  "error_body status = ''The server responded with status: '' @ show_int status"

definition on_response_error :: "bool \<Rightarrow> int \<Rightarrow> modal_page \<Rightarrow> modal_page" where
  "on_response_error target status p =
     (if \<not> target then p
      else p\<lparr>title := map_option (\<lambda>_. ''Error Occurred'') (title p),
             body := map_option (\<lambda>_. error_body status) (body p)\<rparr>)"

definition modal_step :: "modal_event \<Rightarrow> modal_page \<Rightarrow> modal_page" where
  "modal_step e p =
     (case e of
        Modal_Show \<Rightarrow> p\<lparr>transitioning := True\<rparr>
      | Modal_Hide \<Rightarrow> p\<lparr>transitioning := True\<rparr>
      | Modal_Shown \<Rightarrow> p\<lparr>transitioning := False\<rparr>
      | Modal_Hidden generic \<Rightarrow> on_modal_hidden generic (p\<lparr>transitioning := False\<rparr>)
      | After_Swap target \<Rightarrow> if target then p\<lparr>select2_inits := Suc (select2_inits p)\<rparr> else p
      | Response_Error target status \<Rightarrow> on_response_error target status p)"

lemma modal_closed_is_clean:
  assumes "container p = Some c" and "page_reloads (modal_step (Modal_Hidden True) p) = page_reloads p"
  shows "container (modal_step (Modal_Hidden True) p) = Some Loading \<and> \<not> transitioning (modal_step (Modal_Hidden True) p)"
  using assms by (auto simp: modal_step_def on_modal_hidden_def split: modal_content.splits bool.splits)

section \<open>Favorites\<close>

text \<open>
  The request of a favorite button goes to the address that undoes what the button shows, and
  a successful answer changes what it shows.
\<close>

definition set_request_url :: "elem \<Rightarrow> string option" where
  "set_request_url e =
     (if has_class ''active'' e then get_attr ''data-delete-url'' e else get_attr ''data-add-url'' e)"

definition toggle_favorite :: "bool \<Rightarrow> elem \<Rightarrow> elem" where
  "toggle_favorite successful e = (if successful then class_toggle ''active'' None e else e)"

lemma favorite_alternates:
  "set_request_url (toggle_favorite True e) =
     (if has_class ''active'' e then get_attr ''data-add-url'' e else get_attr ''data-delete-url'' e) \<and>
   has_class ''active'' (toggle_favorite True (toggle_favorite True e)) = has_class ''active'' e \<and>
   set_request_url (toggle_favorite False e) = set_request_url e"
  by (simp add: set_request_url_def toggle_favorite_def)

end
