(* ===== verification/Page_Widgets.thy ===== *)
theory Page_Widgets
  imports Prelude
begin

text \<open>
  Small widgets of the pages: dropdown menus inside scrolling tables
  (\<open>project-static/js/dropdown.js\<close>) and the preview of images (\<open>project-static/js/forms.js\<close>).
\<close>

section \<open>Dropdown menus in tables\<close>

text \<open>
  A menu is moved to the body while it is shown, because the table would clip it. The
  handlers for hiding it and for the next scroll of the table are bound with \<open>one\<close>: they run
  once and are gone. Bootstrap fires \<open>show\<close> before it opens a menu and \<open>hidden\<close> after it has
  closed it; a click on the toggle does one or the other.
\<close>

record dropdown =
  opened :: bool
  in_body :: bool
  styled :: bool
  hide_hooks :: nat
  scroll_hooks :: nat

definition on_show_dropdown :: "dropdown \<Rightarrow> dropdown" where
  "on_show_dropdown d =
     d\<lparr>in_body := True, styled := True, hide_hooks := Suc (hide_hooks d), scroll_hooks := Suc (scroll_hooks d)\<rparr>"

definition on_hidden_dropdown :: "dropdown \<Rightarrow> dropdown" where
  "on_hidden_dropdown d =
     (if hide_hooks d = 0 then d else d\<lparr>in_body := False, styled := False, hide_hooks := 0\<rparr>)"

definition click_dropdown :: "dropdown \<Rightarrow> dropdown" where
  "click_dropdown d =
     (if opened d then on_hidden_dropdown (d\<lparr>opened := False\<rparr>) else (on_show_dropdown d)\<lparr>opened := True\<rparr>)"

definition on_scroll_table :: "dropdown \<Rightarrow> dropdown" where
  "on_scroll_table d = (click_dropdown ^^ scroll_hooks d) (d\<lparr>scroll_hooks := 0\<rparr>)"

datatype dropdown_event = Click_Toggle | Scroll_Table

definition dropdown_step :: "dropdown_event \<Rightarrow> dropdown \<Rightarrow> dropdown" where
  "dropdown_step e d = (case e of Click_Toggle \<Rightarrow> click_dropdown d | Scroll_Table \<Rightarrow> on_scroll_table d)"

definition dropdown_ok :: "dropdown \<Rightarrow> bool" where
  "dropdown_ok d \<longleftrightarrow> in_body d = opened d \<and> styled d = opened d \<and> hide_hooks d = (if opened d then 1 else 0)"

lemma dropdown_ok_click: "dropdown_ok d \<Longrightarrow> dropdown_ok (click_dropdown d)"
  by (auto simp: dropdown_ok_def click_dropdown_def on_hidden_dropdown_def on_show_dropdown_def)

lemma dropdown_ok_scroll: "dropdown_ok d \<Longrightarrow> dropdown_ok (on_scroll_table d)"
proof -
  have "dropdown_ok ((click_dropdown ^^ n) q)" if "dropdown_ok q" for n q
    using that dropdown_ok_click by (induction n) simp_all
  then show "dropdown_ok d \<Longrightarrow> dropdown_ok (on_scroll_table d)" by (simp add: on_scroll_table_def dropdown_ok_def)
qed

interpretation table_menu: machine dropdown_step dropdown_ok
proof
  show "dropdown_ok d \<Longrightarrow> dropdown_ok (dropdown_step e d)" for d e
    using dropdown_ok_click dropdown_ok_scroll by (cases e) (simp_all add: dropdown_step_def)
qed

text \<open>The menu is out of the table exactly while it is open, and is never lost there.\<close>

lemma menu_comes_home: "dropdown_ok d \<Longrightarrow> in_body (fold dropdown_step es d) = opened (fold dropdown_step es d)"
  using table_menu.run_inv [of d es] by (simp add: dropdown_ok_def)

text \<open>
  Closing the menu with a click does not take back the handler for scrolling: the next scroll
  of the table opens the closed menu again.
\<close>

lemma scroll_reopens_menu:
  assumes "\<not> opened d" and "scroll_hooks d = 0"
  shows "opened (fold dropdown_step [Click_Toggle, Click_Toggle, Scroll_Table] d)"
  using assms
  by (simp add: dropdown_step_def click_dropdown_def on_hidden_dropdown_def on_show_dropdown_def on_scroll_table_def)

section \<open>Image previews\<close>

text \<open>
  The preview windows on the page, in document order, all with the same id, with the address
  of their image and whether they are shown; jQuery's selector for an id finds the first.
\<close>

record preview =
  image :: string
  max_width :: int
  max_height :: int
  faded_in :: bool

definition preview_offset_x :: int where "preview_offset_x = 20"
definition preview_offset_y :: int where "preview_offset_y = 10"

definition on_preview_over :: "int \<times> int \<Rightarrow> int \<times> int \<Rightarrow> string \<Rightarrow> preview list \<Rightarrow> preview list" where
  "on_preview_over window_size client href ps =
     tl ps @ [\<lparr>image = href, max_width = fst window_size - (fst client + preview_offset_x * 2),
       max_height = snd window_size - (snd client + preview_offset_y * 2), faded_in = False\<rparr>]"

definition fade_first :: "bool \<Rightarrow> preview list \<Rightarrow> preview list" where
  "fade_first b ps = (case ps of [] \<Rightarrow> [] | p # rest \<Rightarrow> p\<lparr>faded_in := b\<rparr> # rest)"

definition on_preview_load :: "bool \<Rightarrow> preview list \<Rightarrow> preview list" where
  "on_preview_load is_image ps = (if is_image then fade_first True ps else ps)"

datatype preview_event = Over "int \<times> int" "int \<times> int" string | Loaded bool | Out

definition preview_step :: "preview_event \<Rightarrow> preview list \<Rightarrow> preview list" where
  "preview_step e ps =
     (case e of
        Over w c href \<Rightarrow> on_preview_over w c href ps
      | Loaded is_image \<Rightarrow> on_preview_load is_image ps
      | Out \<Rightarrow> fade_first False ps)"

interpretation previews: machine preview_step "\<lambda>ps. length ps \<le> 1"
proof
  show "length ps \<le> 1 \<Longrightarrow> length (preview_step e ps) \<le> 1" for ps e
    by (cases e) (auto simp: preview_step_def on_preview_over_def on_preview_load_def fade_first_def split: list.split)
qed

lemma one_preview: "length (fold preview_step es []) \<le> 1"
  using previews.run_inv [of "[]" es] by simp

text \<open>
  The load listener shows whatever window is there: when the image of an earlier link arrives
  late, the window of the link under the pointer is shown before its own image is there.
\<close>

lemma late_image_shows_next_window:
  "fold preview_step [Over w c a, Over w c b, Loaded True] [] =
     [\<lparr>image = b, max_width = fst w - (fst c + 40), max_height = snd w - (snd c + 20), faded_in = True\<rparr>]"
  by (simp add: preview_step_def on_preview_over_def on_preview_load_def fade_first_def preview_offset_x_def preview_offset_y_def)

end
