(* ===== verification/Swagger_Auth.thy ===== *)
theory Swagger_Auth
  imports Json
begin

text \<open>
  The credentials of the API documentation page, \<open>core/templates/swagger_ui.js\<close>: which
  header a request gets from the authorizations of the user (\<open>injectAuthCredentials\<close>,
  \<open>requestInterceptor\<close>), and the reload of the schema after a failed request and after a
  change of the authorizations (\<open>responseInterceptor\<close>, \<open>reloadSchemaOnAuthChange\<close>). The
  Swagger UI is a library; \<open>btoa\<close> is the browser's base64 encoder, a parameter.
\<close>

section \<open>Headers\<close>

record auth_schema =
  s_type :: string
  s_scheme :: "string option"
  s_in :: "string option"
  s_name :: string
  s_description :: "string option"

datatype credential = Token string | Login string string

record auth_def =
  a_schema :: "auth_schema option"
  a_value :: credential

definition value_text :: "credential \<Rightarrow> string" where
  "value_text c = (case c of Token t \<Rightarrow> t | Login u p \<Rightarrow> ''[object Object]'')"

text \<open>Adding \<open>undefined\<close> to a string.\<close>

definition login_text :: "credential \<Rightarrow> string" where
  "login_text c = (case c of Login u p \<Rightarrow> u @ '':'' @ p | Token t \<Rightarrow> ''undefined:undefined'')"

definition token_description :: string where
  "token_description = ''Token-based authentication with required prefix \"Token\"''"

text \<open>
  The header of one authorization: \<open>Inr None\<close> when the loop goes on, \<open>Inl\<close> when reading the
  value throws.
\<close>

definition auth_header ::
    "(string \<Rightarrow> string) \<Rightarrow> auth_schema \<Rightarrow> credential \<Rightarrow> js_error + (string \<times> string) option" where
  "auth_header btoa s v =
     (if s_type s = ''http'' \<and> s_scheme s = Some ''bearer'' then
        Inr (Some (''Authorization'', ''Bearer '' @ value_text v))
      else if s_type s = ''http'' \<and> s_scheme s = Some ''basic'' then
        Inr (Some (''Authorization'', ''Basic '' @ btoa (login_text v)))
      else if s_type s = ''apiKey'' \<and> s_in s = Some ''header'' \<and> s_description s = Some token_description then
        (case v of
           Login _ _ \<Rightarrow> Inl TypeError
         | Token t \<Rightarrow>
             Inr (Some (''Authorization'', if starts_with ''Token '' t then t else ''Token '' @ t)))
      else if s_type s = ''apiKey'' \<and> s_in s = Some ''header'' then Inr (Some (s_name s, value_text v))
      else Inr None)"

fun inject_from ::
    "(string \<Rightarrow> string) \<Rightarrow> auth_def obj \<Rightarrow> string list \<Rightarrow> string obj \<Rightarrow> js_error + string obj" where
  "inject_from btoa auths [] headers = Inr headers"
| "inject_from btoa auths (n # ns) headers =
     (case oget auths n of
        None \<Rightarrow> inject_from btoa auths ns headers
      | Some d \<Rightarrow>
          (case a_schema d of
             None \<Rightarrow> inject_from btoa auths ns headers
           | Some s \<Rightarrow>
               (case auth_header btoa s (a_value d) of
                  Inl e \<Rightarrow> Inl e
                | Inr (Some (k, v)) \<Rightarrow> Inr (oset k v headers)
                | Inr None \<Rightarrow> inject_from btoa auths ns headers)))"

text \<open>
  The authorizations come from the user interface once it is there (an empty object counts as
  none), before that from the local storage, where \<open>undefined\<close> and the text of an empty object
  count as none. \<open>read_auths\<close> stands for reading them from the stored text.
\<close>

definition current_auths ::
    "auth_def obj option option \<Rightarrow> (string \<Rightarrow> js_error + auth_def obj) \<Rightarrow> string option \<Rightarrow>
     js_error + auth_def obj option" where
  "current_auths ui read_auths stored =
     (case ui of
        Some state \<Rightarrow>
          (case state of Some a \<Rightarrow> Inr (if a \<noteq> [] then Some a else None) | None \<Rightarrow> Inr None)
      | None \<Rightarrow>
          (case stored of
             None \<Rightarrow> Inr None
           | Some t \<Rightarrow>
               if t = ''{}'' then Inr None
               else (case read_auths t of Inl e \<Rightarrow> Inl e | Inr a \<Rightarrow> Inr (Some a))))"

definition inject_auth_credentials ::
    "(string \<Rightarrow> string) \<Rightarrow> string list \<Rightarrow> js_error + auth_def obj option \<Rightarrow> string obj \<Rightarrow>
     js_error + string obj" where
  "inject_auth_credentials btoa names auths headers =
     (case auths of
        Inl e \<Rightarrow> Inl e
      | Inr None \<Rightarrow> Inr headers
      | Inr (Some a) \<Rightarrow> inject_from btoa a names headers)"

record api_request =
  req_method :: "string option"
  req_credentials :: string
  req_headers :: "string obj"

definition request_interceptor ::
    "(string \<Rightarrow> string) \<Rightarrow> string list \<Rightarrow> string \<times> string \<Rightarrow> bool \<Rightarrow> js_error + auth_def obj option \<Rightarrow>
     api_request \<Rightarrow> api_request" where
  "request_interceptor btoa names csrf failed auths r =
     (let r1 =
        (if names \<noteq> [] \<and> \<not> failed then
           (case inject_auth_credentials btoa names auths (req_headers r) of
              Inl e \<Rightarrow> r
            | Inr hs \<Rightarrow> r\<lparr>req_headers := hs\<rparr>)
         else r)
      in if req_method r1 \<noteq> Some ''GET'' \<and> req_method r1 \<noteq> None \<and> req_credentials r1 = ''same-origin''
         then r1\<lparr>req_headers := oset (fst csrf) (snd csrf) (req_headers r1)\<rparr>
         else r1)"

lemma inject_writes_one_header:
  "inject_from btoa auths ns hs = Inr hs' \<Longrightarrow> hs' = hs \<or> (\<exists>k v. hs' = oset k v hs)"
proof (induction ns)
  case (Cons n ns)
  then show ?case by (auto split: option.splits sum.splits)
qed simp


definition demo_schema :: auth_schema where
  "demo_schema = \<lparr>s_type = ''apiKey'', s_scheme = None, s_in = Some ''header'', s_name = ''Authorization'',
     s_description = Some token_description\<rparr>"


section \<open>Reloading the schema\<close>

text \<open>\<open>scheduled\<close> counts the reloads that are waiting in a task, \<open>sent\<close> those that were started.\<close>

record schema_state =
  schema_auth_failed :: bool
  scheduled :: nat
  sent :: nat

datatype schema_event =
  Response bool bool
| Auth_Change
| Run_Tasks

definition response_interceptor :: "bool \<Rightarrow> bool \<Rightarrow> schema_state \<Rightarrow> schema_state" where
  "response_interceptor ok is_schema s =
     (if \<not> ok \<and> is_schema \<and> \<not> schema_auth_failed s
      then s\<lparr>schema_auth_failed := True, scheduled := Suc (scheduled s)\<rparr>
      else s)"

definition on_auth_change :: "schema_state \<Rightarrow> schema_state" where
  "on_auth_change s = s\<lparr>schema_auth_failed := False, scheduled := Suc (scheduled s)\<rparr>"

definition schema_step :: "bool \<Rightarrow> schema_event \<Rightarrow> schema_state \<Rightarrow> schema_state" where
  "schema_step has_names e s =
     (case e of
        Response ok is_schema \<Rightarrow> response_interceptor ok is_schema s
      | Auth_Change \<Rightarrow> if has_names then on_auth_change s else s
      | Run_Tasks \<Rightarrow> s\<lparr>sent := sent s + scheduled s, scheduled := 0\<rparr>)"

definition auth_changes :: "schema_event list \<Rightarrow> nat" where
  "auth_changes es = length (filter (\<lambda>e. e = Auth_Change) es)"

lemma schema_step_bound:
  "sent (schema_step h e s) + scheduled (schema_step h e s) + (if schema_auth_failed (schema_step h e s) then 0 else 1) \<le>
     sent s + scheduled s + (if schema_auth_failed s then 0 else 1) + (if e = Auth_Change then 2 else 0)"
  by (cases e) (auto simp: schema_step_def response_interceptor_def on_auth_change_def)

lemma schema_run_bound:
  "sent (fold (schema_step h) es s) + scheduled (fold (schema_step h) es s) +
     (if schema_auth_failed (fold (schema_step h) es s) then 0 else 1) \<le>
   sent s + scheduled s + (if schema_auth_failed s then 0 else 1) + 2 * auth_changes es"
proof (induction es arbitrary: s)
  case (Cons e es)
  let ?t = "schema_step h e s"
  have "sent (fold (schema_step h) es ?t) + scheduled (fold (schema_step h) es ?t) +
      (if schema_auth_failed (fold (schema_step h) es ?t) then 0 else 1) \<le>
      sent ?t + scheduled ?t + (if schema_auth_failed ?t then 0 else 1) + 2 * auth_changes es"
    by (rule Cons.IH)
  also have "\<dots> \<le> sent s + scheduled s + (if schema_auth_failed s then 0 else 1) +
      (if e = Auth_Change then 2 else 0) + 2 * auth_changes es"
    using schema_step_bound [of h e s] by simp
  also have "\<dots> = sent s + scheduled s + (if schema_auth_failed s then 0 else 1) + 2 * auth_changes (e # es)"
    by (simp add: auth_changes_def)
  finally show ?case by simp
qed (simp add: auth_changes_def)

text \<open>
  C35: A schema that keeps being refused is not requested for ever: however many responses
  fail, from a page that was just opened at most one reload is made in answer to them, and at
  most two more for each change of the authorizations.
\<close>

theorem schema_reloads_are_bounded:
  "sent (fold (schema_step h) es \<lparr>schema_auth_failed = False, scheduled = 0, sent = 0\<rparr>) \<le> 1 + 2 * auth_changes es"
  using schema_run_bound [of h es "\<lparr>schema_auth_failed = False, scheduled = 0, sent = 0\<rparr>"] by simp

end
