(* ===== verification/Code_Editor.thy ===== *)
theory Code_Editor
  imports Json
begin

text \<open>
  The embedded code editor, \<open>project-static/js/editor.js\<close>: the options an instance is made
  with, the loading of the Monaco library, which all instances share, the height of the
  container, and disposing. Monaco itself is a library: \<open>create\<close> and \<open>layout\<close> are events the
  wrapper sends, the content heights are what it reports.
\<close>

section \<open>Options\<close>

definition base_common :: "json obj" where
  "base_common =
     [(''automaticLayout'', JBool True), (''scrollBeyondLastLine'', JBool False),
      (''lineDecorationsWidth'', JNum 0), (''lineNumbers'', JStr ''off''), (''wordWrap'', JStr ''off''),
      (''renderWhitespace'', JStr ''none''),
      (''guides'', JObj [(''indentation'', JBool False), (''highlightActiveIndentation'', JBool False),
         (''bracketPairs'', JBool False)]),
      (''readOnly'', JBool True), (''contextmenu'', JBool False), (''matchBrackets'', JStr ''never''),
      (''accessibilitySupport'', JStr ''auto''), (''minimap'', JObj [(''enabled'', JBool False)]),
      (''renderLineHighlight'', JStr ''none''), (''hideCursorInOverviewRuler'', JBool True),
      (''overviewRuler'', JObj [(''border'', JBool False), (''lanes'', JNum 0), (''renderOverviewRuler'', JBool False)]),
      (''scrollbar'', JObj [(''useShadows'', JBool False), (''verticalScrollbarSize'', JNum 8),
         (''horizontalScrollbarSize'', JNum 8), (''alwaysConsumeMouseWheel'', JBool False),
         (''arrowSize'', JNum 0), (''handleMouseWheel'', JBool True)])]"

definition base_diff :: "json obj" where
  "base_diff =
     [(''enableSplitViewResizing'', JBool False), (''renderSideBySide'', JBool True),
      (''useInlineViewWhenSpaceIsLimited'', JBool False)]"

text \<open>The data attributes of the host and the theme of the document.\<close>

record host =
  h_mode :: "string option"
  h_lang :: "string option"
  h_value :: "string option"
  h_original :: "string option"
  h_modified :: "string option"
  h_options :: "string option"

record config =
  is_diff :: bool
  language :: string
  theme_name :: string
  c_value :: string
  c_original :: string
  c_modified :: string
  c_options :: "json obj"

definition or_text :: "string option \<Rightarrow> string \<Rightarrow> string" where
  "or_text v d = (case v of Some t \<Rightarrow> if t = [] then d else t | None \<Rightarrow> d)"

definition make_config :: "string option \<Rightarrow> host \<Rightarrow> js_error + config" where
  "make_config doc_theme h =
     (case json_parse (or_text (h_options h) ''{}'') of
        None \<Rightarrow> Inl SyntaxError
      | Some v \<Rightarrow>
          Inr \<lparr>is_diff = (h_mode h = Some ''diff''), language = or_text (h_lang h) ''text'',
            theme_name = (if doc_theme = Some ''dark'' then ''vs-dark'' else ''vs''),
            c_value = or_text (h_value h) [], c_original = or_text (h_original h) [],
            c_modified = or_text (h_modified h) [], c_options = ospread [] (own_entries (Some v))\<rparr>)"

definition editor_options :: "config \<Rightarrow> json obj" where
  "editor_options c =
     (let opts = ospread (ospread base_common (if is_diff c then base_diff else [])) (c_options c)
      in ospread [(''theme'', JStr (theme_name c)), (''language'', JStr (language c))] opts)"

text \<open>What reaches Monaco: a standard editor with its value, or a diff editor with two models.\<close>

datatype creation = Standard "json obj" | Diff "json obj" string string

definition created :: "config \<Rightarrow> creation" where
  "created c =
     (if is_diff c then Diff (editor_options c) (c_original c) (c_modified c)
      else Standard (oset ''value'' (JStr (c_value c)) (editor_options c)))"

lemma wf_bases: "wf_obj base_common" "wf_obj base_diff" "wf_obj [(''theme'', a), (''language'', b)]"
  by (simp_all add: wf_obj_def base_common_def base_diff_def)

lemma oget_config_options:
  "make_config th h = Inr c \<Longrightarrow> wf_obj (c_options c)"
  by (auto simp: make_config_def wf_obj_def split: option.splits intro!: wf_obj_ospread [unfolded wf_obj_def])

text \<open>
  Options of the host win over the common ones; an editor is read only unless its host says
  otherwise.
\<close>

lemma host_options_win:
  assumes "make_config th h = Inr c"
  shows "oget (editor_options c) k =
    (case oget (c_options c) k of
       Some v \<Rightarrow> Some v
     | None \<Rightarrow>
         (case (if is_diff c then oget base_diff k else None) of
            Some v \<Rightarrow> Some v
          | None \<Rightarrow>
              (case oget base_common k of
                 Some v \<Rightarrow> Some v
               | None \<Rightarrow> oget [(''theme'', JStr (theme_name c)), (''language'', JStr (language c))] k)))"
proof -
  let ?b = "ospread base_common (if is_diff c then base_diff else [])"
  have wc: "wf_obj (c_options c)" using oget_config_options [OF assms] .
  have wb: "wf_obj (ospread ?b (c_options c))" using wf_bases by simp
  have wd: "wf_obj (if is_diff c then base_diff else [])" using wf_bases by (simp add: wf_obj_def)
  show ?thesis
    unfolding editor_options_def Let_def oget_ospread [OF wb] oget_ospread [OF wc] oget_ospread [OF wd]
    by (auto split: option.splits)
qed

section \<open>Loading the library\<close>

text \<open>
  The loader is a promise that every instance waits for: at most one script element is added.
  A host is waiting, has its editor, or shows the error text.
\<close>

datatype loader = Not_Started | Loading_Script | Loaded | Failed

datatype host_state = Waiting | Has_Editor creation | Shows_Error

record editor_page =
  monaco :: loader
  scripts_added :: nat
  doc_theme :: "string option"
  hosts :: "(host \<times> host_state) list"

definition load_monaco :: "editor_page \<Rightarrow> editor_page" where
  "load_monaco p =
     (case monaco p of
        Not_Started \<Rightarrow> p\<lparr>monaco := Loading_Script, scripts_added := Suc (scripts_added p)\<rparr>
      | _ \<Rightarrow> p)"

definition build :: "string option \<Rightarrow> host \<Rightarrow> host_state" where
  "build th h = (case make_config th h of Inl e \<Rightarrow> Shows_Error | Inr c \<Rightarrow> Has_Editor (created c))"

text \<open>
  \<open>DOMContentLoaded\<close>: every container asks for the library and is built as soon as the promise
  is settled, which it is already when the page had loaded the library before.
\<close>

definition settle_hosts :: "bool \<Rightarrow> editor_page \<Rightarrow> editor_page" where
  "settle_hosts ok p =
     p\<lparr>hosts := map (\<lambda>(h, s). (h, if ok then build (doc_theme p) h else Shows_Error)) (hosts p)\<rparr>"

definition on_ready :: "editor_page \<Rightarrow> editor_page" where
  "on_ready p =
     (let q = fold (\<lambda>_. load_monaco) (hosts p) p
      in case monaco q of
           Loaded \<Rightarrow> settle_hosts True q
         | Failed \<Rightarrow> settle_hosts False q
         | _ \<Rightarrow> q)"

definition on_loader :: "bool \<Rightarrow> editor_page \<Rightarrow> editor_page" where
  "on_loader ok p =
     (if monaco p = Loading_Script
      then settle_hosts ok (p\<lparr>monaco := (if ok then Loaded else Failed)\<rparr>)
      else p)"

lemma on_ready_loads:
  "hosts p \<noteq> [] \<Longrightarrow> monaco p = Not_Started \<Longrightarrow>
     on_ready p = p\<lparr>monaco := Loading_Script, scripts_added := Suc (scripts_added p)\<rparr>"
proof -
  have stay: "fold (\<lambda>_. load_monaco) hs q = q" if "monaco q = Loading_Script" for hs and q :: editor_page
    using that by (induction hs) (auto simp: load_monaco_def)
  assume "hosts p \<noteq> []" "monaco p = Not_Started"
  then obtain h hs where "hosts p = h # hs" "monaco p = Not_Started" by (cases "hosts p") auto
  then show ?thesis by (simp add: on_ready_def load_monaco_def stay)
qed

text \<open>
  C30: However many editors a page has, the library is loaded once, and every host ends up with
  its editor or with the error text: with the error text exactly when the library could not
  be loaded or the options of that very host are not JSON, so that a broken host does not
  spoil the others.
\<close>

theorem editors_fail_alone:
  assumes "hosts p \<noteq> []" and "monaco p = Not_Started" and "scripts_added p = 0"
  shows "scripts_added (on_loader ok (on_ready p)) = 1 \<and>
    map fst (hosts (on_loader ok (on_ready p))) = map fst (hosts p) \<and>
    list_all (\<lambda>(h, s). s \<noteq> Waiting \<and>
      (s = Shows_Error) = (\<not> ok \<or> json_parse (or_text (h_options h) ''{}'') = None))
      (hosts (on_loader ok (on_ready p)))"
proof -
  have "build th h \<noteq> Waiting \<and> (build th h = Shows_Error) = (json_parse (or_text (h_options h) ''{}'') = None)"
    for th h by (auto simp: build_def make_config_def split: option.split)
  then show ?thesis
    using assms by (cases ok) (auto simp: on_ready_loads on_loader_def settle_hosts_def list_all_iff)
qed

definition demo_host :: "string option \<Rightarrow> host" where
  "demo_host o' = \<lparr>h_mode = None, h_lang = Some ''json'', h_value = Some ''1'', h_original = None,
     h_modified = None, h_options = o'\<rparr>"

definition demo_editors :: editor_page where
  "demo_editors = \<lparr>monaco = Not_Started, scripts_added = 0, doc_theme = None,
     hosts = [(demo_host None, Waiting), (demo_host (Some ''{''), Waiting)]\<rparr>"

lemma editors_fail_alone_witness:
  "scripts_added (on_loader True (on_ready demo_editors)) = 1 \<and>
   map (\<lambda>(h, s). s = Shows_Error) (hosts (on_loader True (on_ready demo_editors))) = [False, True]"
proof -
  have "hosts demo_editors \<noteq> []" "monaco demo_editors = Not_Started" "scripts_added demo_editors = 0"
    by (simp_all add: demo_editors_def)
  from editors_fail_alone [OF this, of True]
  have "scripts_added (on_loader True (on_ready demo_editors)) = 1" by blast
  moreover have "map (\<lambda>(h, s). s = Shows_Error) (hosts (on_loader True (on_ready demo_editors))) = [False, True]"
    by code_simp
  ultimately show ?thesis by simp
qed

section \<open>The height of the container\<close>

text \<open>
  The content heights of the editors of an instance: one, or two for a diff editor; the
  \<open>maxHeight\<close> of the computed style is a text like \<open>500px\<close> or \<open>none\<close>.
\<close>

definition editor_height :: "int list \<Rightarrow> string \<Rightarrow> int" where
  "editor_height hs max_height =
     (let h = Max (set (map (\<lambda>h. h + 5) hs))
      in case parse_int max_height of None \<Rightarrow> h | Some m \<Rightarrow> min h m)"

text \<open>
  A container is as high as its highest editor with a margin of 5, unless the style
  limits it, and then never higher than the limit; every editor that fits the limit is shown
  whole.
\<close>

theorem editor_height_bounds:
  assumes "hs \<noteq> []"
  shows "(\<forall>m. parse_int max_height = Some m \<longrightarrow> editor_height hs max_height \<le> m) \<and>
    (\<forall>h \<in> set hs. h + 5 \<le> editor_height hs max_height \<or>
       (\<exists>m. parse_int max_height = Some m \<and> m < h + 5)) \<and>
    (editor_height hs max_height \<in> (\<lambda>h. h + 5) ` set hs \<or> parse_int max_height = Some (editor_height hs max_height))"
proof -
  let ?S = "set (map (\<lambda>h. h + 5) hs)"
  have fin: "finite ?S" "?S \<noteq> {}" using assms by auto
  have "Max ?S \<in> ?S" using Max_in [OF fin] .
  moreover have "h + 5 \<le> Max ?S" if "h \<in> set hs" for h using that by (intro Max_ge) auto
  ultimately show ?thesis
    by (auto simp: editor_height_def Let_def min_def split: option.splits)
qed

lemma editor_height_bounds_witness: "editor_height [100, 700] ''500px'' \<le> 500"
proof -
  have "parse_int ''500px'' = Some 500" by code_simp
  with editor_height_bounds [of "[100, 700]" "''500px''"] show ?thesis by simp
qed

section \<open>Life of an instance\<close>

text \<open>
  An instance: whether it has its editor, the listeners and models not yet disposed of, the
  debounced resize, and a log of the layouts.
\<close>

record editor_inst =
  alive :: bool
  diff_mode :: bool
  listeners :: nat
  models :: nat
  observing :: bool
  resize_waiting :: bool
  layouts :: nat

datatype instance_event = Content_Changed | Resized | Resize_Timer | Dispose

definition new_instance :: "bool \<Rightarrow> editor_inst" where
  "new_instance d = \<lparr>alive = True, diff_mode = d, listeners = (if d then 2 else 1), models = (if d then 2 else 1),
     observing = True, resize_waiting = False, layouts = 0\<rparr>"

definition update_height :: "editor_inst \<Rightarrow> editor_inst" where
  "update_height i = (if \<not> alive i then i else i\<lparr>layouts := Suc (layouts i)\<rparr>)"

definition on_resize_timer :: "editor_inst \<Rightarrow> editor_inst" where
  "on_resize_timer i =
     (if resize_waiting i
      then update_height (if alive i then i\<lparr>resize_waiting := False, layouts := Suc (layouts i)\<rparr>
                          else i\<lparr>resize_waiting := False\<rparr>)
      else i)"

definition dispose :: "editor_inst \<Rightarrow> editor_inst" where
  "dispose i =
     (if \<not> alive i then i
      else i\<lparr>alive := False, listeners := 0, models := 0, observing := False\<rparr>)"

definition instance_step :: "instance_event \<Rightarrow> editor_inst \<Rightarrow> editor_inst" where
  "instance_step e i =
     (case e of
        Content_Changed \<Rightarrow> if 0 < listeners i then update_height i else i
      | Resized \<Rightarrow> if observing i then i\<lparr>resize_waiting := True\<rparr> else i
      | Resize_Timer \<Rightarrow> on_resize_timer i
      | Dispose \<Rightarrow> dispose i)"

lemma disposed_step:
  "\<not> alive i \<Longrightarrow> listeners i = 0 \<Longrightarrow> \<not> observing i \<Longrightarrow>
     \<not> alive (instance_step e i) \<and> listeners (instance_step e i) = 0 \<and> \<not> observing (instance_step e i) \<and>
     layouts (instance_step e i) = layouts i \<and> models (instance_step e i) = models i"
  by (cases e) (auto simp: instance_step_def update_height_def on_resize_timer_def dispose_def)

lemma disposed_run:
  "\<not> alive i \<Longrightarrow> listeners i = 0 \<Longrightarrow> \<not> observing i \<Longrightarrow>
     \<not> alive (fold instance_step es i) \<and> layouts (fold instance_step es i) = layouts i \<and>
     models (fold instance_step es i) = models i"
proof (induction es arbitrary: i)
  case (Cons e es)
  then show ?case using disposed_step [of i e] by simp
qed simp

lemma nothing_after_dispose:
  assumes "alive i"
  shows "layouts (fold instance_step es (dispose i)) = layouts i \<and> models (fold instance_step es (dispose i)) = 0"
  using assms disposed_run [of "dispose i" es] by (simp add: dispose_def)

section \<open>The worker\<close>

text \<open>
  \<open>createWorkerEnv\<close>: the code of the worker names both addresses in full, and is made into a
  URL once for all editors. \<open>resolve\<close> is \<open>new URL(path, window.location.origin).href\<close>,
  \<open>object_url\<close> is \<open>URL.createObjectURL\<close> of a script with the given text.
\<close>

definition monaco_base :: "string \<Rightarrow> string" where
  "monaco_base static_url = static_url @ ''monaco-editor-0.52.2''"

definition loader_src :: "string \<Rightarrow> string" where
  "loader_src static_url = monaco_base static_url @ ''/vs/loader.js''"

definition worker_statements :: "(string \<Rightarrow> string) \<Rightarrow> string \<Rightarrow> string list" where
  "worker_statements resolve static_url =
     [''self.MonacoEnvironment = { baseUrl: '' @ [CHR 0x27] @ resolve (monaco_base static_url) @ [CHR 0x27] @ '' };'',
      ''importScripts('' @ [CHR 0x27] @ resolve (monaco_base static_url @ ''/vs/base/worker/workerMain.js'') @ [CHR 0x27] @ '');'']"

definition create_worker_env ::
    "(string list \<Rightarrow> string) \<Rightarrow> (string \<Rightarrow> string) \<Rightarrow> string \<Rightarrow> string option \<Rightarrow> string option" where
  "create_worker_env object_url resolve static_url cached =
     (case cached of
        Some u \<Rightarrow> Some u
      | None \<Rightarrow> Some (object_url (worker_statements resolve static_url)))"

text \<open>However often the environment is made, the URL of the worker is the one made first.\<close>

lemma worker_url_made_once:
  "(create_worker_env object_url resolve static_url ^^ Suc n) None =
     Some (object_url (worker_statements resolve static_url))"
  by (induction n) (simp_all add: create_worker_env_def)

end
