(* ===== verification/Branch_Picker.thy ===== *)
theory Branch_Picker
  imports Form_Widgets
begin

text \<open>
  The version-control part of the side navigation, \<open>initializeSidenav\<close> of
  \<open>ui/src/js/sidenav.js\<close>: the forms that select a branch and a date to travel to, which post
  the address to return to. The date picker and the combo box are libraries: their callbacks
  are events here.
\<close>

section \<open>Return addresses\<close>

text \<open>
  An address as \<open>new URL\<close> reads it: what stands before the query, the decoded entries of the
  query in order, and the fragment. \<open>return_url\<close> is the value of a field read as an address,
  \<open>None\<close> where it is not an absolute address and \<open>new URL\<close> throws.
\<close>

record address =
  before_query :: string
  query :: "(string \<times> string) list"
  fragment :: string

record picker_page = widget_page +
  return_url :: "uid \<Rightarrow> address option"

text \<open>\<open>searchParams.delete\<close> with one argument removes every entry of the key.\<close>

definition delete_key :: "string \<Rightarrow> address \<Rightarrow> address" where
  "delete_key k a = a\<lparr>query := filter (\<lambda>q. fst q \<noteq> k) (query a)\<rparr>"

definition clean_address :: "address \<Rightarrow> address" where
  "clean_address a = delete_key ''version_control_time_travel_date'' (delete_key ''branch'' a)"

definition clean_return_field :: "string \<Rightarrow> picker_page \<Rightarrow> picker_page outcome" where
  "clean_return_field i p =
     (case by_id p i of
        None \<Rightarrow> Done p
      | Some u \<Rightarrow>
          (case return_url p u of
             None \<Rightarrow> Throw TypeError p
           | Some a \<Rightarrow> Done (p\<lparr>return_url := (return_url p)(u := Some (clean_address a))\<rparr>)))"

section \<open>The branch\<close>

definition on_branch_change :: "uid \<Rightarrow> picker_page \<Rightarrow> picker_page outcome" where
  "on_branch_change select p = submit_form_of select p"

definition in_dropdown :: "'a page_scheme \<Rightarrow> uid \<Rightarrow> bool" where
  "in_dropdown p u \<longleftrightarrow> list_ex (\<lambda>v. has_class ''select2-dropdown'' (heap p v)) (tl (path_to u (doc p)))"

definition on_branch_open :: "picker_page \<Rightarrow> picker_page outcome" where
  "on_branch_open p =
     (case doc_qs p (has_class ''select2-dropdown'') of
        None \<Rightarrow> Throw TypeError p
      | Some d \<Rightarrow>
          (let q = upd d (set_attr ''data-bs-theme'' ''dark'') p
           in case first_of (filter (in_dropdown q) (doc_qsa q (has_class ''select2-search__field''))) of
                None \<Rightarrow> Throw TypeError q
              | Some f \<Rightarrow> Done (upd f (set_attr ''placeholder'' ''Find a branch...'') q)))"

section \<open>The date\<close>

text \<open>The button that clears the date shows exactly when there is one.\<close>

definition show_cancel :: "string \<Rightarrow> picker_page \<Rightarrow> picker_page outcome" where
  "show_cancel date p =
     (case by_id p ''timetravel-cancel'' of
        None \<Rightarrow> Throw TypeError p
      | Some c \<Rightarrow> Done (upd c (class_toggle ''d-none'' (Some (date = []))) p))"

definition blur :: "uid \<Rightarrow> 'a page_scheme \<Rightarrow> 'a page_scheme" where
  "blur u p = (if focus p = Some u then p\<lparr>focus := None\<rparr> else p)"

definition on_date_change :: "uid \<Rightarrow> string \<Rightarrow> picker_page \<Rightarrow> picker_page outcome" where
  "on_date_change inp date p = and_then (show_cancel date (blur inp p)) (submit_form_of inp)"

definition init_time_travel :: "string \<Rightarrow> picker_page \<Rightarrow> picker_page outcome" where
  "init_time_travel date p =
     (case by_id p ''sidenav-timetravel-picker'' of None \<Rightarrow> Done p | Some u \<Rightarrow> show_cancel date p)"

text \<open>The part of the initialization that follows the fly-outs; \<open>date\<close> is the value of the date field.\<close>

definition init_version_control :: "string \<Rightarrow> picker_page \<Rightarrow> picker_page outcome" where
  "init_version_control date p =
     and_then (clean_return_field ''sidenav-branch-picker-return-url'' p)
       (\<lambda>q. and_then (clean_return_field ''sidenav-timetravel-return-url'' q) (init_time_travel date))"

section \<open>What the forms return to and when they are sent\<close>

definition control_key :: "string \<times> string \<Rightarrow> bool" where
  "control_key q \<longleftrightarrow> fst q = ''branch'' \<or> fst q = ''version_control_time_travel_date''"

lemma clean_address_eq: "clean_address a = a\<lparr>query := filter (\<lambda>q. \<not> control_key q) (query a)\<rparr>"
  by (auto simp: clean_address_def delete_key_def control_key_def intro!: filter_cong)

lemma clean_address_idem [simp]: "clean_address (clean_address a) = clean_address a"
  by (simp add: clean_address_eq)

lemma show_cancel_frame:
  "show_cancel date p = Done q \<Longrightarrow>
    doc q = doc p \<and> return_url q = return_url p \<and> submitted q = submitted p \<and>
    (\<forall>u. attrs (heap q u) = attrs (heap p u)) \<and> (\<forall>u. tag (heap q u) = tag (heap p u))"
  by (auto simp: show_cancel_def heap_upd upd_def split: option.splits)

lemma clean_return_field_frame:
  assumes "clean_return_field i p = Done q"
  shows "doc q = doc p" and "heap q = heap p" and "submitted q = submitted p"
    and "return_url q u = (if by_id p i = Some u then map_option clean_address (return_url p u) else return_url p u)"
  using assms by (auto simp: clean_return_field_def split: option.splits)

lemma and_then_DoneE:
  assumes "and_then m f = Done q"
  obtains r where "m = Done r" and "f r = Done q"
  using assms by (cases m) auto

lemma by_id_cong:
  "doc q = doc p \<Longrightarrow> (\<And>u. attrs (heap q u) = attrs (heap p u)) \<Longrightarrow> by_id q i = by_id p i"
  by (simp add: by_id_def doc_qs_def doc_qsa_def has_id_def get_attr_def)

text \<open>
  Once the side navigation is initialized neither form returns to an address that names a
  branch or a date, which would override the one the form has just selected; the rest of the
  address is as it was.
\<close>

lemma return_addresses_are_clean:
  assumes "init_version_control date p = Done q"
    and "by_id p i = Some u" and "i \<in> {''sidenav-branch-picker-return-url'', ''sidenav-timetravel-return-url''}"
  shows "\<exists>a. return_url p u = Some a \<and> return_url q u = Some (a\<lparr>query := filter (\<lambda>e. \<not> control_key e) (query a)\<rparr>)"
proof -
  let ?c1 = "clean_return_field ''sidenav-branch-picker-return-url''"
  let ?c2 = "clean_return_field ''sidenav-timetravel-return-url''"
  from assms(1) obtain p1 p2 where 1: "?c1 p = Done p1" and 2: "?c2 p1 = Done p2" and 3: "init_time_travel date p2 = Done q"
    unfolding init_version_control_def by (blast elim: and_then_DoneE)
  have q: "return_url q = return_url p2" using 3 show_cancel_frame by (auto simp: init_time_travel_def split: option.splits)
  have id: "by_id p1 j = by_id p j" for j using clean_return_field_frame [OF 1] by (intro by_id_cong) simp_all
  note after = clean_return_field_frame(4) [OF 2, of u] clean_return_field_frame(4) [OF 1, of u]
  have "\<exists>a. return_url p u = Some a \<and> return_url p2 u = Some (clean_address a)"
  proof (cases "i = ''sidenav-branch-picker-return-url''")
    case True
    then have b: "by_id p ''sidenav-branch-picker-return-url'' = Some u" using assms(2) by simp
    with 1 have "return_url p u \<noteq> None" by (auto simp: clean_return_field_def split: option.splits)
    with after b show ?thesis by (cases "return_url p u") simp_all
  next
    case False
    then have b: "by_id p1 ''sidenav-timetravel-return-url'' = Some u" using assms(2,3) id by simp
    with 2 have "return_url p1 u \<noteq> None" by (auto simp: clean_return_field_def split: option.splits)
    with after b show ?thesis
      by (cases "return_url p u"; cases "by_id p ''sidenav-branch-picker-return-url'' = Some u") simp_all
  qed
  then show ?thesis by (auto simp: q clean_address_eq)
qed

text \<open>Picking or clearing the date submits the form once, with the button to clear it shown as it should be.\<close>

lemma date_change_submits:
  assumes "by_id p ''timetravel-cancel'' = Some c" and "form_of p inp = Some f"
  shows "\<exists>q. on_date_change inp date p = Done q \<and> submitted q = submitted p @ [f] \<and>
    (has_class ''d-none'' (heap q c) \<longleftrightarrow> date = []) \<and> focus q \<noteq> Some inp"
proof -
  let ?p = "blur inp p"
  have b: "by_id ?p ''timetravel-cancel'' = Some c" "doc ?p = doc p" "heap ?p = heap p" "submitted ?p = submitted p"
    "focus ?p \<noteq> Some inp"
    using assms(1) by (auto simp: blur_def by_id_def doc_qs_def doc_qsa_def)
  let ?q = "upd c (class_toggle ''d-none'' (Some (date = []))) ?p"
  have "tag (heap ?q v) = tag (heap p v)" for v using b by (simp add: heap_upd)
  then have "form_of ?q inp = form_of p inp"
    using b by (simp add: form_of_def closest_def)
  with assms(2) have "submit_form_of inp ?q = Done (?q\<lparr>submitted := submitted p @ [f]\<rparr>)"
    using b by (simp add: submit_form_of_def)
  then show ?thesis using b by (simp add: on_date_change_def show_cancel_def heap_upd)
qed

text \<open>Without the button nothing is submitted: the callback throws before it gets there.\<close>

lemma date_change_without_button:
  assumes "by_id p ''timetravel-cancel'' = None"
  shows "\<exists>q. on_date_change inp date p = Throw TypeError q \<and> submitted q = submitted p"
proof -
  have "by_id (blur inp p) ''timetravel-cancel'' = None" "submitted (blur inp p) = submitted p"
    using assms by (auto simp: blur_def by_id_def doc_qs_def doc_qsa_def)
  then show ?thesis by (simp add: on_date_change_def show_cancel_def)
qed

end
