(* ===== verification/Clipboard.thy ===== *)
theory Clipboard
  imports Event_Loop
begin

text \<open>
  Feedback of the copy buttons, \<open>ui/src/js/clipboard.js\<close>: a copy shows a tooltip on its button
  and disposes of it after 1500 ms. The copying is the clipboard library's and its two events
  are the inputs here; of the tooltips of Bootstrap the model has what is documented: an
  element has at most one instance, \<open>getOrCreateInstance\<close> returns it or makes a new one, and
  \<open>dispose\<close> removes it. Instances are numbered as they are made.
\<close>

section \<open>State\<close>

record tip =
  tip_no :: nat
  tip_text :: string
  tip_shown :: bool

text \<open>
  \<open>removals\<close> holds the timers: when one is due, the button and the instance its callback
  disposes of. \<open>stale\<close> counts the calls of \<open>dispose\<close> on an instance that was gone already,
  which Bootstrap does not define.
\<close>

record copy_page =
  tips :: "nat \<Rightarrow> tip option"
  next_tip :: nat
  removals :: "(nat \<times> nat \<times> nat) list"
  stale :: nat
  selection_clears :: nat

section \<open>The callbacks\<close>

definition get_or_create :: "nat \<Rightarrow> copy_page \<Rightarrow> tip \<times> copy_page" where
  "get_or_create b s =
     (case tips s b of
        Some t \<Rightarrow> (t, s)
      | None \<Rightarrow> (\<lparr>tip_no = next_tip s, tip_text = [], tip_shown = False\<rparr>, s\<lparr>next_tip := Suc (next_tip s)\<rparr>))"

definition flash_tooltip :: "nat \<Rightarrow> nat option \<Rightarrow> string \<Rightarrow> copy_page \<Rightarrow> copy_page" where
  "flash_tooltip now trigger message s =
     (case trigger of
        None \<Rightarrow> s
      | Some b \<Rightarrow>
          (let (t, s1) = get_or_create b s
           in s1\<lparr>tips := (tips s1)(b := Some (t\<lparr>tip_text := message, tip_shown := True\<rparr>)),
                 removals := removals s1 @ [(now + 1500, b, tip_no t)]\<rparr>))"

definition on_copy_success :: "nat \<Rightarrow> nat option \<Rightarrow> copy_page \<Rightarrow> copy_page" where
  "on_copy_success now trigger s =
     (let s1 = flash_tooltip now trigger ''Copied!'' s in s1\<lparr>selection_clears := Suc (selection_clears s1)\<rparr>)"

text \<open>
  \<open>copyShortcut\<close>; the sign of the command key is not in the alphabet of the model and is
  written out.
\<close>

definition copy_shortcut :: "string \<Rightarrow> string" where
  "copy_shortcut platform =
     (if list_ex (\<lambda>w. includes_str w platform) [''Mac'', ''iPhone'', ''iPad'', ''iPod''] then ''Cmd-C'' else ''Ctrl+C'')"

definition on_copy_error :: "string \<Rightarrow> nat \<Rightarrow> nat option \<Rightarrow> copy_page \<Rightarrow> copy_page" where
  "on_copy_error platform now trigger s =
     flash_tooltip now trigger (''Press '' @ copy_shortcut platform @ '' to copy'') s"

definition dispose :: "nat \<Rightarrow> nat \<Rightarrow> copy_page \<Rightarrow> copy_page" where
  "dispose b k s =
     (case tips s b of
        None \<Rightarrow> s\<lparr>stale := Suc (stale s)\<rparr>
      | Some t \<Rightarrow>
          if tip_no t = k then s\<lparr>tips := (tips s)(b := None)\<rparr> else s\<lparr>stale := Suc (stale s)\<rparr>)"

definition run_removal :: "nat \<times> nat \<times> nat \<Rightarrow> copy_page \<Rightarrow> copy_page" where
  "run_removal r s = (case r of (due, b, k) \<Rightarrow> dispose b k (s\<lparr>removals := tl (removals s)\<rparr>))"

section \<open>No tooltip stays\<close>

text \<open>Every live instance has a timer that will dispose of it, and is shown meanwhile.\<close>

definition tips_ok :: "copy_page \<Rightarrow> bool" where
  "tips_ok s \<longleftrightarrow>
     (\<forall>b t. tips s b = Some t \<longrightarrow> tip_shown t \<and> tip_no t < next_tip s \<and> (b, tip_no t) \<in> snd ` set (removals s))"

definition tip_for :: "nat \<Rightarrow> copy_page \<Rightarrow> nat" where
  "tip_for b s = (case tips s b of None \<Rightarrow> next_tip s | Some t \<Rightarrow> tip_no t)"

lemma tip_eq: "t\<lparr>tip_text := m, tip_shown := b\<rparr> = \<lparr>tip_no = tip_no t, tip_text = m, tip_shown = b\<rparr>"
  by (cases t) simp

lemma flash_tooltip_eq:
  "flash_tooltip now None m s = s"
  "flash_tooltip now (Some b) m s =
     s\<lparr>tips := (tips s)(b \<mapsto> \<lparr>tip_no = tip_for b s, tip_text = m, tip_shown = True\<rparr>),
       next_tip := (if tips s b = None then Suc (next_tip s) else next_tip s),
       removals := removals s @ [(now + 1500, b, tip_for b s)]\<rparr>"
  by (auto simp: flash_tooltip_def get_or_create_def tip_for_def tip_eq Let_def split: option.split)

lemma tips_ok_flash:
  assumes "tips_ok s"
  shows "tips_ok (flash_tooltip now trigger m s)"
proof (cases trigger)
  case (Some b)
  have "c \<noteq> b \<Longrightarrow> tips s c = Some t \<Longrightarrow> tip_no t < Suc (next_tip s)" for c t
    using assms by (auto simp: tips_ok_def less_Suc_eq)
  then show ?thesis
    using assms unfolding tips_ok_def Some flash_tooltip_eq by (auto simp: tip_for_def image_Un)
qed (simp add: flash_tooltip_eq assms)

lemma run_removal_fields:
  "removals (run_removal r s) = tl (removals s)" "next_tip (run_removal r s) = next_tip s"
  "tips (run_removal r s) c = Some t \<longleftrightarrow> tips s c = Some t \<and> (c, tip_no t) \<noteq> snd r"
  by (auto simp: run_removal_def dispose_def split: prod.splits option.splits)

lemma tips_ok_run: "tips_ok s \<Longrightarrow> removals s = r # q \<Longrightarrow> tips_ok (run_removal r s)"
  by (fastforce simp: tips_ok_def run_removal_fields)

interpretation tooltips: task_loop removals run_removal tips_ok "\<lambda>s. length (removals s)"
  by unfold_locales (simp_all add: tips_ok_run run_removal_fields)

text \<open>Once every timer has run, one per copy, no tooltip is left on any button.\<close>

lemma tooltips_go_away:
  assumes "tips_ok s"
  shows "\<exists>t. drain removals run_removal (length (removals s)) s = Some t \<and> tips t = Map.empty"
proof -
  obtain t where t: "drain removals run_removal (length (removals s)) s = Some t" "tips_ok t" "removals t = []"
    using tooltips.comes_to_rest [OF assms order_refl] by blast
  then have "tips t = Map.empty" by (auto simp: tips_ok_def intro!: ext)
  with t show ?thesis by blast
qed

text \<open>A copy shows its message whatever was shown before.\<close>

lemma copy_shows_message:
  "\<exists>t. tips (flash_tooltip now (Some b) m s) b = Some t \<and> tip_text t = m \<and> tip_shown t"
  by (simp add: flash_tooltip_eq)

text \<open>
  A second copy before the first timer has run flashes the same instance: the tooltip goes
  with the first timer, before its own 1500 ms are over, and the second timer disposes of an
  instance that is gone.
\<close>

lemma second_copy_cut_short:
  assumes "tips s b = None" and "removals s = []"
    and "s2 = flash_tooltip t2 (Some b) m (flash_tooltip t1 (Some b) m s)"
  shows "\<exists>k. removals s2 = [(t1 + 1500, b, k), (t2 + 1500, b, k)] \<and>
    tips (run_removal (t1 + 1500, b, k) s2) b = None \<and>
    stale (run_removal (t2 + 1500, b, k) (run_removal (t1 + 1500, b, k) s2)) = Suc (stale s)"
  using assms by (simp add: flash_tooltip_eq tip_for_def run_removal_def dispose_def)

section \<open>In the course of time\<close>

text \<open>
  The page with a clock in milliseconds. Copies may succeed or fail at any moment; time
  passes; the browser runs the oldest timer once it is due, and may be late.
\<close>

inductive copy_step :: "nat \<times> copy_page \<Rightarrow> nat \<times> copy_page \<Rightarrow> bool" where
  copied: "copy_step (n, s) (n, on_copy_success n tr s)"
| refused: "copy_step (n, s) (n, on_copy_error platform n tr s)"
| wait: "copy_step (n, s) (Suc n, s)"
| expire: "removals s = r # q \<Longrightarrow> fst r \<le> n \<Longrightarrow> copy_step (n, s) (n, run_removal r s)"

inductive_simps copy_step_iff: "copy_step (n, s) (n', s')"

definition no_copies :: copy_page where
  "no_copies = \<lparr>tips = Map.empty, next_tip = 0, removals = [], stale = 0, selection_clears = 0\<rparr>"

definition timers_ok :: "nat \<Rightarrow> copy_page \<Rightarrow> bool" where
  "timers_ok n s \<longleftrightarrow> sorted (map fst (removals s)) \<and> list_all (\<lambda>r. fst r \<le> n + 1500) (removals s)"

lemma timers_ok_flash: "timers_ok n s \<Longrightarrow> timers_ok n (flash_tooltip n tr m s)"
  by (cases tr) (auto simp: timers_ok_def flash_tooltip_eq sorted_append list_all_iff)

lemma success_keeps [simp]:
  "tips (on_copy_success n tr s) = tips (flash_tooltip n tr ''Copied!'' s)"
  "removals (on_copy_success n tr s) = removals (flash_tooltip n tr ''Copied!'' s)"
  "next_tip (on_copy_success n tr s) = next_tip (flash_tooltip n tr ''Copied!'' s)"
  by (simp_all add: on_copy_success_def Let_def)

lemma copy_step_ok:
  assumes "copy_step (n, s) (n', s')" and "tips_ok s" and "timers_ok n s"
  shows "tips_ok s' \<and> timers_ok n' s'"
proof -
  have ok: "tips_ok (flash_tooltip n tr m s)" "timers_ok n (flash_tooltip n tr m s)" for tr m
    by (rule tips_ok_flash [OF assms(2)]) (rule timers_ok_flash [OF assms(3)])
  have "tips_ok (on_copy_success n tr s) \<and> timers_ok n (on_copy_success n tr s)" for tr
    using ok [of tr "''Copied!''"] by (simp add: tips_ok_def timers_ok_def)
  moreover have "tips_ok (on_copy_error platform n tr s) \<and> timers_ok n (on_copy_error platform n tr s)" for platform tr
    unfolding on_copy_error_def using ok by blast
  moreover have "timers_ok (Suc n) s" using assms(3) by (auto simp: timers_ok_def list_all_iff)
  moreover have "tips_ok (run_removal r s) \<and> timers_ok n (run_removal r s)" if "removals s = r # q" for r q
    using tips_ok_run [OF assms(2) that] assms(3) that by (simp add: timers_ok_def run_removal_fields)
  ultimately show ?thesis using assms by (auto simp: copy_step_iff)
qed

text \<open>
  At any time every tooltip that is shown has a timer that is due within 1500 ms and will
  dispose of it, and the timers come due in the order in which they were set, which is why
  the browser may run the oldest first.
\<close>

lemma tooltips_are_short:
  assumes "copy_step\<^sup>*\<^sup>* (0, no_copies) (n, s)"
  shows "sorted (map fst (removals s)) \<and>
    (\<forall>b t. tips s b = Some t \<longrightarrow> (\<exists>due \<le> n + 1500. (due, b, tip_no t) \<in> set (removals s)))"
proof -
  have "tips_ok s \<and> timers_ok n s"
    using assms
  proof (induction rule: rtranclp_induct2)
    case refl
    then show ?case by (simp add: tips_ok_def timers_ok_def no_copies_def)
  next
    case (step n s n' s')
    then show ?case using copy_step_ok by blast
  qed
  then show ?thesis by (fastforce simp: tips_ok_def timers_ok_def list_all_iff)
qed

end
