(* ===== verification/Page_Details.thy ===== *)
theory Page_Details
  imports Branch_Picker
begin

text \<open>
  What scripts do to the surroundings of their widgets: links with a tooltip lose the focus
  (\<open>ui/src/js/nautobot.js\<close>), and the count of the paginator goes once a subtree has been
  toggled (\<open>ui/src/js/tree.js\<close>).
\<close>

section \<open>Tooltips\<close>

definition has_tooltip :: "elem \<Rightarrow> bool" where
  "has_tooltip e \<longleftrightarrow> get_attr ''data-bs-toggle'' e = Some ''tooltip''"

text \<open>\<open>[data-bs-toggle="tooltip"] > a\<close>, where \<open>ok\<close> restricts the parent.\<close>

definition link_in_tooltip :: "(elem \<Rightarrow> bool) \<Rightarrow> 'a page_scheme \<Rightarrow> uid \<Rightarrow> bool" where
  "link_in_tooltip ok p u \<longleftrightarrow>
     tag (heap p u) = ''A'' \<and>
     (case parent_of p u of None \<Rightarrow> False | Some v \<Rightarrow> ok (heap p v) \<and> has_tooltip (heap p v))"

text \<open>The links that get a click listener when the page has loaded.\<close>

definition bound_links :: "'a page_scheme \<Rightarrow> uid list" where
  "bound_links p =
     filter (\<lambda>u. tag (heap p u) = ''A'' \<and> has_tooltip (heap p u) \<or> link_in_tooltip (\<lambda>e. tag e = ''DIV'') p u)
       (preorder (doc p))"

text \<open>A click on \<open>u\<close> bubbles through its ancestors and runs the listeners bound there.\<close>

definition click_link :: "uid list \<Rightarrow> uid \<Rightarrow> 'a page_scheme \<Rightarrow> 'a page_scheme" where
  "click_link bound u p = fold blur (filter (List.member bound) (path_to u (doc p))) p"

definition on_any_modal_hidden :: "'a page_scheme \<Rightarrow> 'a page_scheme" where
  "on_any_modal_hidden p = fold blur (filter (link_in_tooltip (\<lambda>e. True) p) (preorder (doc p))) p"

lemma blur_frame [simp]: "doc (blur u p) = doc p" "heap (blur u p) = heap p"
  by (simp_all add: blur_def)

lemma blur_all: "focus (fold blur us p) = (if focus p \<in> Some ` set us then None else focus p)"
  by (induction us arbitrary: p) (auto simp: blur_def)

lemma blur_all_frame: "doc (fold blur us p) = doc p" "heap (fold blur us p) = heap p"
  by (induction us arbitrary: p) auto

text \<open>After a click on such a link the focus is not on it, and whatever else had it keeps it.\<close>

lemma clicked_link_loses_focus:
  assumes "u \<in> set (bound_links p)"
  shows "focus (click_link (bound_links p) u p) \<noteq> Some u"
proof -
  have "u \<in> set (preorder (doc p))" using assms by (simp add: bound_links_def)
  then obtain ps where "path_to u (doc p) = u # ps" using path_to_hd(1) by blast
  with assms show ?thesis by (simp add: click_link_def blur_all del: fold.simps)
qed

text \<open>
  When a modal has closed, Bootstrap has given the focus back to the element that opened it;
  a link in a tooltip does not keep it, any other element does.
\<close>

lemma modal_returns_focus:
  assumes "focus p = Some u" and "u \<in> set (preorder (doc p))"
  shows "focus (on_any_modal_hidden p) = (if link_in_tooltip (\<lambda>e. True) p u then None else Some u)"
  using assms by (auto simp: on_any_modal_hidden_def blur_all)

section \<open>The count of the paginator\<close>

definition children_list :: "'a page_scheme \<Rightarrow> uid \<Rightarrow> uid list" where
  "children_list p v = (case find_sub v (doc p) of None \<Rightarrow> [] | Some (Node _ ts) \<Rightarrow> map root_of ts)"

text \<open>\<open>.a + .b\<close>: the element before it among the children of its parent.\<close>

definition follows_sibling :: "(elem \<Rightarrow> bool) \<Rightarrow> 'a page_scheme \<Rightarrow> uid \<Rightarrow> bool" where
  "follows_sibling sel p u \<longleftrightarrow>
     (case parent_of p u of
        None \<Rightarrow> False
      | Some v \<Rightarrow>
          (let cs = children_list p v in list_ex (\<lambda>(w, x). x = u \<and> sel (heap p w)) (zip cs (tl cs))))"

definition hide_first :: "uid list \<Rightarrow> 'a page_scheme \<Rightarrow> 'a page_scheme" where
  "hide_first us p =
     (case first_of us of None \<Rightarrow> p | Some u \<Rightarrow> upd u (class_toggle ''d-none'' (Some True)) p)"

definition paginator_info :: "elem \<Rightarrow> bool" where
  "paginator_info e \<longleftrightarrow> has_class ''nb-paginator-info'' e"

definition info_divider :: "'a page_scheme \<Rightarrow> uid \<Rightarrow> uid list" where
  "info_divider p g = filter (follows_sibling paginator_info p) (qsa p g (has_class ''nb-paginator-divider''))"

definition hide_pagination_info :: "'a page_scheme \<Rightarrow> 'a page_scheme" where
  "hide_pagination_info p =
     (case by_id p ''paginator'' of
        None \<Rightarrow> p
      | Some g \<Rightarrow>
          (let q = hide_first (qsa p g paginator_info) p in hide_first (info_divider q g) q))"

text \<open>A cell reacts to clicks on its caret, when it has one.\<close>

definition on_caret_click :: "uid \<Rightarrow> uid \<Rightarrow> 'a page_scheme \<Rightarrow> 'a page_scheme" where
  "on_caret_click td u p =
     (case qs p td (\<lambda>e. tag e = ''BUTTON'' \<and> has_class ''nb-subtree-expandable'' e) of
        None \<Rightarrow> p
      | Some b \<Rightarrow> if List.member (path_to u (doc p)) b then hide_pagination_info p else p)"

lemma hide_first_frame:
  "doc (hide_first us p) = doc p" "attrs (heap (hide_first us p) u) = attrs (heap p u)"
  "c \<noteq> ''d-none'' \<Longrightarrow> has_class c (heap (hide_first us p) u) = has_class c (heap p u)"
  "has_class ''d-none'' (heap p u) \<Longrightarrow> has_class ''d-none'' (heap (hide_first us p) u)"
  by (simp_all add: hide_first_def heap_upd split: option.split)

text \<open>
  After a toggle neither the count nor the divider after it shows, every other element shows as
  before, and only their \<open>d-none\<close> has changed.
\<close>

lemma count_goes:
  assumes "by_id p ''paginator'' = Some g" and "u \<in> set (take 1 (qsa p g paginator_info)) \<union> set (take 1 (info_divider p g))"
  shows "has_class ''d-none'' (heap (hide_pagination_info p) u)"
proof -
  define q where "q = hide_first (qsa p g paginator_info) p"
  have doc: "doc q = doc p" unfolding q_def by (rule hide_first_frame)
  have cls: "has_class c (heap q w) = has_class c (heap p w)" if "c \<noteq> ''d-none''" for c w
    unfolding q_def by (rule hide_first_frame(3) [OF that])
  have par: "parent_of q w = parent_of p w" "children_list q w = children_list p w" for w
    by (simp_all add: parent_of_def children_list_def doc)
  have div: "info_divider q g = info_divider p g"
    by (simp add: info_divider_def qsa_def follows_sibling_def paginator_info_def cls par doc
        cong: filter_cong option.case_cong)
  have take1: "w \<in> set (take 1 xs) \<Longrightarrow> first_of xs = Some w" for w xs
    by (cases xs) (simp_all add: first_of_def)
  have e: "hide_pagination_info p = hide_first (info_divider p g) q"
    using assms(1) div by (simp add: hide_pagination_info_def q_def [symmetric])
  from assms(2) show ?thesis
  proof
    assume "u \<in> set (take 1 (qsa p g paginator_info))"
    then have "first_of (qsa p g paginator_info) = Some u" by (rule take1)
    then have "has_class ''d-none'' (heap q u)" unfolding q_def hide_first_def by simp
    then show ?thesis unfolding e by (rule hide_first_frame(4))
  next
    assume "u \<in> set (take 1 (info_divider p g))"
    then have "first_of (info_divider p g) = Some u" by (rule take1)
    then show ?thesis unfolding e hide_first_def [of "info_divider p g"] by simp
  qed
qed

end
