(* ===== verification/History_Types.thy ===== *)
theory History_Types
  imports Drawer
begin

text \<open>
  The life of the history state across pages: \<open>ui/src/js/drawer.js\<close> reads and writes it while
  a page is shown, \<open>ui/src/js/history.js\<close> carries it to the next page. Both sides rely on its
  shape, which nothing in the scripts checks; here it is a type, and every event keeps it.
\<close>

section \<open>The shape of the state\<close>

text \<open>
  The state is \<open>null\<close> or an object, and the drawer it names, if any, is named by a string that
  is not empty.
\<close>

fun drawer_name :: "json \<Rightarrow> bool" where
  "drawer_name (JStr i) = (i \<noteq> [])"
| "drawer_name _ = False"

fun typed_state :: "json \<Rightarrow> bool" where
  "typed_state JNull = True"
| "typed_state (JObj ms) =
     (wf_json (JObj ms) \<and> (case oget ms ''drawer'' of None \<Rightarrow> True | Some v \<Rightarrow> drawer_name v))"
| "typed_state _ = False"

definition typed_option :: "json option \<Rightarrow> bool" where
  "typed_option h = (case h of None \<Rightarrow> True | Some v \<Rightarrow> typed_state v)"

definition nav_typed :: "'a nav_page_scheme \<Rightarrow> bool" where
  "nav_typed s \<longleftrightarrow> typed_option (history_state s) \<and> typed_option (stored_state s)"

lemma typed_wf: "typed_state v \<Longrightarrow> wf_json v"
  by (cases v) simp_all

lemma typed_replace:
  "typed_state v \<Longrightarrow> typed_option (history_state s) \<Longrightarrow> typed_option (history_state (replace_state v u s))"
  by (simp add: typed_option_def)

lemma stored_replace [simp]: "stored_state (replace_state v u s) = stored_state s"
  by (simp add: stored_state_def)

section \<open>Drawers keep the shape\<close>

lemma typed_entries:
  assumes "typed_option h"
  shows "wf_json (JObj (own_entries h))"
    and "case oget (own_entries h) ''drawer'' of None \<Rightarrow> True | Some v \<Rightarrow> drawer_name v"
proof -
  have "wf_json (JObj (own_entries h)) \<and> (case oget (own_entries h) ''drawer'' of None \<Rightarrow> True | Some v \<Rightarrow> drawer_name v)"
  proof (cases h)
    case (Some v)
    with assms show ?thesis by (cases v) (simp_all add: typed_option_def own_entries_def)
  qed (simp add: own_entries_def)
  then show "wf_json (JObj (own_entries h))"
    and "case oget (own_entries h) ''drawer'' of None \<Rightarrow> True | Some v \<Rightarrow> drawer_name v" by blast+
qed

lemma wf_json_ospread: "wf_json (JObj a) \<Longrightarrow> wf_json (JObj b) \<Longrightarrow> wf_json (JObj (ospread a b))"
proof (induction a b rule: ospread.induct)
  case (2 a k v b)
  have "wf_json (JObj (oset k v a))" using 2 by (intro wf_json_oset) simp_all
  with 2 show ?case by simp
qed simp

lemma wf_json_odel: "wf_json (JObj ms) \<Longrightarrow> wf_json (JObj (odel k ms))"
  by (auto simp: wf_members_iff AList.delete_eq intro!: distinct_map_filter)

lemma typed_opened:
  assumes "typed_option (history_state s)"
  shows "typed_option (history_state (on_opened d s))"
proof (cases "id_prop (heap s d) = []")
  case False
  have "wf_json (JObj (oset ''drawer'' (JStr (id_prop (heap s d))) (ospread [] (own_entries (history_state s)))))"
    using typed_entries(1) [OF assms] by (intro wf_json_oset wf_json_ospread) simp_all
  then have "typed_state (JObj (oset ''drawer'' (JStr (id_prop (heap s d))) (ospread [] (own_entries (history_state s)))))"
    using False by simp
  from typed_replace [OF this assms] False show ?thesis by (simp add: on_opened_def Let_def)
qed (simp add: on_opened_def assms)

lemma typed_closed:
  assumes "typed_option (history_state s)"
  shows "typed_option (history_state (on_closed s))"
proof (cases "history_state s")
  case (Some v)
  with assms show ?thesis
    using wf_json_odel [of _ "''drawer''"]
    by (cases v) (auto simp: typed_option_def on_closed_def Let_def)
qed (simp add: on_closed_def Let_def replace_state_def typed_option_def)

lemma typed_close_all:
  "typed_option (history_state s) \<Longrightarrow> typed_option (history_state (fold close_drawer us s))"
  by (rule fold_preserves) (simp_all add: close_drawer_def typed_closed)

lemma typed_toggle:
  assumes "typed_option (history_state s)"
  shows "typed_option (history_state (toggle_drawer d force s))"
proof (cases d)
  case (Some x)
  let ?s1 = "toggle_base x force s"
  have "typed_option (history_state ((fold close_drawer us ?s1)\<lparr>frames := fs\<rparr>))" for us fs
    using typed_close_all [of ?s1 us] assms by simp
  then show ?thesis
    using typed_closed [of "release_focus x ?s1"] assms by (simp add: Some toggle_drawer_def Let_def typed_opened)
qed (simp add: toggle_drawer_def assms)

lemma typed_handle: "typed_option (history_state s) \<Longrightarrow> typed_option (history_state (handle_drawer e s))"
  by (cases e) (simp_all add: handle_drawer_def on_click_drawer_def typed_toggle Let_def)

text \<open>What is stored for the next page is not a drawer's business.\<close>

lemma toggle_base_stored [simp]: "session_store (toggle_base d force s) = session_store s"
  by (simp add: toggle_base_def Let_def upd_def)

lemma drawer_parts_stored [simp]:
  "session_store (release_focus d s) = session_store s" "session_store (on_closed s) = session_store s"
  "session_store (on_opened d s) = session_store s" "session_store (close_drawer d s) = session_store s"
  by (simp_all add: release_focus_def focus_on_def on_closed_def on_opened_def close_drawer_def Let_def
      split: option.split list.split)

lemma toggle_stored [simp]: "session_store (toggle_drawer d force s) = session_store s"
proof -
  have "session_store (fold close_drawer us t) = session_store t" for us t by (rule fold_frame) simp
  then show ?thesis by (simp add: toggle_drawer_def Let_def split: option.split)
qed

lemma handle_stored [simp]: "session_store (handle_drawer e s) = session_store s"
  by (cases e) (simp_all add: handle_drawer_def on_click_drawer_def Let_def)

section \<open>From page to page\<close>

text \<open>
  The start of a page in the order of \<^verbatim>\<open>nautobot.js\<close>: the saved state is loaded, then the
  drawer it names is opened. \<open>Leave q\<close> saves the state and goes to the page \<open>q\<close>, as the scripts
  do before a full reload; \<open>Go q\<close> leaves without saving. A new page starts with the state
  \<open>null\<close> where the browser has the History API, and with the session storage as it was.
\<close>

definition start_page :: "drawer_page \<Rightarrow> drawer_page" where
  "start_page s = init_drawers (load_state s)"

definition arrive :: "drawer_page \<Rightarrow> drawer_page \<Rightarrow> drawer_page" where
  "arrive q s =
     start_page (q\<lparr>history_state := map_option (\<lambda>v. JNull) (history_state s), session_store := session_store s\<rparr>)"

datatype nav_event = In_Page drawer_event | Leave drawer_page | Go drawer_page

definition nav_step :: "nav_event \<Rightarrow> drawer_page \<Rightarrow> drawer_page" where
  "nav_step e s =
     (case e of
        In_Page d \<Rightarrow> handle_drawer d s
      | Leave q \<Rightarrow> arrive q (save_state None s)
      | Go q \<Rightarrow> arrive q s)"

text \<open>A page the server can render: its elements are distinct and at most one drawer is open.\<close>

definition sound_page :: "drawer_page \<Rightarrow> bool" where
  "sound_page q \<longleftrightarrow> wf_page q \<and> drawers_ok q"

fun sound_event :: "nav_event \<Rightarrow> bool" where
  "sound_event (In_Page d) = True"
| "sound_event (Leave q) = sound_page q"
| "sound_event (Go q) = sound_page q"

definition nav_ok :: "drawer_page \<Rightarrow> bool" where
  "nav_ok s \<longleftrightarrow> nav_typed s \<and> sound_page s"

lemma stored_after_leaving:
  assumes "typed_option (history_state s)" and "typed_option (stored_state s)"
  shows "typed_option (stored_state (save_state None s))"
proof (cases "history_state s")
  case (Some v)
  with assms(1) have w: "typed_state v" "wf_json v" using typed_wf by (auto simp: typed_option_def)
  have e: "save_state None s = save_state (Some v) s" using Some by (simp add: save_state_def)
  show ?thesis
  proof (cases "session_store s = None")
    case True
    then show ?thesis unfolding e by (simp add: save_state_def stored_state_def typed_option_def set_item_def)
  next
    case False
    with w show ?thesis unfolding e by (simp add: stored_after_save typed_option_def)
  qed
qed (use assms in \<open>simp add: save_state_def\<close>)

lemma load_state_shape:
  assumes "typed_option (history_state s)" and "typed_option (stored_state s)"
  shows "typed_option (history_state (load_state s)) \<and> typed_option (stored_state (load_state s))"
proof (cases "stored_state s")
  case None
  then show ?thesis using assms by (simp add: load_state_def)
next
  case (Some v)
  have "stored_state (load_state s) = None"
    unfolding load_state_def Some by (simp add: Let_def stored_state_def)
  moreover have "history_state (load_state s) = (if history_state s = None then None else Some v)"
    unfolding load_state_def Some by (simp add: Let_def)
  ultimately show ?thesis using assms(2) by (simp add: Some typed_option_def)
qed

lemma init_drawers_cases: "init_drawers s = s \<or> (\<exists>d. init_drawers s = toggle_drawer d (Some True) s)"
  by (auto simp: init_drawers_def split: option.split)

lemma sound_same: "doc t = doc s \<Longrightarrow> heap t = heap s \<Longrightarrow> sound_page t = sound_page s"
  by (simp add: sound_page_def wf_page_def drawers_ok_def doc_qsa_def)

lemma sound_toggle: "sound_page s \<Longrightarrow> sound_page (toggle_drawer d force s)"
  using drawers_ok_toggle [of s d force] wf_page_same [of "toggle_drawer d force s" s] by (simp add: sound_page_def)

lemma nav_ok_start:
  assumes "typed_option (history_state s)" and "typed_option (stored_state s)" and "sound_page s"
  shows "nav_ok (start_page s)"
proof -
  let ?s = "load_state s"
  have s: "sound_page ?s" using assms(3) sound_same [of ?s s] by simp
  have shape: "typed_option (history_state ?s)" "typed_option (stored_state ?s)"
    using load_state_shape [OF assms(1,2)] by blast+
  have "nav_ok (toggle_drawer d (Some True) ?s)" for d
    using shape by (simp add: nav_ok_def nav_typed_def sound_toggle [OF s] typed_toggle stored_state_def)
  with s shape init_drawers_cases [of ?s] show ?thesis
    by (auto simp: start_page_def nav_ok_def nav_typed_def)
qed

lemma nav_ok_arrive:
  assumes "typed_option (stored_state s)" and "sound_page q"
  shows "nav_ok (arrive q s)"
  unfolding arrive_def
proof (rule nav_ok_start)
  let ?q = "q\<lparr>history_state := map_option (\<lambda>v. JNull) (history_state s), session_store := session_store s\<rparr>"
  show "typed_option (history_state ?q)" by (simp add: typed_option_def split: option.split)
  show "typed_option (stored_state ?q)" using assms(1) by (simp add: stored_state_def)
  show "sound_page ?q" using assms(2) sound_same [of ?q q] by simp
qed

interpretation navigation: guarded_machine nav_step sound_event nav_ok
proof
  fix s e
  assume ok: "nav_ok s" and e: "sound_event e"
  then have s: "typed_option (history_state s)" "typed_option (stored_state s)" "sound_page s"
    by (simp_all add: nav_ok_def nav_typed_def)
  show "nav_ok (nav_step e s)"
  proof (cases e)
    case (In_Page d)
    then show ?thesis
      using s typed_handle [OF s(1), of d] drawers_ok_handle [of s d] wf_page_same
      by (auto simp: nav_step_def nav_ok_def nav_typed_def sound_page_def stored_state_def)
  next
    case (Leave q)
    then show ?thesis using e nav_ok_arrive stored_after_leaving [OF s(1,2)] by (simp add: nav_step_def)
  next
    case (Go q)
    then show ?thesis using e nav_ok_arrive s(2) by (simp add: nav_step_def)
  qed
qed

text \<open>
  C25: The state of the history entry keeps its type from page to page: whatever drawers are
  opened and closed, and whatever pages are left with or without saving, the state and what
  is saved of it are \<open>null\<close> or an object that names a drawer by a string that is not empty, if
  at all; and every page, the restored drawer included, has at most one drawer open.
\<close>

theorem history_state_is_typed:
  assumes "nav_typed s" and "sound_page s" and "list_all sound_event es"
  shows "nav_typed (fold nav_step es s) \<and> sound_page (fold nav_step es s)"
  using navigation.guarded_run [of s es] assms by (simp add: nav_ok_def)

definition demo_drawers :: drawer_page where
  "demo_drawers =
     \<lparr>doc = Node 0 [Node 1 [], Node 2 [], Node 3 []],
      heap = (\<lambda>u. if u = 1 then (new_elem ''ASIDE'')\<lparr>classes := [''nb-drawer''],
            attrs := [(''id'', ''d1''), (''aria-hidden'', ''true'')]\<rparr>
        else if u = 2 then (new_elem ''ASIDE'')\<lparr>classes := [''nb-drawer''],
            attrs := [(''id'', ''d2''), (''aria-hidden'', ''true'')]\<rparr>
        else new_elem ''DIV''),
      focus = None, history_state = Some JNull, entry_url = ''/'', loc_path = ''/'', loc_search = [], loc_hash = [],
      session_store = Some (\<lambda>k. None), frames = [], visible = [1, 2], focusable = [1, 2],
      select_one = (\<lambda>q t h. None)\<rparr>"

lemma history_state_is_typed_witness:
  "nav_typed (fold nav_step [In_Page (Open 1), Leave demo_drawers, In_Page (Open 2), Go demo_drawers] demo_drawers)"
proof -
  have h: "nav_typed demo_drawers" "sound_page demo_drawers"
    "list_all sound_event [In_Page (Open 1), Leave demo_drawers, In_Page (Open 2), Go demo_drawers]"
    by code_simp+
  from history_state_is_typed [OF h] show ?thesis by blast
qed

text \<open>The drawer that was open when a page was left is open on the next page.\<close>

lemma drawer_reopens:
  "doc_qsa (fold nav_step [In_Page (Open 1), In_Page (Open 2), Leave demo_drawers] demo_drawers) open_sel = [2]"
  by code_simp

end
