(* ===== verification/Markup.thy ===== *)
theory Markup
  imports Dom
begin

text \<open>
  Fragments of markup the scripts build with \<open>document.createElement\<close> before, or while, they
  are part of the document: an element owns its child nodes, which may be text and comments.
  \<open>None\<close> as the result of an operation is a \<open>DOMException\<close>.
\<close>

named_theorems markup_simps \<open>how fragments are searched and changed\<close>

datatype node = Text_Node string | Comment_Node | Element elem "node list"

fun is_element :: "node \<Rightarrow> bool" where
  "is_element (Element e ks) = True"
| "is_element _ = False"

fun matches :: "(elem \<Rightarrow> bool) \<Rightarrow> node \<Rightarrow> bool" where
  "matches P (Element e ks) = P e"
| "matches P _ = False"

fun kids_of :: "node \<Rightarrow> node list" where
  "kids_of (Element e ks) = ks"
| "kids_of _ = []"

fun with_kids :: "(node list \<Rightarrow> node list) \<Rightarrow> node \<Rightarrow> node" where
  "with_kids f (Element e ks) = Element e (f ks)"
| "with_kids f n = n"

text \<open>The elements of a list of nodes and everything below them, in document order.\<close>

fun descendants :: "node list \<Rightarrow> node list" where
  "descendants [] = []"
| "descendants (Element e ks # ns) = Element e ks # descendants ks @ descendants ns"
| "descendants (Text_Node t # ns) = descendants ns"
| "descendants (Comment_Node # ns) = descendants ns"

definition query_all :: "(elem \<Rightarrow> bool) \<Rightarrow> node list \<Rightarrow> node list" where
  "query_all P ns = filter (matches P) (descendants ns)"

definition query_first :: "(elem \<Rightarrow> bool) \<Rightarrow> node list \<Rightarrow> node option" where
  "query_first P ns = first_of (query_all P ns)"

text \<open>Changing the children of the first element that matches, in place.\<close>

fun change_first :: "(elem \<Rightarrow> bool) \<Rightarrow> (node list \<Rightarrow> node list) \<Rightarrow> node list \<Rightarrow> node list" where
  "change_first P f [] = []"
| "change_first P f (Element e ks # ns) =
     (if P e then Element e (f ks) # ns
      else if query_all P ks \<noteq> [] then Element e (change_first P f ks) # ns
      else Element e ks # change_first P f ns)"
| "change_first P f (Text_Node t # ns) = Text_Node t # change_first P f ns"
| "change_first P f (Comment_Node # ns) = Comment_Node # change_first P f ns"

text \<open>\<open>removeChild\<close> for every match below: a match that is not a child raises an exception.\<close>

fun remove_matches :: "(elem \<Rightarrow> bool) \<Rightarrow> node list \<Rightarrow> node list option" where
  "remove_matches P [] = Some []"
| "remove_matches P (Element e ks # ns) =
     (if query_all P ks \<noteq> [] then None
      else if P e then remove_matches P ns
      else map_option ((#) (Element e ks)) (remove_matches P ns))"
| "remove_matches P (Text_Node t # ns) = map_option ((#) (Text_Node t)) (remove_matches P ns)"
| "remove_matches P (Comment_Node # ns) = map_option ((#) Comment_Node) (remove_matches P ns)"

text \<open>The same for the first match only.\<close>

fun remove_one :: "(elem \<Rightarrow> bool) \<Rightarrow> node list \<Rightarrow> node list option" where
  "remove_one P [] = Some []"
| "remove_one P (Element e ks # ns) =
     (if P e then Some ns
      else if query_all P ks \<noteq> [] then None
      else map_option ((#) (Element e ks)) (remove_one P ns))"
| "remove_one P (Text_Node t # ns) = map_option ((#) (Text_Node t)) (remove_one P ns)"
| "remove_one P (Comment_Node # ns) = map_option ((#) Comment_Node) (remove_one P ns)"

text \<open>\<open>parent.insertBefore(x, parent.firstElementChild)\<close>\<close>

definition insert_first :: "node \<Rightarrow> node list \<Rightarrow> node list" where
  "insert_first x ns =
     takeWhile (\<lambda>n. \<not> is_element n) ns @ x # dropWhile (\<lambda>n. \<not> is_element n) ns"

fun first_text :: "node list \<Rightarrow> string option" where
  "first_text [] = None"
| "first_text (Text_Node t # ns) = Some t"
| "first_text (Comment_Node # ns) = first_text ns"
| "first_text (Element e ks # ns) = first_text ns"

text \<open>
  The selector \<open>P + Q\<close>: elements of which the element before, among the children of the same
  parent, satisfies \<open>P\<close>; \<open>prev\<close> says whether the one before the list does.
\<close>

fun adjacent :: "(elem \<Rightarrow> bool) \<Rightarrow> (elem \<Rightarrow> bool) \<Rightarrow> bool \<Rightarrow> node list \<Rightarrow> node list" where
  "adjacent P Q prev [] = []"
| "adjacent P Q prev (Element e ks # ns) =
     (if prev \<and> Q e then [Element e ks] else []) @ adjacent P Q False ks @ adjacent P Q (P e) ns"
| "adjacent P Q prev (Text_Node t # ns) = adjacent P Q prev ns"
| "adjacent P Q prev (Comment_Node # ns) = adjacent P Q prev ns"

section \<open>Searching\<close>

lemma descendants_append [markup_simps]: "descendants (ns @ ms) = descendants ns @ descendants ms"
  by (induction ns rule: descendants.induct) simp_all

lemma query_all_simps [markup_simps]:
  "query_all P [] = []"
  "query_all P (ns @ ms) = query_all P ns @ query_all P ms"
  "query_all P (Element e ks # ns) = (if P e then [Element e ks] else []) @ query_all P ks @ query_all P ns"
  "query_all P (Text_Node t # ns) = query_all P ns"
  "query_all P (Comment_Node # ns) = query_all P ns"
  by (simp_all add: query_all_def descendants_append)

lemma query_all_Cons: "query_all P (n # ns) = query_all P [n] @ query_all P ns"
  using query_all_simps(2) [of P "[n]" ns] by simp

lemma query_all_flat: "query_all P ns = concat (map (\<lambda>n. query_all P [n]) ns)"
proof (induction ns)
  case (Cons n ns)
  then show ?case using query_all_Cons [of P n ns] by simp
qed (simp add: query_all_simps)

lemma change_first_skip:
  "query_all P ns = [] \<Longrightarrow> change_first P f (ns @ ms) = ns @ change_first P f ms"
  by (induction P f ns rule: change_first.induct) (auto simp: query_all_simps split: if_splits)

text \<open>The element found first is the one that changes, and it is found again.\<close>

lemma query_change_first:
  "query_first P (change_first P f ns) = map_option (with_kids f) (query_first P ns) \<and>
   (query_all P (change_first P f ns) = [] \<longleftrightarrow> query_all P ns = [])"
proof (induction P f ns rule: change_first.induct)
  case (2 P f e ks ns)
  then show ?case
    by (cases "P e"; cases "query_all P ks") (auto simp: query_first_def first_of_def query_all_simps split: list.splits)
qed (simp_all add: query_first_def first_of_def query_all_simps)

lemma no_element_query: "\<not> is_element n \<Longrightarrow> query_all P [n] = []"
  by (cases n) (simp_all add: query_all_simps)

lemma adjacent_none: "query_all Q ns = [] \<Longrightarrow> adjacent P Q prev ns = []"
  by (induction P Q prev ns rule: adjacent.induct) (auto simp: query_all_simps split: if_splits)

end
