(* ===== verification/Filter_Markup.thy ===== *)
theory Filter_Markup
  imports Filter_Form Markup
begin

text \<open>
  The advanced filter form as markup, \<open>project-static/js/filter_form.js\<close>: what
  \<open>manageDynamicFilter\<close> builds, finds and moves, element by element, on the markup the server
  renders (\<open>inc/dynamic_filter_items.html\<close>). Theory \<open>Filter_Form\<close> speaks of groups and badges;
  here is the proof that the markup implements them.
\<close>

section \<open>Elements\<close>

definition close_icon :: node where
  "close_icon =
     Element (set_attr ''aria-hidden'' ''true''
       (class_toggle ''mdi-close'' (Some True) (class_toggle ''mdi'' (Some True) (new_elem ''SPAN'')))) []"

definition button_label :: "string \<Rightarrow> node" where
  "button_label label_text =
     Element (class_toggle ''visually-hidden'' (Some True) (new_elem ''SPAN'')) [Text_Node label_text]"

definition create_remove_button :: "string \<Rightarrow> node" where
  "create_remove_button label =
     Element (set_attr ''type'' ''button'' (class_toggle ''nb-dynamic-filter-remove'' (Some True) (new_elem ''BUTTON'')))
       [close_icon, button_label label]"

definition group_class :: "elem \<Rightarrow> bool" where
  "group_class e \<longleftrightarrow> has_class ''nb-multi-badge'' e"

definition items_class :: "elem \<Rightarrow> bool" where
  "items_class e \<longleftrightarrow> has_class ''nb-multi-badge-items'' e"

definition badge_sel :: "elem \<Rightarrow> bool" where
  "badge_sel e \<longleftrightarrow> has_class ''badge'' e \<and> get_attr ''data-nb-value'' e \<noteq> None"

definition hidden_sel :: "elem \<Rightarrow> bool" where
  "hidden_sel e \<longleftrightarrow> tag e = ''INPUT'' \<and> get_attr ''type'' e = Some ''hidden''"

definition group_sel :: "string \<Rightarrow> elem \<Rightarrow> bool" where
  "group_sel name e \<longleftrightarrow> group_class e \<and> get_attr ''data-nb-field'' e = Some name"

text \<open>A group without badges and a badge, as the script creates them.\<close>

definition group_elem :: "string \<Rightarrow> elem" where
  "group_elem name =
     set_attr ''data-nb-field'' name
       (class_toggle ''nb-multi-badge'' (Some True) (class_toggle ''badge'' (Some True) (new_elem ''SPAN'')))"

definition items_elem :: elem where
  "items_elem = class_toggle ''nb-multi-badge-items'' (Some True) (new_elem ''SPAN'')"

definition create_group :: "string \<Rightarrow> string \<Rightarrow> node" where
  "create_group name text =
     Element (group_elem name) [create_remove_button ''Remove All'', Text_Node (text @ '':''), Element items_elem []]"

definition badge_elem :: "string \<Rightarrow> elem" where
  "badge_elem v = set_attr ''data-nb-value'' v (class_toggle ''badge'' (Some True) (new_elem ''SPAN''))"

definition hidden_elem :: "string \<Rightarrow> string \<Rightarrow> elem" where
  "hidden_elem name v =
     set_attr ''value'' v (set_attr ''type'' ''hidden'' (set_attr ''name'' name (new_elem ''INPUT'')))"

definition create_badge :: "string \<Rightarrow> string \<times> string \<Rightarrow> node" where
  "create_badge name tv =
     Element (badge_elem (snd tv))
       [create_remove_button ''Remove'', Text_Node (fst tv), Element (hidden_elem name (snd tv)) []]"

section \<open>The function\<close>

text \<open>Which badges go: all of them, or those whose value is among the new ones.\<close>

definition goes :: "filter_action \<Rightarrow> (string \<times> string) list \<Rightarrow> elem \<Rightarrow> bool" where
  "goes action vs e \<longleftrightarrow> badge_sel e \<and>
     (case action of
        Set_Values \<Rightarrow> True
      | Add_Values \<Rightarrow> list_ex (\<lambda>tv. get_attr ''data-nb-value'' e = Some (snd tv)) vs)"

text \<open>
  \<open>items\<close> are the child nodes of \<open>.nb-dynamic-filter-items\<close>. The group is changed where it is,
  taken out if it was in the form, and put first unless its list of badges has no nodes at
  all.
\<close>

definition manage_markup ::
    "filter_action \<Rightarrow> string \<Rightarrow> string \<Rightarrow> (string \<times> string) list \<Rightarrow> node list \<Rightarrow> node list option" where
  "manage_markup action name text vs items =
     (let group = (case query_first (group_sel name) items of Some g \<Rightarrow> g | None \<Rightarrow> create_group name text)
      in case query_first items_class (kids_of group) of
           None \<Rightarrow> None
         | Some c \<Rightarrow>
             (case remove_matches (goes action vs) (kids_of c) of
                None \<Rightarrow> None
              | Some kept \<Rightarrow>
                  let ks = fold (\<lambda>tv. insert_first (create_badge name tv)) vs kept;
                      g = with_kids (change_first items_class (\<lambda>_. ks)) group
                  in map_option (\<lambda>rest. if ks \<noteq> [] then insert_first g rest else rest)
                       (remove_one (group_sel name) items)))"

text \<open>
  The values \<open>syncDynamicToDefault\<close> reads: the hidden inputs of a name, each with the first text
  of its parent (\<open>parent\<close> holds the child nodes of the parent).
\<close>

fun hidden_values :: "string \<Rightarrow> node list \<Rightarrow> node list \<Rightarrow> (string option \<times> string option) list" where
  "hidden_values name parent [] = []"
| "hidden_values name parent (Element e ks # ns) =
     (if hidden_sel e \<and> get_attr ''name'' e = Some name then [(first_text parent, get_attr ''value'' e)] else []) @
     hidden_values name ks ks @ hidden_values name parent ns"
| "hidden_values name parent (Text_Node t # ns) = hidden_values name parent ns"
| "hidden_values name parent (Comment_Node # ns) = hidden_values name parent ns"

section \<open>Well-formed markup and what it stands for\<close>

text \<open>A node none of the queries can find, nor anything in it.\<close>

definition relevant :: "elem \<Rightarrow> bool" where
  "relevant e \<longleftrightarrow> group_class e \<or> items_class e \<or> badge_sel e \<or> hidden_sel e"

definition quiet :: "node \<Rightarrow> bool" where
  "quiet n \<longleftrightarrow> query_all relevant [n] = []"

fun the_only :: "node list \<Rightarrow> (elem \<times> node list) option" where
  "the_only [Element e ks] = Some (e, ks)"
| "the_only _ = None"

lemma the_only_Some [simp]: "the_only ns = Some (e, ks) \<longleftrightarrow> ns = [Element e ks]"
  by (cases ns rule: the_only.cases) auto

fun badge_node :: "node \<Rightarrow> bool" where
  "badge_node (Element e ks) =
     (badge_sel e \<and> \<not> group_class e \<and> \<not> items_class e \<and> \<not> hidden_sel e \<and> first_text ks \<noteq> None \<and>
      (case the_only (filter (\<lambda>k. \<not> quiet k) ks) of
         None \<Rightarrow> False
       | Some (h, hs) \<Rightarrow> hs = [] \<and> hidden_sel h \<and> \<not> badge_sel h \<and> \<not> group_class h \<and> \<not> items_class h \<and>
           get_attr ''name'' h \<noteq> None \<and> get_attr ''value'' h = get_attr ''data-nb-value'' e))"
| "badge_node _ = False"

fun group_node :: "node \<Rightarrow> bool" where
  "group_node (Element e ks) =
     (group_class e \<and> \<not> items_class e \<and> \<not> badge_sel e \<and> \<not> hidden_sel e \<and> get_attr ''data-nb-field'' e \<noteq> None \<and>
      (case the_only (filter (\<lambda>k. \<not> quiet k) ks) of
         None \<Rightarrow> False
       | Some (ie, iks) \<Rightarrow> items_class ie \<and> \<not> group_class ie \<and> \<not> badge_sel ie \<and> \<not> hidden_sel ie \<and>
           list_all (\<lambda>k. quiet k \<or> badge_node k) iks))"
| "group_node _ = False"

definition wf_markup :: "node list \<Rightarrow> bool" where
  "wf_markup ns \<longleftrightarrow> list_all (\<lambda>n. quiet n \<or> group_node n) ns"

fun hidden_name :: "node list \<Rightarrow> string" where
  "hidden_name ks =
     (case filter (\<lambda>k. \<not> quiet k) ks of Element h _ # _ \<Rightarrow> the (get_attr ''name'' h) | _ \<Rightarrow> [])"

fun badge_of :: "node \<Rightarrow> badge" where
  "badge_of (Element e ks) =
     \<lparr>b_name = hidden_name ks, b_value = the (get_attr ''data-nb-value'' e), b_text = the (first_text ks)\<rparr>"
| "badge_of _ = \<lparr>b_name = [], b_value = [], b_text = []\<rparr>"

definition badges_in :: "node list \<Rightarrow> badge list" where
  "badges_in iks = map badge_of (filter (\<lambda>k. \<not> quiet k) iks)"

fun group_of :: "node \<Rightarrow> badge_group" where
  "group_of (Element e ks) =
     (let iks = (case filter (\<lambda>k. \<not> quiet k) ks of n # _ \<Rightarrow> kids_of n | [] \<Rightarrow> [])
      in \<lparr>g_field = the (get_attr ''data-nb-field'' e), g_text = the (first_text ks),
          g_space = list_ex quiet iks, g_badges = badges_in iks\<rparr>)"
| "group_of _ = \<lparr>g_field = [], g_text = [], g_space = False, g_badges = []\<rparr>"

definition groups_in :: "node list \<Rightarrow> badge_group list" where
  "groups_in ns = map group_of (filter (\<lambda>n. \<not> quiet n) ns)"

section \<open>What the queries find\<close>

lemma quiet_query: "quiet n \<Longrightarrow> (\<And>e. P e \<Longrightarrow> relevant e) \<Longrightarrow> query_all P [n] = []"
  unfolding quiet_def query_all_def filter_empty_conv
  by (metis matches.elims(2) matches.simps(1))

lemma quiet_list:
  assumes "list_all quiet ns" and "\<And>e. P e \<Longrightarrow> relevant e"
  shows "query_all P ns = []"
  using assms(1) quiet_query [of _ P, OF _ assms(2)] by (simp add: query_all_flat [of P ns] list_all_iff)

lemma quiet_text [simp]: "\<not> is_element n \<Longrightarrow> quiet n"
  by (simp add: quiet_def no_element_query)

lemma loud_element [simp]: "relevant e \<Longrightarrow> \<not> quiet (Element e ks)"
  by (simp add: quiet_def query_all_simps)

lemma relevantI [simp, intro]:
  "group_class e \<Longrightarrow> relevant e" "items_class e \<Longrightarrow> relevant e" "badge_sel e \<Longrightarrow> relevant e" "hidden_sel e \<Longrightarrow> relevant e"
  "group_sel n e \<Longrightarrow> relevant e" "goes a vs e \<Longrightarrow> relevant e"
  by (simp_all add: relevant_def group_sel_def goes_def)

text \<open>Among quiet nodes a single other one.\<close>

lemma one_loud:
  assumes "filter (\<lambda>k. \<not> quiet k) ks = [x]"
  obtains pre post where "ks = pre @ x # post" and "list_all quiet pre" and "list_all quiet post" and "\<not> quiet x"
proof -
  obtain pre post where "ks = pre @ x # post" "\<forall>k \<in> set pre. quiet k" "\<not> quiet x" "filter (\<lambda>k. \<not> quiet k) post = []"
    using assms by (auto simp: filter_eq_Cons_iff)
  then show ?thesis using that by (auto simp: list_all_iff filter_empty_conv)
qed

lemma badge_nodeE:
  assumes "badge_node n"
  obtains e pre h post where "n = Element e (pre @ Element h [] # post)" and "list_all quiet pre" and "list_all quiet post"
    and "badge_sel e" and "\<not> group_class e" and "\<not> items_class e"
    and "hidden_sel h" and "\<not> badge_sel h" and "\<not> group_class h" and "\<not> items_class h"
proof (cases n)
  case (Element e ks)
  with assms obtain h where h: "filter (\<lambda>k. \<not> quiet k) ks = [Element h []]"
    and r: "badge_sel e" "\<not> group_class e" "\<not> items_class e"
      "hidden_sel h" "\<not> badge_sel h" "\<not> group_class h" "\<not> items_class h"
    by (auto split: option.splits prod.splits)
  obtain pre post where "ks = pre @ Element h [] # post" "list_all quiet pre" "list_all quiet post"
    using one_loud [OF h] by blast
  with r Element that show ?thesis by blast
qed (use assms in simp_all)

lemma badge_kids_clear:
  assumes "badge_node n" and "\<And>e. P e \<Longrightarrow> group_class e \<or> items_class e \<or> badge_sel e"
  shows "query_all P (kids_of n) = []"
  using assms(1)
proof (cases rule: badge_nodeE)
  case (1 e pre h post)
  have r: "\<And>e. P e \<Longrightarrow> relevant e" using assms(2) by (auto simp: relevant_def)
  have "query_all P pre = []" "query_all P post = []" using 1 quiet_list [OF _ r] by blast+
  moreover have "\<not> P h" using 1 assms(2) by blast
  ultimately show ?thesis using 1 by (simp add: query_all_simps)
qed

text \<open>The list of badges of a group: quiet nodes and badges.\<close>

definition badge_list :: "node list \<Rightarrow> bool" where
  "badge_list ks \<longleftrightarrow> list_all (\<lambda>k. quiet k \<or> badge_node k) ks"

lemma group_nodeE:
  assumes "group_node n"
  obtains e pre ie iks post where "n = Element e (pre @ Element ie iks # post)" and "list_all quiet pre" and "list_all quiet post"
    and "group_class e" and "\<not> items_class e" and "\<not> badge_sel e" and "\<not> hidden_sel e" and "get_attr ''data-nb-field'' e \<noteq> None"
    and "items_class ie" and "\<not> group_class ie" and "\<not> badge_sel ie" and "\<not> hidden_sel ie" and "badge_list iks"
proof (cases n)
  case (Element e ks)
  with assms obtain ie iks where i: "filter (\<lambda>k. \<not> quiet k) ks = [Element ie iks]"
    and r: "group_class e" "\<not> items_class e" "\<not> badge_sel e" "\<not> hidden_sel e" "get_attr ''data-nb-field'' e \<noteq> None"
      "items_class ie" "\<not> group_class ie" "\<not> badge_sel ie" "\<not> hidden_sel ie" "badge_list iks"
    by (auto simp: badge_list_def split: option.splits prod.splits)
  obtain pre post where "ks = pre @ Element ie iks # post" "list_all quiet pre" "list_all quiet post"
    using one_loud [OF i] by blast
  with r Element that show ?thesis by blast
qed (use assms in simp_all)

lemma badge_list_query:
  assumes "badge_list ks" and "\<And>e. P e \<Longrightarrow> relevant e" and "\<And>e. P e \<Longrightarrow> group_class e \<or> items_class e"
  shows "query_all P ks = []"
proof -
  have "query_all P [k] = []" if "k \<in> set ks" for k
  proof (cases "quiet k")
    case True
    then show ?thesis using assms(2) by (rule quiet_query)
  next
    case False
    with assms(1) that have b: "badge_node k" by (auto simp: badge_list_def list_all_iff)
    then obtain e ms where k: "k = Element e ms" "\<not> group_class e" "\<not> items_class e" by (cases rule: badge_nodeE) blast
    have "query_all P (kids_of k) = []" using b assms(3) by (intro badge_kids_clear) blast+
    with k assms(3) show ?thesis by (auto simp: query_all_simps)
  qed
  then show ?thesis by (simp add: query_all_flat [of P ks])
qed

lemma group_kids_clear:
  assumes "group_node n"
  shows "query_all (group_sel m) (kids_of n) = []"
  using assms
proof (cases rule: group_nodeE)
  case (1 e pre ie iks post)
  have "query_all (group_sel m) iks = []"
    using 1 by (intro badge_list_query) (auto simp: group_sel_def)
  moreover have "query_all (group_sel m) pre = []" "query_all (group_sel m) post = []"
    using 1 by (auto intro!: quiet_list)
  moreover have "\<not> group_sel m ie" using 1 by (simp add: group_sel_def)
  ultimately show ?thesis using 1 by (simp add: query_all_simps)
qed

lemma wf_markup_Cons: "wf_markup (n # ns) \<longleftrightarrow> (quiet n \<or> group_node n) \<and> wf_markup ns"
  by (simp add: wf_markup_def)

lemma group_node_element: "group_node n \<Longrightarrow> \<exists>e ks. n = Element e ks \<and> relevant e"
  by (erule group_nodeE) blast

lemma group_loud: "group_node n \<Longrightarrow> \<not> quiet n"
  using group_node_element by fastforce

lemma quiet_match: "quiet n \<Longrightarrow> (\<And>e. P e \<Longrightarrow> relevant e) \<Longrightarrow> \<not> matches P n"
  by (cases n) auto

text \<open>The groups are children of the form, and the first one with a name is the one that is found.\<close>

lemma query_groups:
  assumes "wf_markup ns"
  shows "query_all (group_sel m) ns = filter (matches (group_sel m)) ns"
    and "remove_one (group_sel m) ns = Some (remove_first (matches (group_sel m)) ns)"
proof -
  have "query_all (group_sel m) ns = filter (matches (group_sel m)) ns \<and>
      remove_one (group_sel m) ns = Some (remove_first (matches (group_sel m)) ns)"
    using assms
  proof (induction ns)
    case (Cons n ns)
    then have IH: "query_all (group_sel m) ns = filter (matches (group_sel m)) ns"
      "remove_one (group_sel m) ns = Some (remove_first (matches (group_sel m)) ns)"
      and n: "quiet n \<or> group_node n" by (simp_all add: wf_markup_Cons)
    have k: "query_all (group_sel m) (kids_of n) = []"
    proof (cases "quiet n")
      case True
      then have "query_all (group_sel m) [n] = []" by (rule quiet_query) blast
      then show ?thesis by (cases n) (simp_all add: query_all_simps split: if_splits)
    qed (use n group_kids_clear in blast)
    with IH show ?case by (cases n) (simp_all add: query_all_simps)
  qed (simp add: query_all_simps)
  then show "query_all (group_sel m) ns = filter (matches (group_sel m)) ns"
    and "remove_one (group_sel m) ns = Some (remove_first (matches (group_sel m)) ns)" by blast+
qed

lemma match_field:
  assumes "group_node n"
  shows "matches (group_sel m) n \<longleftrightarrow> g_field (group_of n) = m"
  using assms by (cases rule: group_nodeE) (auto simp: group_sel_def Let_def)

lemma groups_in_simps [simp]:
  "groups_in [] = []"
  "groups_in (n # ns) = (if quiet n then [] else [group_of n]) @ groups_in ns"
  by (simp_all add: groups_in_def)

lemma find_group:
  assumes "wf_markup ns"
  shows "List.find (\<lambda>g. g_field g = m) (groups_in ns) = map_option group_of (query_first (group_sel m) ns)"
    and "query_first (group_sel m) ns = Some n \<Longrightarrow> group_node n"
proof -
  have f: "List.find (\<lambda>g. g_field g = m) (groups_in ns) =
      map_option group_of (first_of (filter (matches (group_sel m)) ns)) \<and>
      (first_of (filter (matches (group_sel m)) ns) = Some n \<longrightarrow> group_node n)"
    using assms
  proof (induction ns)
    case (Cons k ns)
    have q: "quiet k \<Longrightarrow> \<not> matches (group_sel m) k" by (erule quiet_match) blast
    with Cons show ?case using match_field group_loud by (auto simp: wf_markup_Cons first_of_def)
  qed (simp add: first_of_def)
  then show "List.find (\<lambda>g. g_field g = m) (groups_in ns) = map_option group_of (query_first (group_sel m) ns)"
    and "query_first (group_sel m) ns = Some n \<Longrightarrow> group_node n"
    by (auto simp: query_first_def query_groups [OF assms])
qed

lemma rest_groups:
  assumes "wf_markup ns"
  shows "groups_in (remove_first (matches (group_sel m)) ns) = remove_first (\<lambda>g. g_field g = m) (groups_in ns)"
    and "wf_markup (remove_first (matches (group_sel m)) ns)"
proof -
  have "groups_in (remove_first (matches (group_sel m)) ns) = remove_first (\<lambda>g. g_field g = m) (groups_in ns) \<and>
      wf_markup (remove_first (matches (group_sel m)) ns)"
    using assms
  proof (induction ns)
    case (Cons k ns)
    have q: "quiet k \<Longrightarrow> \<not> matches (group_sel m) k" by (erule quiet_match) blast
    with Cons show ?case using match_field group_loud by (auto simp: wf_markup_Cons)
  qed (simp add: wf_markup_def)
  then show "groups_in (remove_first (matches (group_sel m)) ns) = remove_first (\<lambda>g. g_field g = m) (groups_in ns)"
    and "wf_markup (remove_first (matches (group_sel m)) ns)" by blast+
qed

section \<open>What the changes do\<close>

lemma insert_first_simps:
  "\<not> quiet x \<Longrightarrow> filter (\<lambda>k. \<not> quiet k) (insert_first x ns) = x # filter (\<lambda>k. \<not> quiet k) ns"
  "list_all P (insert_first x ns) \<longleftrightarrow> P x \<and> list_all P ns"
  "list_ex P (insert_first x ns) \<longleftrightarrow> P x \<or> list_ex P ns"
proof -
  let ?a = "takeWhile (\<lambda>n. \<not> is_element n) ns" and ?b = "dropWhile (\<lambda>n. \<not> is_element n) ns"
  have la: "list_all P ns \<longleftrightarrow> list_all P ?a \<and> list_all P ?b" by (simp flip: list_all_append)
  have le: "list_ex P ns \<longleftrightarrow> list_ex P ?a \<or> list_ex P ?b" by (simp flip: list_ex_append)
  have "filter (\<lambda>k. \<not> quiet k) ?a = []" by (auto simp: filter_empty_conv dest!: set_takeWhileD)
  moreover have "filter (\<lambda>k. \<not> quiet k) ns = filter (\<lambda>k. \<not> quiet k) ?a @ filter (\<lambda>k. \<not> quiet k) ?b"
    by (simp flip: filter_append)
  ultimately show "\<not> quiet x \<Longrightarrow> filter (\<lambda>k. \<not> quiet k) (insert_first x ns) = x # filter (\<lambda>k. \<not> quiet k) ns"
    by (simp add: insert_first_def)
  show "list_all P (insert_first x ns) \<longleftrightarrow> P x \<and> list_all P ns"
    unfolding insert_first_def la by auto
  show "list_ex P (insert_first x ns) \<longleftrightarrow> P x \<or> list_ex P ns"
    unfolding insert_first_def le by auto
qed

lemma new_elem_bare [simp]:
  "\<not> has_class c (new_elem t)" "get_attr a (new_elem t) = None" "tag (new_elem t) = t"
  by (simp_all add: new_elem_def has_class_def get_attr_def)

lemma quiet_button [simp]: "quiet (create_remove_button t)"
  by (simp add: quiet_def create_remove_button_def close_icon_def button_label_def query_all_simps relevant_def
      group_class_def items_class_def badge_sel_def hidden_sel_def)

lemma created_elems [simp]:
  "hidden_sel (hidden_elem n v)" "\<not> badge_sel (hidden_elem n v)" "\<not> group_class (hidden_elem n v)" "\<not> items_class (hidden_elem n v)"
  "badge_sel (badge_elem v)" "\<not> group_class (badge_elem v)" "\<not> items_class (badge_elem v)" "\<not> hidden_sel (badge_elem v)"
  "group_class (group_elem n)" "\<not> items_class (group_elem n)" "\<not> badge_sel (group_elem n)" "\<not> hidden_sel (group_elem n)"
  "items_class items_elem" "\<not> group_class items_elem" "\<not> badge_sel items_elem" "\<not> hidden_sel items_elem"
  "get_attr ''data-nb-value'' (badge_elem v) = Some v" "get_attr ''data-nb-field'' (group_elem n) = Some n"
  "get_attr ''name'' (hidden_elem n v) = Some n" "get_attr ''value'' (hidden_elem n v) = Some v"
  by (simp_all add: hidden_elem_def badge_elem_def group_elem_def items_elem_def hidden_sel_def badge_sel_def
      group_class_def items_class_def)

lemma created_loud [simp]:
  "\<not> quiet (Element (hidden_elem n v) ks)" "\<not> quiet (Element (badge_elem v) ks)"
  "\<not> quiet (Element (group_elem n) ks)" "\<not> quiet (Element items_elem ks)"
  by (auto intro!: loud_element)

lemma first_text_button [simp]: "first_text (create_remove_button t # ns) = first_text ns"
  by (simp add: create_remove_button_def)

lemma created_badge [simp]:
  "badge_node (create_badge n tv)" "badge_of (create_badge n tv) = new_badge n tv" "\<not> quiet (create_badge n tv)"
  by (simp_all add: create_badge_def new_badge_def)

lemma badge_list_simps [simp]:
  "badge_list []" "badge_list (k # ks) \<longleftrightarrow> (quiet k \<or> badge_node k) \<and> badge_list ks"
  "badge_list (filter P ks) \<longleftrightarrow> list_all (\<lambda>k. P k \<longrightarrow> quiet k \<or> badge_node k) ks"
  "badge_list (insert_first (create_badge n tv) ks) \<longleftrightarrow> badge_list ks"
  by (simp_all add: badge_list_def insert_first_simps) (auto simp: list_all_iff)

lemma badges_in_simps [simp]:
  "badges_in [] = []" "badges_in (k # ks) = (if quiet k then [] else [badge_of k]) @ badges_in ks"
  "badges_in (insert_first (create_badge n tv) ks) = new_badge n tv # badges_in ks"
  by (simp_all add: badges_in_def insert_first_simps)

lemma new_badges_markup:
  "badge_list (fold (\<lambda>tv. insert_first (create_badge n tv)) vs ks) = badge_list ks"
  "badges_in (fold (\<lambda>tv. insert_first (create_badge n tv)) vs ks) = fold (\<lambda>tv bs. new_badge n tv # bs) vs (badges_in ks)"
  "list_ex quiet (fold (\<lambda>tv. insert_first (create_badge n tv)) vs ks) = list_ex quiet ks"
  by (induction vs arbitrary: ks) (simp_all add: insert_first_simps)

lemma badge_goes:
  assumes "badge_node k"
  shows "matches (goes a vs) k \<longleftrightarrow> (case a of Set_Values \<Rightarrow> True | Add_Values \<Rightarrow> list_ex (\<lambda>tv. b_value (badge_of k) = snd tv) vs)"
proof -
  obtain e ks v where "k = Element e ks" "badge_sel e" "get_attr ''data-nb-value'' e = Some v"
    using assms by (cases rule: badge_nodeE) (auto simp: badge_sel_def)
  then show ?thesis by (simp add: goes_def split: filter_action.split)
qed

lemma kept_badges_Cons:
  "badge_node k \<Longrightarrow> kept_badges a vs (badge_of k # bs) =
     (if matches (goes a vs) k then [] else [badge_of k]) @ kept_badges a vs bs"
  by (cases a) (simp_all add: kept_badges_def badge_goes)

lemma removed_badges:
  assumes "badge_list ks"
  shows "remove_matches (goes a vs) ks = Some (filter (\<lambda>k. \<not> matches (goes a vs) k) ks)"
    and "badges_in (filter (\<lambda>k. \<not> matches (goes a vs) k) ks) = kept_badges a vs (badges_in ks)"
    and "list_ex quiet (filter (\<lambda>k. \<not> matches (goes a vs) k) ks) = list_ex quiet ks"
proof -
  have "remove_matches (goes a vs) ks = Some (filter (\<lambda>k. \<not> matches (goes a vs) k) ks) \<and>
      badges_in (filter (\<lambda>k. \<not> matches (goes a vs) k) ks) = kept_badges a vs (badges_in ks) \<and>
      list_ex quiet (filter (\<lambda>k. \<not> matches (goes a vs) k) ks) = list_ex quiet ks"
    using assms
  proof (induction ks)
    case (Cons k ks)
    have q: "quiet k \<Longrightarrow> \<not> matches (goes a vs) k" by (erule quiet_match) blast
    have l: "badge_node k \<Longrightarrow> \<not> quiet k" by (erule badge_nodeE) (auto intro: loud_element)
    have "query_all (goes a vs) (kids_of k) = []"
    proof (cases "quiet k")
      case True
      then have "query_all (goes a vs) [k] = []" by (rule quiet_query) blast
      then show ?thesis by (cases k) (simp_all add: query_all_simps split: if_splits)
    next
      case False
      with Cons.prems show ?thesis by (intro badge_kids_clear) (auto simp: goes_def)
    qed
    then have r: "remove_matches (goes a vs) (k # ks) =
        (if matches (goes a vs) k then remove_matches (goes a vs) ks else map_option ((#) k) (remove_matches (goes a vs) ks))"
      by (cases k) simp_all
    show ?case
    proof (cases "quiet k")
      case True
      with Cons q show ?thesis by (simp add: r del: remove_matches.simps)
    next
      case False
      with Cons kept_badges_Cons show ?thesis by (simp add: r del: remove_matches.simps)
    qed
  qed (simp add: kept_badges_def split: filter_action.split)
  then show "remove_matches (goes a vs) ks = Some (filter (\<lambda>k. \<not> matches (goes a vs) k) ks)"
    and "badges_in (filter (\<lambda>k. \<not> matches (goes a vs) k) ks) = kept_badges a vs (badges_in ks)"
    and "list_ex quiet (filter (\<lambda>k. \<not> matches (goes a vs) k) ks) = list_ex quiet ks" by blast+
qed

lemma created_group: "group_node (create_group n t)" "group_of (create_group n t) = new_group n t"
  by (simp_all add: create_group_def new_group_def Let_def)

lemma first_text_items: "first_text (pre @ Element e ks # post) = first_text (pre @ Element e ms # post)"
  by (induction pre rule: first_text.induct) simp_all

text \<open>A group is its list of badges in a frame, and changing the list changes nothing else.\<close>

lemma group_frame:
  assumes "group_node n"
  obtains iks where "badge_list iks" and "\<exists>c. query_first items_class (kids_of n) = Some c \<and> kids_of c = iks"
    and "g_badges (group_of n) = badges_in iks" and "g_space (group_of n) = list_ex quiet iks"
    and "\<And>ks. badge_list ks \<Longrightarrow> group_node (with_kids (change_first items_class (\<lambda>_. ks)) n) \<and>
      group_of (with_kids (change_first items_class (\<lambda>_. ks)) n) =
        (group_of n)\<lparr>g_badges := badges_in ks, g_space := list_ex quiet ks\<rparr>"
  using assms
proof (cases rule: group_nodeE)
  case (1 e pre ie iks post)
  have pre: "query_all items_class pre = []" using 1 by (intro quiet_list) auto
  have f: "filter (\<lambda>k. \<not> quiet k) (pre @ Element ie ks # post) = [Element ie ks]" for ks
    using 1 by (auto simp: list_all_iff filter_empty_conv)
  have w: "with_kids (change_first items_class (\<lambda>_. ks)) n = Element e (pre @ Element ie ks # post)" for ks
    using 1 change_first_skip [OF pre] by simp
  have g: "group_of (Element e (pre @ Element ie ks # post)) =
      \<lparr>g_field = the (get_attr ''data-nb-field'' e), g_text = the (first_text (pre @ Element ie iks # post)),
       g_space = list_ex quiet ks, g_badges = badges_in ks\<rparr>" for ks
    using first_text_items [of pre ie ks post iks] by (simp add: Let_def f del: filter_append)
  have "query_first items_class (kids_of n) = Some (Element ie iks)"
    using 1 pre by (simp add: query_first_def query_all_simps first_of_def)
  moreover have "group_node (Element e (pre @ Element ie ks # post))" if "badge_list ks" for ks
    using 1 that by (simp add: f badge_list_def del: filter_append)
  ultimately show ?thesis using that [of iks] 1 w g by (simp add: g [of iks])
qed

section \<open>The markup implements the badges\<close>

lemma hidden_values_append:
  "hidden_values m parent (ns @ ms) = hidden_values m parent ns @ hidden_values m parent ms"
  by (induction m parent ns rule: hidden_values.induct) simp_all

lemma hidden_values_quiet: "query_all relevant ns = [] \<Longrightarrow> hidden_values m parent ns = []"
  by (induction m parent ns rule: hidden_values.induct) (auto simp: query_all_simps relevant_def split: if_splits)

lemma quiet_nodes: "list_all quiet ns \<Longrightarrow> hidden_values m parent ns = []"
  by (rule hidden_values_quiet, rule quiet_list) simp_all

lemma hidden_values_badges:
  "badge_list ks \<Longrightarrow> hidden_values m parent ks =
     map (\<lambda>b. (Some (b_text b), Some (b_value b))) (filter (\<lambda>b. b_name b = m) (badges_in ks))"
proof (induction ks)
  case (Cons k ks)
  have "hidden_values m parent [k] =
      (if quiet k then [] else if b_name (badge_of k) = m then [(Some (b_text (badge_of k)), Some (b_value (badge_of k)))] else [])"
  proof (cases "quiet k")
    case True
    then show ?thesis using quiet_nodes [of "[k]"] by simp
  next
    case False
    with Cons.prems have b: "badge_node k" by simp
    then obtain e bs where k: "k = Element e bs" by (cases k) simp_all
    with b obtain h where h: "filter (\<lambda>k. \<not> quiet k) bs = [Element h []]" and hs: "hidden_sel h"
      and nm: "get_attr ''name'' h \<noteq> None" and v: "get_attr ''value'' h = get_attr ''data-nb-value'' e"
      and e: "badge_sel e" "\<not> hidden_sel e" "first_text bs \<noteq> None"
      by (auto split: option.splits prod.splits)
    obtain pre post where bs: "bs = pre @ Element h [] # post" and q: "list_all quiet pre" "list_all quiet post"
      using one_loud [OF h] by blast
    have "hidden_values m bs bs = (if get_attr ''name'' h = Some m then [(first_text bs, get_attr ''value'' h)] else [])"
      by (subst (2) bs) (simp add: hidden_values_append quiet_nodes [OF q(1)] quiet_nodes [OF q(2)] hs)
    with False k h nm v e show ?thesis by (auto simp: badge_sel_def)
  qed
  with Cons show ?case using hidden_values_append [of m parent "[k]" ks] by simp
qed simp

lemma hidden_values_groups:
  "wf_markup ns \<Longrightarrow> hidden_values m parent ns = map (\<lambda>tv. (Some (fst tv), Some (snd tv))) (group_values m (groups_in ns))"
proof (induction ns)
  case (Cons n ns)
  have "hidden_values m parent [n] =
      (if quiet n then [] else map (\<lambda>tv. (Some (fst tv), Some (snd tv))) (group_values m [group_of n]))"
  proof (cases "quiet n")
    case True
    then show ?thesis using quiet_nodes [of "[n]"] by simp
  next
    case False
    with Cons.prems have g: "group_node n" by (simp add: wf_markup_Cons)
    then obtain iks where i: "badge_list iks" "g_badges (group_of n) = badges_in iks"
      and v: "hidden_values m parent [n] = hidden_values m iks iks"
    proof (cases rule: group_nodeE)
      case (1 e pre ie iks post)
      have f: "filter (\<lambda>k. \<not> quiet k) (pre @ Element ie iks # post) = [Element ie iks]"
        using 1 by (auto simp: list_all_iff filter_empty_conv)
      have "hidden_values m parent [n] = hidden_values m iks iks"
        using 1 by (simp add: hidden_values_append quiet_nodes)
      moreover have "g_badges (group_of n) = badges_in iks" using 1 f by (simp add: Let_def del: filter_append)
      ultimately show ?thesis using that 1 by blast
    qed
    with False show ?thesis by (simp add: hidden_values_badges comp_def)
  qed
  with Cons show ?case using hidden_values_append [of m parent "[n]" ns] by (simp add: wf_markup_Cons)
qed simp

text \<open>
  C19: The markup implements the badges: on markup as the server renders it or the script has
  left it, editing a filter never raises an exception, leaves such markup, and does to the
  groups and badges the markup stands for exactly what the abstract operation does; and the
  hidden inputs read back the texts and values of the badges of a name.
\<close>

theorem markup_implements_badges:
  assumes "wf_markup items" and "groups p = groups_in items"
  shows "\<exists>new. manage_markup action name text vs items = Some new \<and> wf_markup new \<and>
    groups_in new = groups (manage_dynamic_filter action name text vs p) \<and>
    hidden_values m items items = map (\<lambda>tv. (Some (fst tv), Some (snd tv))) (dynamic_values m p)"
proof -
  define n where "n = (case query_first (group_sel name) items of Some g \<Rightarrow> g | None \<Rightarrow> create_group name text)"
  define g where "g = (case List.find (\<lambda>g. g_field g = name) (groups p) of Some g \<Rightarrow> g | None \<Rightarrow> new_group name text)"
  have n: "group_node n" "group_of n = g"
    using find_group [OF assms(1), of name] created_group [of name "text"]
    by (auto simp: n_def g_def assms(2) split: option.split)
  from group_frame [OF n(1)] obtain iks c where iks: "badge_list iks"
    and c: "query_first items_class (kids_of n) = Some c" "kids_of c = iks"
    and b: "g_badges g = badges_in iks" "g_space g = list_ex quiet iks"
    and w: "\<And>ks. badge_list ks \<Longrightarrow> group_node (with_kids (change_first items_class (\<lambda>_. ks)) n) \<and>
      group_of (with_kids (change_first items_class (\<lambda>_. ks)) n) = g\<lparr>g_badges := badges_in ks, g_space := list_ex quiet ks\<rparr>"
    using n(2) by metis
  let ?kept = "filter (\<lambda>k. \<not> matches (goes action vs) k) iks"
  define ks where "ks = fold (\<lambda>tv. insert_first (create_badge name tv)) vs ?kept"
  define new where "new = with_kids (change_first items_class (\<lambda>_. ks)) n"
  have kept: "badge_list ?kept" using iks by (auto simp: badge_list_def list_all_iff)
  have ks: "badge_list ks" "badges_in ks = fold (\<lambda>tv bs. new_badge name tv # bs) vs (kept_badges action vs (g_badges g))"
    "list_ex quiet ks = g_space g"
    using kept by (simp_all add: ks_def new_badges_markup removed_badges [OF iks] b)
  have h: "group_node new" "group_of new = edit_group action name vs g"
    using w [OF ks(1)] ks by (simp_all add: new_def edit_group_def)
  have e: "ks \<noteq> [] \<longleftrightarrow> g_badges (edit_group action name vs g) \<noteq> [] \<or> g_space (edit_group action name vs g)"
    using ks(2,3) by (cases ks) (auto simp: edit_group_def split: if_splits)
  let ?rest = "remove_first (matches (group_sel name)) items"
  have "manage_markup action name text vs items = Some (if ks \<noteq> [] then insert_first new ?rest else ?rest)"
    using c removed_badges(1) [OF iks]
    by (simp add: manage_markup_def query_groups(2) [OF assms(1)] flip: n_def ks_def new_def)
  moreover have "groups_in (insert_first new ?rest) = group_of new # groups_in ?rest"
    using group_loud [OF h(1)] by (simp add: groups_in_def insert_first_simps)
  moreover have "wf_markup (insert_first new ?rest)"
    using rest_groups(2) [OF assms(1)] h(1) by (simp add: wf_markup_def insert_first_simps)
  moreover have "groups (manage_dynamic_filter action name text vs p) =
      (if ks \<noteq> [] then group_of new # groups_in ?rest else groups_in ?rest)"
    using rest_groups(1) [OF assms(1)] unfolding manage_dynamic_filter_def Let_def g_def [symmetric]
    by (simp add: h e assms(2))
  moreover have "hidden_values m items items = map (\<lambda>tv. (Some (fst tv), Some (snd tv))) (dynamic_values m p)"
    using hidden_values_groups [OF assms(1)] by (simp add: dynamic_values_groups assms(2))
  ultimately show ?thesis using rest_groups(2) [OF assms(1)] by auto
qed

text \<open>Markup the server renders: one group with white space around its only badge.\<close>

definition demo_markup :: "node list" where
  "demo_markup =
     [Text_Node '' '',
      Element (group_elem ''status'')
        [create_remove_button ''Remove All'', Text_Node ''Status:'',
         Element items_elem [Text_Node '' '', create_badge ''status'' (''Active'', ''1''), Text_Node '' '']]]"

lemma markup_implements_badges_witness:
  "\<exists>new. manage_markup Add_Values ''status'' ''Status'' [(''Planned'', ''2'')] demo_markup = Some new \<and>
     hidden_values ''status'' demo_markup demo_markup = [(Some ''Active'', Some ''1'')] \<and>
     groups_in new =
       groups (manage_dynamic_filter Add_Values ''status'' ''Status'' [(''Planned'', ''2'')]
         \<lparr>groups = groups_in demo_markup, basic = None\<rparr>)"
proof -
  let ?p = "\<lparr>groups = groups_in demo_markup, basic = None\<rparr>"
  have w: "wf_markup demo_markup" by code_simp
  have "groups ?p = groups_in demo_markup" by simp
  from markup_implements_badges [OF w this] obtain new where
    "manage_markup Add_Values ''status'' ''Status'' [(''Planned'', ''2'')] demo_markup = Some new"
    "groups_in new = groups (manage_dynamic_filter Add_Values ''status'' ''Status'' [(''Planned'', ''2'')] ?p)" by blast
  moreover have "hidden_values ''status'' demo_markup demo_markup = [(Some ''Active'', Some ''1'')]" by code_simp
  ultimately show ?thesis by blast
qed

end
