(* ===== verification/Search_Markup.thy ===== *)
theory Search_Markup
  imports Tabs Markup
begin

text \<open>
  The elements of the search popup, \<open>openSearchPopup\<close> and \<open>addBadge\<close> of \<open>ui/src/js/search.js\<close>.
  The attributes tell htmx where to find what it works on by selectors; the lemmas show that
  these selectors find it.
\<close>

section \<open>Building blocks\<close>

text \<open>
  \<open>createElement\<close> with children. Lengths are computed by the browser in floating point:
  \<open>rem ps\<close> is the text of the sum of the given numbers of pixels in the unit \<open>rem\<close>.
\<close>

definition element :: "string \<Rightarrow> (string \<times> string) list \<Rightarrow> node list \<Rightarrow> node" where
  "element t as kids = Element (create_element t as) kids"

definition base_padding :: "(nat list \<Rightarrow> string) \<Rightarrow> string" where
  "base_padding rem = rem [12, 20, 6] @ ''rem''"

definition icon_size :: "(nat list \<Rightarrow> string) \<Rightarrow> string" where
  "icon_size rem = ''height: '' @ rem [20] @ ''rem; width: '' @ rem [20] @ ''rem;''"

definition search_icon :: "(nat list \<Rightarrow> string) \<Rightarrow> node" where
  "search_icon rem =
     element ''SPAN''
       [(''aria-hidden'', ''true''),
        (''className'',
          ''mdi mdi-magnify d-inline-flex ms-12 mt-6 pe-none position-absolute start-0 text-secondary top-0 user-select-none''),
        (''style'', icon_size rem)] []"

definition badges_box :: "(nat list \<Rightarrow> string) \<Rightarrow> node list \<Rightarrow> node" where
  "badges_box rem kids =
     element ''SPAN''
       [(''className'', ''d-inline-flex gap-6 left-0 my-6 position-absolute top-0''),
        (''style'', ''left: '' @ base_padding rem @ '';'')] kids"

definition search_input :: "(nat list \<Rightarrow> string) \<Rightarrow> string \<Rightarrow> node" where
  "search_input rem v =
     element ''INPUT''
       [(''aria-label'', ''Search''),
        (''autocomplete'', ''off''),
        (''className'', ''form-control w-100''),
        (''hx-indicator'', ''#search_popup .htmx-indicator''),
        (''hx-swap'', ''afterbegin''),
        (''hx-sync'', ''this:replace''),
        (''hx-target'', ''#search_popup form + div''),
        (''hx-vals'',
          ''javascript:{...Object.fromEntries([...new FormData(document.querySelector(\"#search_popup form\"))])}''),
        (''name'', ''q''),
        (''required'', ''true''),
        (''role'', ''searchbox''),
        (''style'', ''padding-inline: '' @ base_padding rem @ '';''),
        (''type'', ''search''),
        (''value'', v)] []"

definition clear_button :: "(nat list \<Rightarrow> string) \<Rightarrow> string \<Rightarrow> node" where
  "clear_button rem v =
     element ''BUTTON''
       [(''className'',
          ''btn mdi mdi-close bg-transparent border-0 end-0 hstack justify-content-center me-12 mt-6 p-0 position-absolute text-secondary top-0 nb-transition-base'' @
          (if v = [] then '' invisible opacity-0'' else [])),
        (''style'', icon_size rem),
        (''type'', ''button'')]
       [element ''SPAN'' [(''className'', ''visually-hidden'')] [Text_Node ''Clear'']]"

definition submit_input :: node where
  "submit_input = element ''INPUT'' [(''className'', ''d-none''), (''type'', ''submit'')] []"

text \<open>The action is the one of the header, \<open>null\<close> where it has none.\<close>

definition search_form :: "(nat list \<Rightarrow> string) \<Rightarrow> string option \<Rightarrow> string \<Rightarrow> node list \<Rightarrow> node" where
  "search_form rem action v badges =
     element ''FORM''
       [(''action'', id_text action), (''className'', ''pe-auto position-relative w-100''), (''role'', ''search'')]
       [search_icon rem, badges_box rem badges, search_input rem v, clear_button rem v, submit_input]"

definition spinner :: node where
  "spinner =
     element ''DIV'' [(''className'', ''htmx-indicator px-10 py-8'')]
       [element ''DIV''
          [(''className'', ''spinner-border spinner-border-sm fs-5 text-secondary''), (''role'', ''status'')]
          [element ''SPAN'' [(''className'', ''visually-hidden'')] [Text_Node ''Loading...'']]]"

definition input_height :: string where
  "input_height = ''calc(0.875rem * 1.4375 + (0.3125rem + var(--bs-border-width)) * 2)''"

definition results_box :: node where
  "results_box =
     element ''DIV''
       [(''className'', ''bg-body mt-10 overflow-x-hidden overflow-y-auto pe-auto rounded w-100''),
        (''style'', ''max-height: calc(100% - 0.625rem - '' @ input_height @ '');'')]
       [spinner]"

definition popup_box :: "(nat list \<Rightarrow> string) \<Rightarrow> string option \<Rightarrow> string \<Rightarrow> node list \<Rightarrow> node" where
  "popup_box rem action v badges =
     element ''DIV''
       [(''className'', ''h-100 mx-auto pe-none w-100''), (''style'', ''max-width: '' @ rem [720] @ ''rem;'')]
       [search_form rem action v badges, results_box]"

text \<open>Where the main column and the search field of the header are, as texts of numbers.\<close>

record places =
  main_left :: string
  main_right :: string
  header_top :: string

definition overlay :: "(nat list \<Rightarrow> string) \<Rightarrow> places \<Rightarrow> string option \<Rightarrow> string \<Rightarrow> node list \<Rightarrow> node" where
  "overlay rem at action v badges =
     element ''DIV''
       [(''aria-label'', ''Search''),
        (''aria-modal'', ''true''),
        (''className'', ''overflow-auto pb-20 position-fixed top-0 end-0 bottom-0 start-0 nb-z-modal-backdrop''),
        (''id'', ''search_popup''),
        (''role'', ''dialog''),
        (''style'', ''background-color: rgba(0, 0, 0, .5); padding-block-start: '' @ header_top at @
          ''px; padding-inline-start: calc('' @ main_left at @ ''px + '' @ rem [20] @
          ''rem); padding-inline-end: calc(100% - '' @ main_right at @ ''px + '' @ rem [20] @ ''rem);'')]
       [popup_box rem action v badges]"

section \<open>Badges\<close>

definition remove_badge_button :: node where
  "remove_badge_button =
     element ''BUTTON'' [(''type'', ''button'')]
       [element ''SPAN'' [(''aria-hidden'', ''true''), (''class'', ''mdi mdi-close'')] [],
        element ''SPAN'' [(''class'', ''visually-hidden'')] [Text_Node ''Remove'']]"

definition badge_elem :: "string \<Rightarrow> elem" where
  "badge_elem link = create_element ''SPAN'' [(''className'', ''badge border''), (''data-nb-link'', link)]"

definition badge_node :: "string \<Rightarrow> string \<Rightarrow> node" where
  "badge_node name link = Element (badge_elem link) [Text_Node (''in: '' @ name), remove_badge_button]"

definition link_sel :: "elem \<Rightarrow> bool" where
  "link_sel e \<longleftrightarrow> get_attr ''data-nb-link'' e \<noteq> None"

text \<open>
  The badges with the link of the new one go, the new one comes last, and only the last one
  stays (\<open>MAX_BADGE_COUNT\<close>). The box has no other nodes than badges.
\<close>

definition add_badge_node :: "string \<Rightarrow> string \<Rightarrow> node list \<Rightarrow> node list" where
  "add_badge_node name link bs =
     (let kept = filter (\<lambda>n. \<not> matches (\<lambda>e. get_attr ''data-nb-link'' e = Some link) n) bs @ [badge_node name link]
      in drop (length kept - 1) kept)"

text \<open>The address a submitted form goes to: that of the last badge, if there is one.\<close>

definition submit_action :: "node list \<Rightarrow> string option \<Rightarrow> string option" where
  "submit_action badges action =
     (case filter (matches link_sel) (case badges of [] \<Rightarrow> [] | b # bs \<Rightarrow> [last (b # bs)]) of
        Element e ks # _ \<Rightarrow> get_attr ''data-nb-link'' e
      | _ \<Rightarrow> action)"

section \<open>Layout that follows the contents\<close>

text \<open>The space left for the badges: \<open>width\<close> is \<open>None\<close> when the box is empty.\<close>

definition padding_for :: "(nat list \<Rightarrow> string) \<Rightarrow> string option \<Rightarrow> string" where
  "padding_for rem width =
     (case width of
        None \<Rightarrow> base_padding rem
      | Some w \<Rightarrow> ''calc('' @ base_padding rem @ '' + '' @ w @ ''px + '' @ rem [6] @ ''rem)'')"

text \<open>A list of results that is wider than its container fades out at the right edge.\<close>

definition after_swap :: "nat \<Rightarrow> nat \<Rightarrow> elem option \<Rightarrow> elem option" where
  "after_swap width container results_list =
     map_option (class_toggle ''nb-live-search-results-fade-out'' (Some (width > container))) results_list"

section \<open>The selectors find what they name\<close>

lemma create_element_nil [simp]: "create_element t [] = new_elem t"
  by (simp add: create_element_def)

lemma new_elem_plain [simp]: "tag (new_elem t) = t" "get_attr a (new_elem t) = None" "classes (new_elem t) = []"
  by (simp_all add: new_elem_def get_attr_def)

lemma create_element_snoc:
  "create_element t (as @ [(a, v)]) =
     (if a = ''className'' \<or> a = ''class'' then (create_element t as)\<lparr>classes := split_classes v\<rparr>
      else set_attr a v (create_element t as))"
  by (simp add: create_element_def)

lemma tag_create [simp]: "tag (create_element t as) = t"
  by (induction as rule: rev_induct) (auto simp: create_element_snoc)

lemma attr_create:
  "a \<noteq> ''className'' \<Longrightarrow> a \<noteq> ''class'' \<Longrightarrow> get_attr a (create_element t as) = map_of (rev as) a"
proof (induction as rule: rev_induct)
  case (snoc p as)
  then show ?case by (cases p) (auto simp: create_element_snoc)
qed simp

definition badge_nodes :: "node list \<Rightarrow> bool" where
  "badge_nodes bs \<longleftrightarrow> (\<forall>b \<in> set bs. \<exists>name link. b = badge_node name link)"

lemma badge_tags:
  assumes "badge_nodes bs" and "t \<noteq> ''SPAN''" and "t \<noteq> ''BUTTON''"
  shows "query_all (\<lambda>e. tag e = t) bs = []"
proof -
  have "query_all (\<lambda>e. tag e = t) [badge_node name link] = []" for name link
    using assms(2,3) by (simp add: badge_node_def badge_elem_def remove_badge_button_def element_def query_all_simps)
  then have "query_all (\<lambda>e. tag e = t) [b] = []" if "b \<in> set bs" for b
    using assms(1) that by (auto simp: badge_nodes_def)
  then show ?thesis by (simp add: query_all_flat [of _ bs])
qed

lemma badge_names: "badge_nodes bs \<Longrightarrow> query_all (\<lambda>e. get_attr ''name'' e \<noteq> None) bs = []"
proof -
  assume b: "badge_nodes bs"
  have "query_all (\<lambda>e. get_attr ''name'' e \<noteq> None) [badge_node name link] = []" for name link
    by (simp add: badge_node_def badge_elem_def remove_badge_button_def element_def query_all_simps attr_create)
  then have "query_all (\<lambda>e. get_attr ''name'' e \<noteq> None) [x] = []" if "x \<in> set bs" for x
    using b that by (auto simp: badge_nodes_def)
  then show ?thesis by (simp add: query_all_flat [of _ bs])
qed

lemmas popup_parts = overlay_def popup_box_def search_form_def search_icon_def badges_box_def search_input_def clear_button_def
  submit_input_def results_box_def spinner_def element_def

text \<open>
  The request of the field goes for the text of the only control with a name, its answer goes
  into the results, and an open popup is focused at its search field, not at the button that
  submits.
\<close>

lemma popup_selectors:
  assumes "badge_nodes bs"
  shows "adjacent (\<lambda>e. tag e = ''FORM'') (\<lambda>e. tag e = ''DIV'') False [overlay rem at action v bs] = [results_box]"
    and "query_all (\<lambda>e. get_attr ''name'' e \<noteq> None) [overlay rem at action v bs] = [search_input rem v]"
    and "query_first (\<lambda>e. tag e = ''INPUT'') [overlay rem at action v bs] = Some (search_input rem v)"
    and "matches (has_id ''search_popup'') (overlay rem at action v bs)"
proof -
  have b: "query_all (\<lambda>e. tag e = ''INPUT'') bs = []" "query_all (\<lambda>e. tag e = ''DIV'') bs = []"
    using badge_tags [OF assms] by simp_all
  show "adjacent (\<lambda>e. tag e = ''FORM'') (\<lambda>e. tag e = ''DIV'') False [overlay rem at action v bs] = [results_box]"
    using adjacent_none [OF b(2)] by (simp add: popup_parts)
  show "query_first (\<lambda>e. tag e = ''INPUT'') [overlay rem at action v bs] = Some (search_input rem v)"
    by (simp add: popup_parts query_first_def query_all_simps b first_of_def)
  show "query_all (\<lambda>e. get_attr ''name'' e \<noteq> None) [overlay rem at action v bs] = [search_input rem v]"
    using badge_names [OF assms] by (simp add: popup_parts query_all_simps attr_create)
  show "matches (has_id ''search_popup'') (overlay rem at action v bs)"
    by (simp add: popup_parts has_id_def attr_create)
qed

text \<open>
  After a badge was added it is the only one, and a submitted form goes to the list of its
  model.
\<close>

lemma badge_redirects_form:
  "add_badge_node name link bs = [badge_node name link]"
  "submit_action (add_badge_node name link bs) action = Some link"
proof -
  show a: "add_badge_node name link bs = [badge_node name link]" by (simp add: add_badge_node_def Let_def)
  show "submit_action (add_badge_node name link bs) action = Some link"
    unfolding a by (simp add: submit_action_def badge_node_def badge_elem_def link_sel_def attr_create)
qed

lemma badge_nodes_add: "badge_nodes (add_badge_node name link bs)"
  by (auto simp: badge_redirects_form(1) badge_nodes_def)

end
