(* ===== verification/Select2_Setup.thy ===== *)
theory Select2_Setup
  imports Select2
begin

text \<open>
  How the combo boxes are set up, \<open>initializeSelect2\<close> of \<open>ui/src/js/select2.js\<close>: the options
  each kind of box hands to the library, and the template of the color picker. What
  \<open>Select2\<close> models are the callbacks among these options and what happens around the library.
\<close>

section \<open>Options\<close>

datatype option_value =
    Flag bool
  | Text_Option string
  | Texts "string list"
  | Number nat
  | Parent "uid option"
  | Callback string
  | Group "(string \<times> string) list"

definition base_options :: "option_value obj" where
  "base_options =
     [(''allowClear'', Flag True),
      (''placeholder'', Text_Option ''---------''),
      (''selectionCssClass'', Text_Option ''select2--small''),
      (''theme'', Text_Option ''bootstrap-5''),
      (''width'', Text_Option ''off'')]"

definition kind_options :: "box_kind \<Rightarrow> uid option \<Rightarrow> option_value obj" where
  "kind_options k dropdown =
     (case k of
        Color_Picker \<Rightarrow>
          [(''dropdownParent'', Parent dropdown),
           (''templateResult'', Callback ''colorPickerClassCopy''),
           (''templateSelection'', Callback ''colorPickerClassCopy'')]
      | Dynamic_Choice \<Rightarrow>
          [(''ajax'', Group [(''data'', ''data''), (''delay'', ''500''), (''processResults'', ''processResults''), (''url'', ''url'')]),
           (''dropdownParent'', Parent dropdown)]
      | Multi_Value \<Rightarrow>
          [(''dropdownParent'', Parent dropdown),
           (''language'', Group [(''noResults'', ''Type something to add it as an option'')]),
           (''multiple'', Flag True),
           (''tags'', Flag True),
           (''tokenSeparators'', Texts ['','']) ]
      | Static_Choice \<Rightarrow> [(''dropdownParent'', Parent dropdown)])"

definition select2_options :: "box_kind \<Rightarrow> uid option \<Rightarrow> option_value obj" where
  "select2_options k dropdown = ospread base_options (kind_options k dropdown)"

text \<open>The boxes a call makes, with their options and in order.\<close>

definition made_boxes :: "'a page_scheme \<Rightarrow> uid \<Rightarrow> (uid \<times> option_value obj) list" where
  "made_boxes p ctx = map (\<lambda>(u, k, d). (u, select2_options k d)) (initialize_select2_fields p ctx)"

text \<open>
  \<open>colorPickerClassCopy\<close>: the text of an entry, and its container with the style of the option;
  an option without a style writes \<open>null\<close>.
\<close>

definition color_picker_class_copy :: "elem option \<Rightarrow> string \<Rightarrow> elem \<Rightarrow> string \<times> elem" where
  "color_picker_class_copy option_elem entry_text container =
     (entry_text,
      case option_elem of
        None \<Rightarrow> container
      | Some e \<Rightarrow> set_attr ''style'' (id_text (get_attr ''style'' e)) container)"

section \<open>Where boxes open\<close>

lemma kind_options_wf [simp]: "wf_obj (kind_options k d)"
  by (cases k) (simp_all add: kind_options_def wf_obj_def)

text \<open>
  Whatever the kind, a box keeps the look of all boxes and opens in the parent it was given;
  only the boxes for new values take several values and accept any text.
\<close>

lemma option_lookup:
  "oget (select2_options k d) a =
     (case oget (kind_options k d) a of None \<Rightarrow> oget base_options a | Some v \<Rightarrow> Some v)"
  unfolding select2_options_def by (rule oget_ospread) simp

lemma select2_options_common:
  "oget (select2_options k d) ''dropdownParent'' = Some (Parent d)"
  "oget (select2_options k d) ''theme'' = Some (Text_Option ''bootstrap-5'')"
  "oget (select2_options k d) ''tags'' = (if k = Multi_Value then Some (Flag True) else None)"
  unfolding option_lookup by (cases k; simp add: kind_options_def base_options_def)+

text \<open>
  A box inside a modal opens inside that modal, so that the modal does not take its focus:
  its last initialization, by the modal itself, has the modal as the parent.
\<close>

lemma box_in_modal:
  assumes "(u, os) \<in> set (made_boxes p ctx)"
  obtains k d where "os = select2_options k d" and "(u, k, d) \<in> set (initialize_select2_fields p ctx)"
    and "oget os ''dropdownParent'' = Some (Parent d)"
  using assms that by (auto simp: made_boxes_def select2_options_common(1))

lemma modal_is_parent:
  assumes "m \<in> set (qsa p ctx (has_class ''modal''))" and "u \<in> set (qsa p m (has_class (kind_class k)))"
  shows "(u, select2_options k (Some m)) \<in> set (made_boxes p ctx)"
proof -
  have "(u, k, Some m) \<in> set (init_kinds p m (Some m))"
    using assms(2) by (cases k) (auto simp: init_kinds_def init_kind_def)
  then have "(u, k, Some m) \<in> set (initialize_select2_fields p ctx)"
    using assms(1) by (auto simp: initialize_select2_fields_def Let_def)
  then show ?thesis by (force simp: made_boxes_def)
qed

end
