(* ===== verification/Formset_Links.thy ===== *)
theory Formset_Links
  imports Formset Markup Tabs
begin

text \<open>
  Where \<open>project-static/jquery/jquery.formset.js\<close> puts the links that delete rows
  (\<open>insertDeleteLink\<close>), on rows as markup. Theory \<open>Formset\<close> has what the links do.
\<close>

section \<open>Options\<close>

record formset_options =
  prefix_option :: string
  add_text :: string
  delete_text :: string
  add_container :: "string option"
  delete_container :: "string option"
  add_css :: string
  delete_css :: string
  form_css :: string
  extra_option :: "string list"
  keep_field_values :: string
  hide_last_add_form :: bool

definition formset_defaults :: formset_options where
  "formset_defaults =
     \<lparr>prefix_option = ''form'', add_text = ''add another'', delete_text = ''remove'', add_container = None,
      delete_container = None, add_css = ''add-row'', delete_css = ''delete-row'', form_css = ''dynamic-form'',
      extra_option = [], keep_field_values = [], hide_last_add_form = False\<rparr>"

section \<open>The link\<close>

text \<open>
  The selector made of the class attribute: \<open>a\<close> and every class of it. Class attributes are
  separated by blanks; one without any class makes a selector jQuery rejects.
\<close>

definition delete_link_sel :: "formset_options \<Rightarrow> elem \<Rightarrow> bool" where
  "delete_link_sel opts e \<longleftrightarrow> tag e = ''A'' \<and> list_all (\<lambda>c. has_class c e) (split_classes (delete_css opts))"

definition delete_link :: "formset_options \<Rightarrow> node" where
  "delete_link opts =
     Element (set_attr ''href'' ''javascript:void(0)'' ((new_elem ''A'')\<lparr>classes := split_classes (delete_css opts)\<rparr>))
       [Text_Node (delete_text opts)]"

text \<open>\<open>row.find('[class*="c"]').append(x)\<close>: every descendant whose class attribute contains the text.\<close>

definition class_contains :: "string \<Rightarrow> elem \<Rightarrow> bool" where
  "class_contains c e \<longleftrightarrow> includes_str c (join_str '' '' (classes e))"

fun append_in :: "(elem \<Rightarrow> bool) \<Rightarrow> node \<Rightarrow> node list \<Rightarrow> node list" where
  "append_in P x [] = []"
| "append_in P x (Element e ks # ns) =
     Element e (append_in P x ks @ (if P e then [x] else [])) # append_in P x ns"
| "append_in P x (n # ns) = n # append_in P x ns"

text \<open>\<open>row.children(':last').append(x)\<close>\<close>

fun append_in_first :: "node \<Rightarrow> node list \<Rightarrow> node list" where
  "append_in_first x [] = []"
| "append_in_first x (Element e ks # ns) = Element e (ks @ [x]) # ns"
| "append_in_first x (n # ns) = n # append_in_first x ns"

definition append_in_last :: "node \<Rightarrow> node list \<Rightarrow> node list" where
  "append_in_last x ns = rev (append_in_first x (rev ns))"

text \<open>The container, when the option is set and not empty.\<close>

definition wanted_container :: "formset_options \<Rightarrow> string option" where
  "wanted_container opts =
     (case delete_container opts of None \<Rightarrow> None | Some c \<Rightarrow> if c = [] then None else Some c)"

definition insert_delete_link :: "formset_options \<Rightarrow> elem \<Rightarrow> node list \<Rightarrow> node list" where
  "insert_delete_link opts row ks =
     (case wanted_container opts of
        Some c \<Rightarrow> append_in (class_contains c) (delete_link opts) ks
      | None \<Rightarrow>
          if tag row = ''TR'' then append_in_last (delete_link opts) ks
          else if tag row = ''UL'' \<or> tag row = ''OL'' then ks @ [Element (new_elem ''LI'') [delete_link opts]]
          else ks @ [delete_link opts])"

section \<open>One link per row\<close>

lemma link_is_found: "delete_link_sel opts (set_attr a v ((new_elem ''A'')\<lparr>classes := split_classes (delete_css opts)\<rparr>))"
  by (simp add: delete_link_sel_def list_all_iff has_class_def set_attr_def new_elem_def)

lemma query_link: "query_all (delete_link_sel opts) [delete_link opts] = [delete_link opts]"
  by (simp add: delete_link_def query_all_simps link_is_found)

lemma query_append_first:
  assumes "list_ex is_element ns" and "query_all P [x] = [x]"
  shows "length (query_all P (append_in_first x ns)) = Suc (length (query_all P ns))"
  using assms
proof (induction ns rule: append_in_first.induct)
  case (2 x e ks ns)
  then show ?case by (simp add: query_all_simps)
qed (simp_all add: query_all_simps)

lemma length_query_rev: "length (query_all P (rev ns)) = length (query_all P ns)"
  by (simp add: query_all_flat [of P ns] query_all_flat [of P "rev ns"] length_concat rev_map [symmetric] sum_list_rev)

text \<open>
  A row gets exactly one link, wherever it goes: in its last cell, in an item of its own, or at
  its end; and the class selector the plugin uses for all links finds it.
\<close>

lemma one_link_more:
  assumes "wanted_container opts = None" and "tag row = ''TR'' \<Longrightarrow> list_ex is_element ks"
  shows "length (query_all (delete_link_sel opts) (insert_delete_link opts row ks)) =
    Suc (length (query_all (delete_link_sel opts) ks))"
proof -
  let ?P = "delete_link_sel opts" and ?x = "delete_link opts"
  have "length (query_all ?P (append_in_last ?x ks)) = Suc (length (query_all ?P ks))" if "list_ex is_element ks"
    using query_append_first [of "rev ks", OF _ query_link [of opts]] that
    by (simp add: append_in_last_def length_query_rev list_ex_rev)
  moreover have "\<not> ?P (new_elem ''LI'')" by (simp add: delete_link_sel_def new_elem_def)
  ultimately show ?thesis
    using assms by (simp add: insert_delete_link_def query_all_simps query_link)
qed

text \<open>With a container, a row gets as many links as it has containers, none included.\<close>

lemma link_per_container:
  "query_all (class_contains c) ks = [] \<Longrightarrow> append_in (class_contains c) x ks = ks"
  by (induction "class_contains c" x ks rule: append_in.induct) (auto simp: query_all_simps split: if_splits)

lemma missing_container_loses_link:
  assumes "wanted_container opts = Some c" and "query_all (class_contains c) ks = []"
  shows "insert_delete_link opts row ks = ks"
  using assms by (simp add: insert_delete_link_def link_per_container)

end
