(* ===== verification/Form_Start.thy ===== *)
theory Form_Start
  imports Form_Widgets Checkbox_Copies
begin

text \<open>
  How the older scripts start, \<open>project-static/js/forms.js\<close>: the order in which
  \<open>initializeInputs\<close> sets up the inputs of a page or of a fragment, and what the document does
  when it is ready and when htmx has loaded a fragment. The initializers themselves are
  modelled in their own theories; here they are any functions on the state of a page.
\<close>

datatype initializer =
    Slug_Fields | Auto_Fields | Form_Actions | Nullification | Date_Pickers | Vlan_Modes | Image_Previews
  | Checkboxes | Combo_Boxes

definition input_order :: "initializer list" where
  "input_order =
     [Slug_Fields, Auto_Fields, Form_Actions, Nullification, Date_Pickers, Vlan_Modes, Image_Previews, Checkboxes, Combo_Boxes]"

text \<open>The state of the page, the initializers that have run, and how many copies of the listeners of \<open>checkbox.js\<close> there are.\<close>

record 's starting =
  page_state :: 's
  ran :: "initializer list"
  copies :: nat
  per_page :: bool
  paginator :: bool
  textareas :: "uid list"

definition run_initializer :: "(initializer \<Rightarrow> 's \<Rightarrow> 's outcome) \<Rightarrow> initializer \<Rightarrow> 's starting \<Rightarrow> 's starting outcome" where
  "run_initializer init i s =
     (case init i (page_state s) of
        Throw e q \<Rightarrow> Throw e (s\<lparr>page_state := q\<rparr>)
      | Done q \<Rightarrow>
          Done (s\<lparr>page_state := q, ran := ran s @ [i], copies := copies s + (if i = Checkboxes then 1 else 0)\<rparr>))"

definition initialize_inputs :: "(initializer \<Rightarrow> 's \<Rightarrow> 's outcome) \<Rightarrow> 's starting \<Rightarrow> 's starting outcome" where
  "initialize_inputs init s = run_all (run_initializer init) input_order s"

text \<open>
  \<open>initializeDateTimePicker\<close>: which elements become pickers, with the options that are set. The
  selectors are those of the whole document, whatever the context.
\<close>

definition picker_options :: "(string \<times> string list) list" where
  "picker_options =
     [(''date-picker'', [''allowInput'']),
      (''datetime-picker'', [''allowInput'', ''enableSeconds'', ''enableTime'', ''time_24hr'']),
      (''time-picker'', [''allowInput'', ''enableSeconds'', ''enableTime'', ''noCalendar'', ''time_24hr''])]"

definition initialize_date_time_picker :: "'a page_scheme \<Rightarrow> (uid \<times> string list) list" where
  "initialize_date_time_picker p =
     concat (map (\<lambda>(c, os). map (\<lambda>u. (u, os)) (doc_qsa p (has_class c))) picker_options)"

text \<open>The listener for \<open>select#per_page\<close> submits its form.\<close>

definition on_per_page_change :: "uid \<Rightarrow> widget_page \<Rightarrow> widget_page outcome" where
  "on_per_page_change u p = submit_form_of u p"

definition on_document_ready ::
    "(initializer \<Rightarrow> 's \<Rightarrow> 's outcome) \<Rightarrow> ('s \<Rightarrow> uid list) \<Rightarrow> 's starting \<Rightarrow> 's starting outcome" where
  "on_document_ready init areas s =
     and_then (initialize_inputs init s)
       (\<lambda>q. Done (q\<lparr>per_page := True, paginator := True, textareas := areas (page_state q)\<rparr>))"

text \<open>\<open>textarea.form-control\<close>\<close>

definition form_areas :: "'a page_scheme \<Rightarrow> uid list" where
  "form_areas p = doc_qsa p (\<lambda>e. tag e = ''TEXTAREA'' \<and> has_class ''form-control'' e)"

definition on_htmx_load :: "'s starting \<Rightarrow> 's starting" where
  "on_htmx_load s = s\<lparr>copies := Suc (copies s)\<rparr>"

section \<open>One after the other\<close>

text \<open>How many listeners a list of initializers adds.\<close>

definition added :: "initializer list \<Rightarrow> nat" where
  "added xs = length (filter (\<lambda>i. i = Checkboxes) xs)"

lemma added_input_order: "added input_order = 1"
  by (simp add: added_def input_order_def)

lemma run_initializers:
  "case run_all (run_initializer init) xs s of
     Done q \<Rightarrow> ran q = ran s @ xs \<and> copies q = copies s + added xs
   | Throw e q \<Rightarrow> \<exists>ys i zs. xs = ys @ i # zs \<and> ran q = ran s @ ys \<and> copies q = copies s + added ys"
proof (induction xs arbitrary: s)
  case (Cons x xs)
  show ?case
  proof (cases "init x (page_state s)")
    case (Throw e q)
    then have "run_all (run_initializer init) (x # xs) s = Throw e (s\<lparr>page_state := q\<rparr>)"
      by (simp add: run_initializer_def)
    moreover have "x # xs = [] @ x # xs" by simp
    ultimately show ?thesis by (fastforce simp: added_def)
  next
    case (Done q)
    let ?t = "s\<lparr>page_state := q, ran := ran s @ [x], copies := copies s + (if x = Checkboxes then 1 else 0)\<rparr>"
    have r: "run_all (run_initializer init) (x # xs) s = run_all (run_initializer init) xs ?t"
      using Done by (simp add: run_initializer_def)
    show ?thesis
    proof (cases "run_all (run_initializer init) xs ?t")
      case (Done q')
      with Cons.IH [of ?t] show ?thesis unfolding r by (simp add: added_def)
    next
      case (Throw e q')
      with Cons.IH [of ?t] obtain ys i zs where "xs = ys @ i # zs" "ran q' = ran s @ x # ys"
        "copies q' = copies s + (if x = Checkboxes then 1 else 0) + added ys" by auto
      then have "x # xs = (x # ys) @ i # zs \<and> ran q' = ran s @ x # ys \<and> copies q' = copies s + added (x # ys)"
        by (simp add: added_def)
      then show ?thesis unfolding r Throw outcome.case by blast
    qed
  qed
qed (simp add: added_def)

text \<open>
  The combo boxes come last: they are set up exactly when nothing before them throws, and then
  every other initializer has run. Each start adds one copy of the listeners for check boxes,
  each fragment one more.
\<close>

lemma combo_boxes_last:
  assumes "ran s = []"
  shows "case on_document_ready init areas s of
      Done q \<Rightarrow> ran q = input_order \<and> copies (on_htmx_load q) = copies s + 2
    | Throw e q \<Rightarrow> Combo_Boxes \<notin> set (ran q)"
proof (cases "run_all (run_initializer init) input_order s")
  case (Done q)
  then have "ran q = input_order" "copies q = copies s + 1"
    using added_input_order run_initializers [where init = init and xs = input_order and s = s] assms by simp_all
  then show ?thesis
    using Done by (simp add: on_document_ready_def initialize_inputs_def on_htmx_load_def)
next
  case (Throw e q)
  then obtain ys i zs where split: "input_order = ys @ i # zs" and r: "ran q = ys"
    using run_initializers [where init = init and xs = input_order and s = s] assms by auto
  have "butlast input_order = ys @ butlast (i # zs)" unfolding split by (simp add: butlast_append)
  then have "set ys \<subseteq> set (butlast input_order)" by (metis set_append sup_ge1)
  then have "Combo_Boxes \<notin> set ys" by (auto simp: input_order_def)
  with r Throw show ?thesis by (simp add: on_document_ready_def initialize_inputs_def)
qed

end
