(* ===== verification/Requests.thy ===== *)
theory Requests
  imports Select2
begin

text \<open>
  Scripts that send one request and show its answer: the test of a secret
  (\<open>extras/templates/extras/secret_check.js\<close>), the refreshed messages
  (\<open>ui/src/js/messages.js\<close>), and the dialog with the trace of a cable
  (\<open>project-static/js/cabletrace.js\<close>). Answers are JSON; jQuery and htmx send the requests.
\<close>

section \<open>Reading members of an answer\<close>

text \<open>
  \<open>v[n]\<close> and \<open>v.k\<close>, where \<open>None\<close> is \<open>undefined\<close>; reading from \<open>undefined\<close> or \<open>null\<close> throws, which is
  \<open>None\<close> as the result. No member read below is a method of strings or arrays.
\<close>

fun at_index :: "nat \<Rightarrow> json option \<Rightarrow> json option option" where
  "at_index n None = None"
| "at_index n (Some JNull) = None"
| "at_index n (Some (JArr vs)) = Some (if n < length vs then Some (vs ! n) else None)"
| "at_index n (Some (JStr s)) = Some (if n < length s then Some (JStr [s ! n]) else None)"
| "at_index n (Some (JObj ms)) = Some (oget ms (show_nat n))"
| "at_index n (Some v) = Some None"

fun member_of :: "string \<Rightarrow> json option \<Rightarrow> json option option" where
  "member_of k None = None"
| "member_of k (Some JNull) = None"
| "member_of k (Some (JObj ms)) = Some (oget ms k)"
| "member_of k (Some v) = Some None"

section \<open>Secrets and messages\<close>

datatype check_answer = Check_Result json | Check_Error string

definition check_secret_alert :: "check_answer \<Rightarrow> string option" where
  "check_secret_alert a =
     (case a of
        Check_Error response \<Rightarrow> Some (''Error checking secret: '' @ [CHR 0x0A, CHR 0x0A] @ response)
      | Check_Result json \<Rightarrow>
          (case member_of ''result'' (Some json) of
             None \<Rightarrow> None
           | Some r \<Rightarrow>
               if r \<noteq> None \<and> truthy (the r) then Some ''The secret was successfully retrieved.''
               else map_option (\<lambda>m. ''Error retrieving secret: '' @ [CHR 0x0A, CHR 0x0A] @ member_text m)
                      (member_of ''message'' (Some json))))"

definition refresh_messages :: "string \<Rightarrow> (string \<times> string) list" where
  "refresh_messages url =
     [(''method'', ''GET''), (''url'', url), (''select'', ''#header_messages > *''), (''swap'', ''beforeend''),
      (''target'', ''#header_messages'')]"

section \<open>The trace of a cable\<close>

text \<open>The title, the markup appended to the body so far, and the requests that have no answer yet.\<close>

record trace_dialog =
  trace_title :: string
  trace_body :: "string list"
  trace_requests :: "string option list"

text \<open>An attribute \<open>data-obj\<close> that is missing leaves the title as it is.\<close>

definition on_show_trace :: "string option \<Rightarrow> string option \<Rightarrow> trace_dialog \<Rightarrow> trace_dialog" where
  "on_show_trace obj url d =
     d\<lparr>trace_title := (case obj of None \<Rightarrow> trace_title d | Some t \<Rightarrow> t), trace_body := [],
       trace_requests := trace_requests d @ [url]\<rparr>"

text \<open>The name of the device and the name of an end of a segment.\<close>

definition end_text :: "json option \<Rightarrow> string option" where
  "end_text v =
     (case member_of ''device'' v of
        None \<Rightarrow> None
      | Some d \<Rightarrow>
          (case (member_of ''name'' d, member_of ''name'' v) of
             (Some m, Some n) \<Rightarrow> Some (member_text m @ ''<br />'' @ member_text n)
           | _ \<Rightarrow> None))"

definition segment_markup :: "json \<Rightarrow> string option" where
  "segment_markup seg =
     (case (at_index 0 (Some seg), at_index 1 (Some seg), at_index 2 (Some seg)) of
        (Some a, Some c, Some b) \<Rightarrow>
          (case (end_text a, member_of ''id'' c, end_text b) of
             (Some s, Some i, Some t) \<Rightarrow>
               Some (''<div class=\"row\">'' @
                 ''<div class=\"col-md-4 text-center\">'' @ s @ ''</div>'' @
                 ''<div class=\"col-md-4 text-center\">Cable #'' @ member_text i @ ''</div>'' @
                 ''<div class=\"col-md-4 text-center\">'' @ t @ ''</div>'' @
                 ''</div><hr class=\"border-top\" />'')
           | _ \<Rightarrow> None)
      | _ \<Rightarrow> None)"

definition add_segment :: "json \<Rightarrow> trace_dialog \<Rightarrow> trace_dialog outcome" where
  "add_segment seg d =
     (case segment_markup seg of
        None \<Rightarrow> Throw TypeError d
      | Some m \<Rightarrow> Done (d\<lparr>trace_body := trace_body d @ [m]\<rparr>))"

text \<open>The answer to the request at place \<open>k\<close>: a list of segments.\<close>

definition on_trace_answer :: "nat \<Rightarrow> json list \<Rightarrow> trace_dialog \<Rightarrow> trace_dialog outcome" where
  "on_trace_answer k segs d =
     run_all add_segment segs (d\<lparr>trace_requests := take k (trace_requests d) @ drop (Suc k) (trace_requests d)\<rparr>)"

section \<open>What the dialog shows\<close>

text \<open>
  The segments up to the first one that is not complete, which takes the rest with it: a
  segment without a cable or a far end, or an end the user may see only in its brief form.
\<close>

lemma add_segments:
  "trace_body (final_state (run_all add_segment segs d)) =
     trace_body d @ map (\<lambda>s. the (segment_markup s)) (takeWhile (\<lambda>s. segment_markup s \<noteq> None) segs)"
  "completed (run_all add_segment segs d) \<longleftrightarrow> list_all (\<lambda>s. segment_markup s \<noteq> None) segs"
  by (induction segs arbitrary: d) (auto simp: add_segment_def split: option.splits)

lemma trace_shows_prefix:
  "trace_body (final_state (on_trace_answer k segs d)) =
     trace_body d @ map (\<lambda>s. the (segment_markup s)) (takeWhile (\<lambda>s. segment_markup s \<noteq> None) segs)"
  by (simp add: on_trace_answer_def add_segments)

lemma end_of_path_throws:
  assumes "JArr [a, c, JNull] \<in> set segs"
  shows "\<not> completed (on_trace_answer k segs d)"
proof -
  have "segment_markup (JArr [a, c, JNull]) = None"
    by (auto simp: segment_markup_def end_text_def split: option.splits)
  with assms show ?thesis by (auto simp: on_trace_answer_def add_segments list_all_iff)
qed

lemma brief_end_throws:
  assumes "oget ms ''device'' = None"
  shows "segment_markup (JArr [JObj ms, c, b]) = None"
  using assms by (auto simp: segment_markup_def end_text_def split: option.splits)

text \<open>
  Opening the dialog empties it, an answer does not: the answer for the cable shown before
  still arrives, and its segments are shown with those of the cable of the title.
\<close>

lemma late_trace_is_mixed_in:
  assumes "d2 = on_show_trace (Some ''second'') u2 (on_show_trace (Some ''first'') u1 d)"
    and "d3 = final_state (on_trace_answer (length (trace_requests d)) segs1 d2)"
    and "d4 = final_state (on_trace_answer (length (trace_requests d)) segs2 d3)"
  shows "trace_title d2 = ''second'' \<and> trace_body d4 =
    map (\<lambda>s. the (segment_markup s)) (takeWhile (\<lambda>s. segment_markup s \<noteq> None) segs1) @
    map (\<lambda>s. the (segment_markup s)) (takeWhile (\<lambda>s. segment_markup s \<noteq> None) segs2)"
  using assms by (simp add: trace_shows_prefix on_show_trace_def)

text \<open>Names go into the markup as they are, so a name may be markup itself.\<close>

lemma names_are_markup:
  assumes "oget ms ''device'' = Some (JObj ds)" and "oget ds ''name'' = Some (JStr m)" and "oget ms ''name'' = Some (JStr n)"
  shows "end_text (Some (JObj ms)) = Some (m @ ''<br />'' @ n)"
  using assms by (simp add: end_text_def member_text_def)

end
