(* ===== verification/Destructors.thy ===== *)
theory Destructors
  imports Dom
begin

text \<open>
  Listeners that are added and removed again. \<open>initializeCollapseToggleAll\<close>,
  \<open>initializeFormEvents\<close>, \<open>initializeSearch\<close> and \<open>initializeTheme\<close> return a function that undoes
  them, to be called before the page is initialized anew. What the listeners do is modelled
  with their components; here is which of them the browser holds.
\<close>

section \<open>The browser\<close>

text \<open>
  A function object belongs to the call of the initializer that made it, so that listeners of
  two calls differ even where their code is the same. Other scripts have listeners of their
  own.
\<close>

datatype target = Document | Body | Element_Target uid | Color_Scheme

datatype callback = Own nat string | Foreign nat

type_synonym listening = "target \<times> string \<times> callback"

definition add_event_listener :: "listening \<Rightarrow> listening list \<Rightarrow> listening list" where
  "add_event_listener l ls = (if List.member ls l then ls else ls @ [l])"

definition remove_event_listener :: "listening \<Rightarrow> listening list \<Rightarrow> listening list" where
  "remove_event_listener l ls = filter (\<lambda>m. m \<noteq> l) ls"

section \<open>Initializers and destructors\<close>

text \<open>
  The search box has the input of the header, if the page has one; the theme has the buttons
  of its modal.
\<close>

datatype widget = Collapse_All | Form_Events | Search_Box "uid option" | Theme_Switch "uid list"

definition collapse_adds :: "nat \<Rightarrow> listening list" where
  "collapse_adds k =
     [(Document, ''click'', Own k ''onClick''),
      (Document, ''hidden.bs.collapse'', Own k ''onBootstrapCollapseFinish''),
      (Document, ''shown.bs.collapse'', Own k ''onBootstrapExpandFinish''),
      (Document, ''htmx:afterSwap'', Own k ''onHtmxAfterSwap''),
      (Document, ''htmx:oobAfterSwap'', Own k ''onHtmxAfterSwap'')]"

definition collapse_removes :: "nat \<Rightarrow> listening list" where
  "collapse_removes k =
     [(Document, ''click'', Own k ''onClick''),
      (Document, ''hidden.bs.collapse'', Own k ''onBootstrapCollapseFinish''),
      (Document, ''shown.bs.collapse'', Own k ''onBootstrapExpandFinish''),
      (Document, ''htmx:afterSwap'', Own k ''onHtmxAfterSwap''),
      (Document, ''htmx:oobAfterSwap'', Own k ''onHtmxAfterSwap'')]"

text \<open>\<open>htmx.on\<close> without an element adds to the body.\<close>

definition form_adds :: "nat \<Rightarrow> listening list" where
  "form_adds k =
     [(Document, ''DOMContentLoaded'', Own k ''onDOMContentLoaded''),
      (Body, ''htmx:afterSettle'', Own k ''onHtmxAfterSettle'')]"

definition form_removes :: "nat \<Rightarrow> listening list" where
  "form_removes k =
     [(Document, ''DOMContentLoaded'', Own k ''onDOMContentLoaded''),
      (Body, ''htmx:afterSettle'', Own k ''onHtmxAfterSettle'')]"

definition search_adds :: "nat \<Rightarrow> uid \<Rightarrow> listening list" where
  "search_adds k i =
     [(Document, ''keydown'', Own k ''onKeyDown''), (Element_Target i, ''focus'', Own k ''openSearchPopup'')]"

definition search_removes :: "nat \<Rightarrow> uid \<Rightarrow> listening list" where
  "search_removes k i =
     [(Document, ''keydown'', Own k ''onKeyDown''), (Element_Target i, ''focus'', Own k ''openSearchPopup'')]"

definition theme_adds :: "nat \<Rightarrow> uid list \<Rightarrow> listening list" where
  "theme_adds k bs =
     (Color_Scheme, ''change'', Own k ''setTheme'') # map (\<lambda>b. (Element_Target b, ''click'', Own k ''onClick'')) bs"

definition theme_removes :: "nat \<Rightarrow> uid list \<Rightarrow> listening list" where
  "theme_removes k bs = map (\<lambda>b. (Element_Target b, ''click'', Own k ''onClick'')) bs"

lemmas listener_lists = collapse_adds_def collapse_removes_def form_adds_def form_removes_def
  search_adds_def search_removes_def theme_adds_def theme_removes_def

fun installs :: "nat \<Rightarrow> widget \<Rightarrow> listening list" where
  "installs k Collapse_All = collapse_adds k"
| "installs k Form_Events = form_adds k"
| "installs k (Search_Box None) = []"
| "installs k (Search_Box (Some i)) = search_adds k i"
| "installs k (Theme_Switch bs) = theme_adds k bs"

fun releases :: "nat \<Rightarrow> widget \<Rightarrow> listening list" where
  "releases k Collapse_All = collapse_removes k"
| "releases k Form_Events = form_removes k"
| "releases k (Search_Box None) = []"
| "releases k (Search_Box (Some i)) = search_removes k i"
| "releases k (Theme_Switch bs) = theme_removes k bs"

text \<open>
  The calls so far, in order, and the destructors that were called; a destructor may be called
  more than once.
\<close>

record lifetimes =
  listening :: "listening list"
  made :: "widget list"
  destroyed :: "nat list"

datatype life_event = Start widget | Destroy nat

definition life_step :: "life_event \<Rightarrow> lifetimes \<Rightarrow> lifetimes" where
  "life_step e s =
     (case e of
        Start w \<Rightarrow>
          s\<lparr>listening := fold add_event_listener (installs (length (made s)) w) (listening s), made := made s @ [w]\<rparr>
      | Destroy k \<Rightarrow>
          if k < length (made s)
          then s\<lparr>listening := fold remove_event_listener (releases k (made s ! k)) (listening s), destroyed := k # destroyed s\<rparr>
          else s)"

definition before_scripts :: "listening list \<Rightarrow> lifetimes" where
  "before_scripts ls = \<lparr>listening = ls, made = [], destroyed = []\<rparr>"

section \<open>Who listens\<close>

text \<open>The listeners a call has at the moment: all of its own, or those its destructor forgets.\<close>

definition remaining :: "nat list \<Rightarrow> nat \<Rightarrow> widget \<Rightarrow> listening list" where
  "remaining gone k w = (if List.member gone k then filter (\<lambda>l. l \<notin> set (releases k w)) (installs k w) else installs k w)"

definition life_ok :: "listening list \<Rightarrow> lifetimes \<Rightarrow> bool" where
  "life_ok ls s \<longleftrightarrow>
     listening s = ls @ concat (map (\<lambda>k. remaining (destroyed s) k (made s ! k)) [0..<length (made s)]) \<and>
     list_all (\<lambda>k. k < length (made s)) (destroyed s)"

fun sound_start :: "life_event \<Rightarrow> bool" where
  "sound_start (Start (Theme_Switch bs)) = distinct bs"
| "sound_start e = True"

fun foreign :: "listening \<Rightarrow> bool" where
  "foreign (t, e, Foreign n) = True"
| "foreign (t, e, Own k f) = False"

lemma add_all:
  "distinct xs \<Longrightarrow> set xs \<inter> set ls = {} \<Longrightarrow> fold add_event_listener xs ls = ls @ xs"
  by (induction xs arbitrary: ls) (auto simp: add_event_listener_def)

lemma remove_all: "fold remove_event_listener xs ls = filter (\<lambda>l. l \<notin> set xs) ls"
  by (induction xs arbitrary: ls) (auto simp: remove_event_listener_def conj_commute intro!: filter_cong)

lemma installs_own: "l \<in> set (installs k w) \<Longrightarrow> \<exists>f. snd (snd l) = Own k f"
  by (cases "(k, w)" rule: installs.cases) (auto simp: listener_lists)

lemma releases_own: "l \<in> set (releases k w) \<Longrightarrow> \<exists>f. snd (snd l) = Own k f"
  by (cases "(k, w)" rule: releases.cases) (auto simp: listener_lists)

lemma remaining_own: "l \<in> set (remaining gone k w) \<Longrightarrow> \<exists>f. snd (snd l) = Own k f"
  by (auto simp: remaining_def dest: installs_own split: if_splits)

lemma distinct_installs: "sound_start (Start w) \<Longrightarrow> distinct (installs k w)"
  by (cases "(k, w)" rule: installs.cases) (auto simp: listener_lists distinct_map inj_on_def)

lemma foreign_own: "foreign l \<Longrightarrow> snd (snd l) \<noteq> Own k f"
  by (cases l rule: foreign.cases) auto

lemma remaining_fresh: "list_all (\<lambda>k. k < n) gone \<Longrightarrow> remaining gone n w = installs n w"
  by (auto simp: remaining_def list_all_iff)

lemma remaining_after:
  "filter (\<lambda>l. l \<notin> set (releases j v)) (remaining gone k w) =
     (if k = j then filter (\<lambda>l. l \<notin> set (releases k v)) (remaining gone k w) else remaining gone k w)"
proof (cases "k = j")
  case False
  have "l \<notin> set (releases j v)" if "l \<in> set (remaining gone k w)" for l
    using that False by (auto dest!: remaining_own releases_own)
  with False show ?thesis by (simp add: filter_id_conv)
qed simp

lemma remaining_destroyed:
  "remaining (j # gone) k w =
     (if k = j then filter (\<lambda>l. l \<notin> set (releases k w)) (remaining gone k w) else remaining gone k w)"
  by (auto simp: remaining_def intro: filter_cong)

lemma life_ok_step:
  assumes "list_all foreign ls" and "life_ok ls s" and "sound_start e"
  shows "life_ok ls (life_step e s)"
proof (cases e)
  case (Start w)
  let ?n = "length (made s)"
  have "l \<notin> set (listening s)" if "l \<in> set (installs ?n w)" for l
    using that assms(1,2) by (fastforce simp: life_ok_def list_all_iff dest!: installs_own remaining_own foreign_own)
  then have "fold add_event_listener (installs ?n w) (listening s) = listening s @ installs ?n w"
    using assms(3) Start by (intro add_all distinct_installs) auto
  moreover have "concat (map (\<lambda>k. remaining (destroyed s) k ((made s @ [w]) ! k)) [0..<?n]) =
      concat (map (\<lambda>k. remaining (destroyed s) k (made s ! k)) [0..<?n])"
    by (intro arg_cong [where f = concat] map_cong) (simp_all add: nth_append)
  ultimately show ?thesis
    using assms(2) remaining_fresh [of ?n "destroyed s" w]
    by (auto simp: Start life_step_def life_ok_def list_all_iff)
next
  case (Destroy j)
  show ?thesis
  proof (cases "j < length (made s)")
    case True
    let ?r = "\<lambda>l. l \<notin> set (releases j (made s ! j))"
    have "filter ?r ls = ls"
      using assms(1) by (auto simp: filter_id_conv list_all_iff dest!: releases_own foreign_own)
    moreover have "filter ?r (remaining (destroyed s) k (made s ! k)) = remaining (j # destroyed s) k (made s ! k)" for k
      by (subst remaining_after) (simp add: remaining_destroyed)
    ultimately have "filter ?r (listening s) =
        ls @ concat (map (\<lambda>k. remaining (j # destroyed s) k (made s ! k)) [0..<length (made s)])"
      using assms(2) by (simp add: life_ok_def filter_concat comp_def)
    with True assms(2) show ?thesis by (simp add: Destroy life_step_def life_ok_def remove_all)
  qed (use assms(2) in \<open>simp add: Destroy life_step_def\<close>)
qed

interpretation lifetimes: guarded_machine life_step sound_start "\<lambda>s. list_all foreign ls \<and> life_ok ls s" for ls
  by unfold_locales (simp add: life_ok_step)

definition forgotten :: "nat \<Rightarrow> widget \<Rightarrow> listening list" where
  "forgotten k w = (case w of Theme_Switch bs \<Rightarrow> [(Color_Scheme, ''change'', Own k ''setTheme'')] | _ \<Rightarrow> [])"

lemma remaining_forgotten: "List.member gone k \<Longrightarrow> remaining gone k w = forgotten k w"
  by (cases "(k, w)" rule: installs.cases) (auto simp: listener_lists remaining_def forgotten_def filter_empty_conv)



end
