(* ===== verification/Tab_Sync.thy ===== *)
theory Tab_Sync
  imports Tabs
begin

text \<open>
  Tab bars while they are used, \<open>ui/src/js/tabs.js\<close>: the listeners that carry a tab chosen in
  the clone over to the original bar, from which the next clone is made, and the observers
  that make it. Showing a tab is Bootstrap's; of it the lemmas use what it documents, that the
  tab shown is the only active one.
\<close>

section \<open>Listeners and observers\<close>

definition all_links :: "tab list \<Rightarrow> elem list" where
  "all_links ts = concat (map links ts)"

definition clone_tabs :: "clone \<Rightarrow> tab list" where
  "clone_tabs c = shown_tabs c @ (case menu c of None \<Rightarrow> [] | Some ts \<Rightarrow> ts)"

text \<open>\<open>tabs.querySelector(`a[href="..."]`)\<close>: the place of the link among those of the bar.\<close>

definition original_tab :: "string option \<Rightarrow> tab list \<Rightarrow> nat option" where
  "original_tab href ts =
     (let i = find_index (\<lambda>e. tag e = ''A'' \<and> get_attr ''href'' e = Some (id_text href)) (all_links ts)
      in if i < 0 then None else Some (nat i))"

text \<open>
  \<open>show n\<close> stands for \<open>Tab.show\<close> of the link at place \<open>n\<close>. The instance for a link that does not
  exist cannot be made.
\<close>

definition on_shown :: "(nat \<Rightarrow> tab list \<Rightarrow> tab list) \<Rightarrow> elem \<Rightarrow> tab_bar \<Rightarrow> tab_bar outcome" where
  "on_shown show cloned s =
     (case original_tab (get_attr ''href'' cloned) (tabs s) of
        None \<Rightarrow> Throw TypeError s
      | Some n \<Rightarrow> Done (s\<lparr>tabs := show n (tabs s)\<rparr>))"

definition nav_tabs :: "elem \<Rightarrow> bool" where
  "nav_tabs e \<longleftrightarrow> has_class ''nav'' e \<and> has_class ''nav-tabs'' e"

definition observe_collapse_tabs :: "'a page_scheme \<Rightarrow> uid list" where
  "observe_collapse_tabs p = doc_qsa p nav_tabs"

definition unobserve :: "uid list \<Rightarrow> uid list \<Rightarrow> uid list" where
  "unobserve observers observed = filter (\<lambda>u. u \<notin> set observers) observed"

text \<open>The observer of a bar has it collapsed anew for its present width.\<close>

definition on_resize :: "int \<Rightarrow> tab_bar \<Rightarrow> tab_bar outcome" where
  "on_resize w s = collapse_tabs (s\<lparr>bar_width := w\<rparr>)"

section \<open>The chosen tab stays chosen\<close>

definition state_of :: "tab list \<Rightarrow> (string option \<times> bool) list" where
  "state_of ts = map (\<lambda>e. (get_attr ''href'' e, has_class ''active'' e)) (all_links ts)"

lemma all_links_append [simp]: "all_links (ts @ us) = all_links ts @ all_links us"
  by (simp add: all_links_def)

lemma state_of_append [simp]: "state_of (ts @ us) = state_of ts @ state_of us"
  by (simp add: state_of_def)

lemma class_remove_attr [simp]: "get_attr a (class_remove c e) = get_attr a e"
  by (simp add: class_remove_def get_attr_def)

lemma menu_link_attr [simp]: "get_attr a (menu_link e) = get_attr a e"
proof -
  have "get_attr a (fold class_remove cs e) = get_attr a e" for cs e by (induction cs arbitrary: e) simp_all
  then show ?thesis by (simp add: menu_link_def remove_element_classes_def class_add_def get_attr_def)
qed

lemma state_of_menu [simp]: "state_of (map menu_tab ts) = state_of ts"
proof -
  have "all_links (map menu_tab ts) = map menu_link (all_links ts)"
    by (simp add: all_links_def menu_tab_def map_concat comp_def)
  then show ?thesis by (simp add: state_of_def comp_def menu_link_classes)
qed

text \<open>A clone shows the state of the bar, whichever tabs are in its menu.\<close>

lemma clone_state:
  assumes "collapse_tabs s = Done s'" and "c \<in> set (clones s')"
  shows "state_of (clone_tabs c) = state_of (tabs s)" and "tabs s' = tabs s"
proof -
  let ?s1 = "s\<lparr>clones := [fresh_clone s]\<rparr>"
  have p: "case collapse_loop ?s1 (tabs s) [] of
      Some (v, c) \<Rightarrow> (\<exists>m \<le> length (tabs s). v = take m (tabs s) \<and> c = drop m (tabs s) \<and>
        \<not> should_collapse ?s1 (take m (tabs s)) True \<and>
        (\<forall>j. m < j \<and> j \<le> length (tabs s) \<longrightarrow> should_collapse ?s1 (take j (tabs s)) True))
    | None \<Rightarrow> \<forall>j \<le> length (tabs s). should_collapse ?s1 (take j (tabs s)) True"
    by (rule collapse_loop_prefix) simp_all
  have sc: "should_collapse s (tabs s) False"
    using assms by (auto simp: collapse_tabs_def Let_def split: if_splits)
  from assms sc obtain v w where l: "collapse_loop ?s1 (tabs s) [] = Some (v, w)"
    by (auto simp: collapse_tabs_def Let_def split: option.splits)
  with p obtain m where "v = take m (tabs s)" "w = drop m (tabs s)" by auto
  with assms sc l have ct: "clone_tabs c = take m (tabs s) @ map menu_tab (drop m (tabs s))"
    and t: "tabs s' = tabs s"
    by (auto simp: collapse_tabs_def Let_def clone_tabs_def)
  have "state_of (clone_tabs c) = state_of (take m (tabs s)) @ state_of (drop m (tabs s))"
    using ct by simp
  also have "\<dots> = state_of (take m (tabs s) @ drop m (tabs s))" by (rule state_of_append [symmetric])
  finally show "state_of (clone_tabs c) = state_of (tabs s)" by (simp only: append_take_drop_id)
  show "tabs s' = tabs s" by (rule t)
qed

lemma original_tab_place:
  assumes "n < length (all_links ts)" and "list_all (\<lambda>e. tag e = ''A'') (all_links ts)"
    and "distinct (map (get_attr ''href'') (all_links ts))" and "get_attr ''href'' (all_links ts ! n) = Some h"
  shows "original_tab (Some h) ts = Some n"
proof -
  let ?P = "\<lambda>e. tag e = ''A'' \<and> get_attr ''href'' e = Some h"
  have "\<not> ?P (all_links ts ! m)" if "m < n" for m
    using that assms(1,4) nth_eq_iff_index_eq [OF assms(3), of m n] by simp
  then have "find_index ?P (all_links ts) = int n"
    using assms by (intro find_index_eqI) (auto simp: list_all_length)
  then show ?thesis by (simp add: original_tab_def id_text_def)
qed

text \<open>
  Choosing a tab in the clone and resizing the page: the next clone, if the tabs still do not
  fit, has that tab active and no other, and so has the bar itself if they fit again.
\<close>

lemma chosen_tab_survives_resize:
  assumes links: "list_all (\<lambda>e. tag e = ''A'') (all_links (tabs s))" "distinct (map (get_attr ''href'') (all_links (tabs s)))"
    and clone: "collapse_tabs s = Done s1" "clones s1 = [c]"
    and n: "n < length (all_links (tabs s))" "get_attr ''href'' (all_links (clone_tabs c) ! n) = Some h"
    and lib: "\<And>n ts. n < length (state_of ts) \<Longrightarrow>
      state_of (show n ts) = map (\<lambda>i. (fst (state_of ts ! i), i = n)) [0..<length (state_of ts)]"
    and resized: "and_then (on_shown show (all_links (clone_tabs c) ! n) s1) (on_resize w) = Done s2"
  shows "state_of (tabs s2) = map (\<lambda>i. (fst (state_of (tabs s) ! i), i = n)) [0..<length (state_of (tabs s))] \<and>
    (\<forall>c2 \<in> set (clones s2). state_of (clone_tabs c2) = state_of (tabs s2))"
proof -
  have cs: "state_of (clone_tabs c) = state_of (tabs s)" "tabs s1 = tabs s"
    using clone_state [OF clone(1)] clone(2) by simp_all
  from cs(1) have "length (all_links (clone_tabs c)) = length (all_links (tabs s))"
    unfolding state_of_def by (rule map_eq_imp_length_eq)
  then have "get_attr ''href'' (all_links (tabs s) ! n) = Some h"
    using arg_cong [OF cs(1), of "\<lambda>xs. fst (xs ! n)"] n by (simp add: state_of_def)
  then have "original_tab (Some h) (tabs s) = Some n" by (rule original_tab_place [OF n(1) links])
  then have r: "on_resize w (s1\<lparr>tabs := show n (tabs s)\<rparr>) = Done s2"
    using resized by (simp add: on_shown_def n(2) cs(2))
  let ?s = "s1\<lparr>tabs := show n (tabs s), bar_width := w\<rparr>"
  have "tabs s2 = show n (tabs s)"
    using r by (auto simp: on_resize_def collapse_tabs_def Let_def split: if_splits option.splits)
  moreover have "\<forall>c2 \<in> set (clones s2). state_of (clone_tabs c2) = state_of (show n (tabs s))"
    using clone_state(1) [of ?s s2] r by (simp add: on_resize_def)
  ultimately show ?thesis using lib [of n "tabs s"] n(1) by (simp add: state_of_def)
qed

end
