(* ===== verification/Filter_Value.thy ===== *)
theory Filter_Value
  imports Filter_Markup
begin

text \<open>
  The value control of the "Add filter" form, \<open>project-static/js/filter_form.js\<close>, as markup:
  how the script finds the controls of the form, and what happens to the neighbours of the
  control when another one replaces it. Theory \<open>Filter_Form\<close> has the requests in between.
\<close>

section \<open>The controls of the form\<close>

definition type_field :: "node list \<Rightarrow> node option" where
  "type_field form =
     query_first (\<lambda>e. case get_attr ''name'' e of None \<Rightarrow> False | Some n \<Rightarrow> ends_with ''lookup_type'' n) form"

definition form_field :: "elem \<Rightarrow> bool" where
  "form_field e \<longleftrightarrow> has_class ''nb-add-filter-form-field'' e"

definition value_sel :: "elem \<Rightarrow> bool" where
  "value_sel e \<longleftrightarrow> tag e = ''INPUT'' \<or> tag e = ''SELECT'' \<or> tag e = ''TEXTAREA''"

definition value_field :: "node list \<Rightarrow> node option" where
  "value_field form =
     (case rev (query_all form_field form) of
        [] \<Rightarrow> None
      | f # fs \<Rightarrow> query_first value_sel (kids_of f))"

section \<open>Replacing a control\<close>

text \<open>
  \<open>pre\<close> and \<open>post\<close> are the nodes before and after the control in its parent. The next element
  goes, and the element before is made the label of the new control, whatever they are.
\<close>

fun change_next :: "(elem \<Rightarrow> elem) \<Rightarrow> node list \<Rightarrow> node list" where
  "change_next f [] = []"
| "change_next f (Element e ks # ns) = Element (f e) ks # ns"
| "change_next f (n # ns) = n # change_next f ns"

definition point_label :: "elem \<Rightarrow> node list \<Rightarrow> node list" where
  "point_label control pre =
     rev (change_next (set_attr ''for'' (id_text (get_attr ''id'' control))) (rev pre))"

definition replaced_siblings :: "node list \<Rightarrow> elem \<times> node list \<Rightarrow> node list \<Rightarrow> node list" where
  "replaced_siblings pre new post =
     point_label (fst new) pre @ Element (fst new) (snd new) # remove_first is_element post"

section \<open>What a field looks like afterwards\<close>

lemma change_next_skip: "list_all (\<lambda>n. \<not> is_element n) ns \<Longrightarrow> change_next f (ns @ ms) = ns @ change_next f ms"
proof (induction ns)
  case (Cons n ns)
  then show ?case by (cases n) simp_all
qed simp

lemma remove_first_skip: "list_all (\<lambda>n. \<not> P n) ns \<Longrightarrow> remove_first P (ns @ ms) = ns @ remove_first P ms"
  by (induction ns) simp_all

text \<open>
  In a field as the page has it, a label, a control and the widget of the control, if there is
  one, the label belongs to the new control, the widget is gone, and the field has as many
  elements as before or, with a widget, one less.
\<close>

lemma label_follows_control:
  assumes "list_all (\<lambda>n. \<not> is_element n) gap" and "list_all (\<lambda>n. \<not> is_element n) gap'"
    and "get_attr ''id'' control = Some i"
  shows "replaced_siblings (before @ Element label ls # gap) (control, ks) (gap' @ Element widget ws # after) =
    before @ Element (set_attr ''for'' i label) ls # gap @ Element control ks # gap' @ after"
proof -
  have "list_all (\<lambda>n. \<not> is_element n) (rev gap)" using assms(1) by (simp add: list_all_iff)
  then have "point_label control (before @ Element label ls # gap) = before @ Element (set_attr ''for'' i label) ls # gap"
    using assms(3) by (simp add: point_label_def change_next_skip id_text_def)
  then show ?thesis using remove_first_skip [OF assms(2)] by (simp add: replaced_siblings_def)
qed

lemma plain_control_keeps_rest:
  assumes "list_all (\<lambda>n. \<not> is_element n) post"
  shows "replaced_siblings pre (control, ks) post = point_label control pre @ Element control ks # post"
  using remove_first_skip [OF assms, of "[]"] by (simp add: replaced_siblings_def)

text \<open>The text field after an error is a control with an id, so that it has a label, too.\<close>

lemma fallback_has_label:
  "get_attr ''id'' (fallback_control n) = Some (''id_for_'' @ n)" "value_sel (fallback_control n)"
  by (simp_all add: fallback_control_def value_sel_def class_toggle_def class_add_def get_attr_def set_attr_def new_elem_def)

text \<open>
  The next element goes even where it is no widget: after a control without a widget, a help
  text is taken for one.
\<close>

lemma help_text_goes:
  assumes "list_all (\<lambda>n. \<not> is_element n) gap"
  shows "Element help hs \<notin> set (remove_first is_element (gap @ [Element help hs]))"
  using assms by (simp add: remove_first_skip) (auto simp: list_all_iff)

text \<open>The replaced control is the one the next change of the lookup type finds.\<close>

lemma value_field_last:
  assumes "form_field e" and "query_all form_field ks = []" and "query_all form_field rest = []"
  shows "value_field (earlier @ Element e ks # rest) = query_first value_sel ks"
  using assms by (simp add: value_field_def query_all_simps)

lemma query_change_next:
  "(\<And>e. value_sel (f e) = value_sel e) \<Longrightarrow> query_all value_sel ns = [] \<Longrightarrow> query_all value_sel (change_next f ns) = []"
  by (induction f ns rule: change_next.induct) (auto simp: query_all_simps split: if_splits)

lemma new_control_is_found:
  assumes "value_sel control" and "query_all value_sel pre = []"
  shows "query_first value_sel (replaced_siblings pre (control, ks) post) = Some (Element control ks)"
proof -
  have "query_all value_sel (change_next (set_attr ''for'' v) ns) = []" if "query_all value_sel ns = []" for v ns
    using that by (intro query_change_next) (simp_all add: value_sel_def set_attr_def)
  moreover have "query_all P (rev ns) = [] \<longleftrightarrow> query_all P ns = []" for P ns
    by (auto simp: query_all_flat [of P ns] query_all_flat [of P "rev ns"])
  ultimately have "query_all value_sel (point_label control pre) = []"
    using assms(2) by (simp add: point_label_def)
  then show ?thesis using assms(1) by (simp add: replaced_siblings_def query_first_def query_all_simps first_of_def)
qed

end
