(* ===== verification/Modal_Markup.thy ===== *)
theory Modal_Markup
  imports Page_Actions Search_Markup
begin

text \<open>
  The generic modal as markup, \<open>ui/src/js/modal.js\<close>: the fallback its content is reset to, and
  where the listeners for closing and for failed requests write. The modal of theory
  \<open>Page_Actions\<close>, which speaks of contents and texts, is what this markup stands for.
\<close>

section \<open>Markup\<close>

text \<open>The parser keeps the white space between the lines of a template.\<close>

definition ws :: "nat \<Rightarrow> node" where
  "ws n = Text_Node (CHR 0x0A # replicate n (CHR '' ''))"

definition modal_container_id :: string where "modal_container_id = ''modal-content-container''"

definition header_elem :: elem where "header_elem = create_element ''DIV'' [(''class'', ''modal-header'')]"
definition title_elem :: elem where
  "title_elem = create_element ''H2'' [(''class'', ''modal-title''), (''id'', ''nautobot-generic-modal-title'')]"
definition body_elem :: elem where "body_elem = create_element ''DIV'' [(''class'', ''modal-body text-center p-5'')]"

definition close_button :: "node list" where
  "close_button =
     [ws 4,
      element ''BUTTON''
        [(''type'', ''button''), (''class'', ''btn-close''), (''data-bs-dismiss'', ''modal''), (''aria-label'', ''Close'')] [],
      ws 2]"

definition loading_content :: "node list" where
  "loading_content =
     [ws 4,
      element ''DIV'' [(''class'', ''spinner-border text-primary''), (''role'', ''status'')]
        [ws 6, element ''SPAN'' [(''class'', ''visually-hidden'')] [Text_Node ''Loading...''], ws 4],
      ws 4,
      element ''P'' [(''class'', ''mt-2 text-muted'')] [Text_Node ''Please wait while we fetch the content...''],
      ws 2]"

text \<open>A header with a title and a body; the listeners write into both.\<close>

definition titled :: "node list \<Rightarrow> node list \<Rightarrow> node list" where
  "titled ts bs =
     [ws 2, Element header_elem (ws 4 # Element title_elem ts # close_button), ws 2, Element body_elem bs, ws 0]"

definition fallback_content :: "node list" where
  "fallback_content = titled [Text_Node ''Loading...''] loading_content"

definition error_content :: "int \<Rightarrow> node list" where
  "error_content status =
     [ws 8,
      element ''DIV'' [(''class'', ''alert alert-danger'')]
        [ws 10,
         element ''P'' [] [element ''STRONG'' [] [Text_Node ''Failed to load content.'']],
         ws 10,
         element ''P'' [] [Text_Node (error_body status)],
         ws 8],
      ws 6]"

definition is_container :: "elem \<Rightarrow> bool" where
  "is_container e \<longleftrightarrow> has_id modal_container_id e"

definition asks_refresh :: "elem \<Rightarrow> bool" where
  "asks_refresh e \<longleftrightarrow> get_attr ''data-nb-refresh-on-close'' e = Some ''true''"

definition modal_title_sel :: "elem \<Rightarrow> bool" where "modal_title_sel e \<longleftrightarrow> has_class ''modal-title'' e"
definition modal_body_sel :: "elem \<Rightarrow> bool" where "modal_body_sel e \<longleftrightarrow> has_class ''modal-body'' e"

section \<open>The listeners\<close>

text \<open>\<open>ns\<close> is what is inside the modal; the result of closing also says whether the page is loaded anew.\<close>

definition on_hidden_markup :: "node list \<Rightarrow> bool \<times> node list" where
  "on_hidden_markup ns =
     (case query_first is_container ns of
        None \<Rightarrow> (False, ns)
      | Some c \<Rightarrow>
          if query_all asks_refresh (kids_of c) \<noteq> [] then (True, ns)
          else (False, change_first is_container (\<lambda>_. fallback_content) ns))"

definition on_error_markup :: "int \<Rightarrow> node list \<Rightarrow> node list" where
  "on_error_markup status ns =
     change_first modal_body_sel (\<lambda>_. error_content status)
       (change_first modal_title_sel (\<lambda>_. [Text_Node ''Error Occurred'']) ns)"

section \<open>The modal of every page\<close>

text \<open>\<open>inc/generic_modal.html\<close>: the dialog and the container of the contents.\<close>

definition generic_modal :: "node list \<Rightarrow> node list" where
  "generic_modal ks =
     [ws 4,
      element ''DIV'' [(''class'', ''modal-dialog modal-lg''), (''id'', ''modal-dialog-container'')]
        [ws 8,
         element ''DIV''
           [(''class'', ''modal-content''), (''id'', modal_container_id), (''hx-on:htmx:load'', ''jsify_form(this);'')] ks,
         ws 4],
      ws 0]"

lemma ws_quiet [simp]: "query_all P (ws n # ns) = query_all P ns"
  by (simp add: ws_def query_all_simps)

lemma change_ws [simp]: "change_first P f (ws n # ns) = ws n # change_first P f ns"
  by (simp add: ws_def)

lemma has_class_create [simp]:
  "has_class c (create_element t [(''class'', v)]) = (c \<in> set (split_classes v))"
  "a \<noteq> ''class'' \<Longrightarrow> a \<noteq> ''className'' \<Longrightarrow>
     has_class c (create_element t [(''class'', v), (a, w)]) = (c \<in> set (split_classes v))"
  by (simp_all add: create_element_def has_class_def set_attr_def)

lemma modal_elements:
  "modal_title_sel (create_element ''DIV'' [(''class'', ''modal-dialog modal-lg''), (''id'', ''modal-dialog-container'')]) = False"
  "modal_body_sel (create_element ''DIV'' [(''class'', ''modal-dialog modal-lg''), (''id'', ''modal-dialog-container'')]) = False"
  "is_container (create_element ''DIV'' [(''class'', ''modal-dialog modal-lg''), (''id'', ''modal-dialog-container'')]) = False"
  "modal_title_sel (create_element ''DIV''
     [(''class'', ''modal-content''), (''id'', modal_container_id), (''hx-on:htmx:load'', ''jsify_form(this);'')]) = False"
  "modal_body_sel (create_element ''DIV''
     [(''class'', ''modal-content''), (''id'', modal_container_id), (''hx-on:htmx:load'', ''jsify_form(this);'')]) = False"
  "is_container (create_element ''DIV''
     [(''class'', ''modal-content''), (''id'', modal_container_id), (''hx-on:htmx:load'', ''jsify_form(this);'')])"
  by code_simp+

lemma hidden_modal:
  "on_hidden_markup (generic_modal ks) =
     (if query_all asks_refresh ks \<noteq> [] then (True, generic_modal ks) else (False, generic_modal fallback_content))"
  by (simp add: on_hidden_markup_def generic_modal_def element_def query_first_def query_all_simps first_of_def modal_elements)

lemma error_in_modal:
  assumes "query_all modal_title_sel ks \<noteq> []" and "query_all modal_body_sel ks \<noteq> []"
  shows "on_error_markup status (generic_modal ks) = generic_modal (on_error_markup status ks)"
proof -
  let ?t = "change_first modal_title_sel (\<lambda>_. [Text_Node ''Error Occurred'']) ks"
  show ?thesis
  proof (cases "query_all modal_body_sel ?t = []")
    case False
    then show ?thesis
      using assms by (simp add: on_error_markup_def generic_modal_def element_def query_all_simps modal_elements)
  next
    case True
    then have "change_first modal_body_sel g ?t = ?t" for g
      using change_first_skip [of modal_body_sel ?t g "[]"] by simp
    with True assms show ?thesis
      by (simp add: on_error_markup_def generic_modal_def element_def query_all_simps modal_elements)
  qed
qed

text \<open>
  The fallback has a title and a body, so that after a modal was closed, a failure to fetch the
  next contents is always shown, with its status, and closing the modal once more brings the
  fallback back.
\<close>

lemma fallback_elements [simp]:
  "modal_title_sel title_elem" "\<not> modal_title_sel header_elem" "\<not> modal_title_sel body_elem"
  "\<not> modal_body_sel title_elem" "\<not> modal_body_sel header_elem" "modal_body_sel body_elem"
  "\<not> asks_refresh title_elem" "\<not> asks_refresh header_elem" "\<not> asks_refresh body_elem"
  "query_all modal_body_sel close_button = []" "query_all asks_refresh close_button = []"
  by code_simp+

lemma error_titled:
  "on_error_markup status (titled ts bs) = titled [Text_Node ''Error Occurred''] (error_content status)"
  by (simp add: on_error_markup_def titled_def query_all_simps)

lemma error_keeps_open: "query_all asks_refresh (error_content status) = []"
proof -
  have "\<not> asks_refresh (create_element ''P'' [])" "\<not> asks_refresh (create_element ''STRONG'' [])"
    "\<not> asks_refresh (create_element ''DIV'' [(''class'', ''alert alert-danger'')])"
    by code_simp+
  then show ?thesis by (simp add: error_content_def element_def query_all_simps del: create_element_nil)
qed

lemma failure_after_closing:
  assumes "on_hidden_markup (generic_modal ks) = (False, ns)"
  shows "on_error_markup status ns = generic_modal (titled [Text_Node ''Error Occurred''] (error_content status))"
    and "on_hidden_markup (on_error_markup status ns) = (False, ns)"
proof -
  have ns: "ns = generic_modal fallback_content" using assms by (simp add: hidden_modal split: if_splits)
  have "query_all modal_title_sel fallback_content \<noteq> []" "query_all modal_body_sel fallback_content \<noteq> []"
    by (simp_all add: fallback_content_def titled_def query_all_simps)
  then show e: "on_error_markup status ns = generic_modal (titled [Text_Node ''Error Occurred''] (error_content status))"
    by (simp add: ns error_in_modal) (simp add: fallback_content_def error_titled)
  show "on_hidden_markup (on_error_markup status ns) = (False, ns)"
    by (simp only: e) (simp add: ns hidden_modal titled_def query_all_simps error_keeps_open)
qed

end
