(* ===== verification/Theme_Drawings.thy ===== *)
theory Theme_Drawings
  imports Theme
begin

text \<open>
  Embedded drawings and the theme, \<open>ui/src/js/theme.js\<close>: setting a dark theme gives every
  \<open>object\<close> of the page a listener that inverts the drawing when it loads. Theory \<open>Theme\<close> keeps the
  list of these listeners; here is what they do to a drawing.
\<close>

section \<open>A drawing that loads\<close>

text \<open>Every copy of the listener runs; a drawing of another site has no document.\<close>

definition load_drawing :: "uid \<Rightarrow> theme_page \<Rightarrow> 'a page_scheme option \<Rightarrow> 'a page_scheme option" where
  "load_drawing u s content = (on_object_load ^^ count_list (load_hooks s) u) content"

definition is_inverted :: "'a page_scheme \<Rightarrow> uid \<Rightarrow> bool" where
  "is_inverted d v \<longleftrightarrow> get_attr ''filter'' (heap d v) = Some ''url(#darkmodeinvert)''"

definition inverted_parts :: "'a page_scheme \<Rightarrow> uid list" where
  "inverted_parts d = concat (map (doc_qsa d) inverted_sel)"

section \<open>Inverted for good\<close>

lemma parts_same:
  assumes "on_object_load (Some d) = Some d'"
  shows "inverted_parts d' = inverted_parts d" and "v \<in> set (inverted_parts d) \<Longrightarrow> is_inverted d' v"
    and "v \<notin> set (inverted_parts d) \<Longrightarrow> heap d' v = heap d v"
proof -
  let ?f = "set_attr ''filter'' ''url(#darkmodeinvert)''"
  have d': "d' = upd_all (inverted_parts d) ?f d"
    using assms by (simp add: on_object_load_def inverted_parts_def)
  have keep: "tag (heap d' v) = tag (heap d v)" "has_class c (heap d' v) = has_class c (heap d v)" for c v
    unfolding d' by (rule heap_upd_all_pres, simp)+
  have "doc d' = doc d" by (simp add: d')
  then show "inverted_parts d' = inverted_parts d"
    unfolding inverted_parts_def inverted_sel_def using keep by (simp cong: doc_qsa_cong)
  show "v \<in> set (inverted_parts d) \<Longrightarrow> is_inverted d' v"
  proof -
    have "v \<in> set us \<Longrightarrow> is_inverted (upd_all us ?f p) v" for us p
    proof (induction us arbitrary: p)
      case (Cons u us)
      show ?case
      proof (cases "v \<in> set us")
        case False
        with Cons.prems show ?thesis by (simp add: is_inverted_def heap_upd_all_notin heap_upd)
      qed (use Cons.IH in simp)
    qed simp
    then show "v \<in> set (inverted_parts d) \<Longrightarrow> is_inverted d' v" by (simp add: d')
  qed
  show "v \<notin> set (inverted_parts d) \<Longrightarrow> heap d' v = heap d v" by (simp add: d' heap_upd_all_notin)
qed

lemma copies_invert:
  "\<exists>d'. (on_object_load ^^ n) (Some d) = Some d' \<and> inverted_parts d' = inverted_parts d \<and>
     (0 < n \<longrightarrow> (\<forall>v \<in> set (inverted_parts d). is_inverted d' v)) \<and>
     (\<forall>v. v \<notin> set (inverted_parts d) \<longrightarrow> heap d' v = heap d v)"
proof (induction n)
  case (Suc n)
  then obtain d1 where d1: "(on_object_load ^^ n) (Some d) = Some d1" "inverted_parts d1 = inverted_parts d"
    "\<forall>v. v \<notin> set (inverted_parts d) \<longrightarrow> heap d1 v = heap d v" by blast
  obtain d2 where d2: "on_object_load (Some d1) = Some d2" by (simp add: on_object_load_def)
  from parts_same [OF d2] d1 d2 show ?case by (intro exI [of _ d2]) simp
qed simp

lemma hooks_kept:
  "load_hooks (upd_all us f s) = load_hooks s" "load_hooks (chosen th s) = load_hooks s"
  "load_hooks (highlighter_change n s) = load_hooks s" "load_hooks (final_state (echarts_change n s)) = load_hooks s"
proof -
  show "load_hooks (upd_all us f s) = load_hooks s" by (induction us arbitrary: s) (simp_all add: upd_def)
  show "load_hooks (chosen th s) = load_hooks s" by (simp add: chosen_def persist_theme_choice_def split: option.split)
  show "load_hooks (highlighter_change n s) = load_hooks s" by (simp add: highlighter_change_def upd_def split: list.split)
  have "load_hooks (final_state (restyle_chart n u t)) = load_hooks t" for u t
    by (simp add: restyle_chart_def split: option.split)
  then show "load_hooks (final_state (echarts_change n s)) = load_hooks s"
    unfolding echarts_change_def by (rule run_all_keeps)
qed

lemma hooks_painted: "load_hooks (painted th s) = load_hooks s"
  by (simp add: painted_def Let_def hooks_kept) (simp add: upd_def hooks_kept)

lemma hooks_after:
  fixes th s
  defines "p \<equiv> highlighter_change (determine_theme (chosen th s)) (painted th s)"
  shows "load_hooks (final_state (set_theme th s)) =
    load_hooks s @
    (if determine_theme (chosen th s) = theme_dark \<and> completed (set_theme th s) then doc_qsa p (\<lambda>e. tag e = ''OBJECT'') else [])"
proof -
  let ?r = "echarts_change (determine_theme (chosen th s)) p"
  have h: "load_hooks (final_state ?r) = load_hooks s" "doc (final_state ?r) = doc p" "heap (final_state ?r) = heap p"
    by (simp_all add: hooks_kept hooks_painted p_def)
  have "doc_qsa (final_state ?r) (\<lambda>e. tag e = ''OBJECT'') = doc_qsa p (\<lambda>e. tag e = ''OBJECT'')"
    by (rule doc_qsa_cong) (simp_all add: h)
  with h show ?thesis by (cases ?r) (simp_all add: set_theme_painted Let_def p_def)
qed

text \<open>
  The listeners stay when another theme is picked: a drawing that loads on a page that was dark
  before is inverted although the page is light.
\<close>

lemma light_page_inverts_drawing:
  assumes wf: "wf_jar (cookie_jar s)" and dark: "completed (set_theme (Some theme_dark) s)"
    and u: "u \<in> set (doc_qsa s (\<lambda>e. tag e = ''OBJECT''))"
    and s2: "s2 = final_state (set_theme (Some theme_light) (final_state (set_theme (Some theme_dark) s)))"
  shows "determine_theme s2 = theme_light"
    and "\<exists>d'. load_drawing u s2 (Some d) = Some d' \<and> (\<forall>v \<in> set (inverted_parts d). is_inverted d' v)"
proof -
  let ?s1 = "final_state (set_theme (Some theme_dark) s)"
  have valid: "is_valid_theme_choice (Some theme_dark)" "is_valid_theme_choice (Some theme_light)"
    by (simp_all add: is_valid_theme_choice_def)
  have eff: "determine_theme t = th"
    if "get_cookie theme_choice_cookie (cookie_jar t) = Some th" "th = theme_dark \<or> th = theme_light" for t th
    using that by (auto simp: determine_theme_def)
  have "determine_theme (chosen (Some theme_dark) s) = theme_dark"
    using cookie_chosen(1) [OF wf, of "Some theme_dark"] valid by (intro eff) simp_all
  moreover have "doc_qsa (highlighter_change n (painted th s)) (\<lambda>e. tag e = ''OBJECT'') = doc_qsa s (\<lambda>e. tag e = ''OBJECT'')" for n th
    by (rule doc_qsa_cong) simp_all
  ultimately have "u \<in> set (load_hooks ?s1)" using dark u by (simp add: hooks_after)
  then have "u \<in> set (load_hooks s2)" unfolding s2 by (subst hooks_after) simp
  then have "0 < count_list (load_hooks s2) u" by (simp add: count_list_0_iff zero_less_iff_neq_zero)
  with copies_invert [of "count_list (load_hooks s2) u" d]
  show "\<exists>d'. load_drawing u s2 (Some d) = Some d' \<and> (\<forall>v \<in> set (inverted_parts d). is_inverted d' v)"
    by (auto simp: load_drawing_def)
  have "get_cookie theme_choice_cookie (cookie_jar s2) = Some theme_light"
    using choice_after_set_theme(1) [OF choice_after_set_theme(2) [OF wf], of "Some theme_light" "Some theme_dark"] valid s2 by simp
  then show "determine_theme s2 = theme_light" by (rule eff) simp
qed

end
