(* ===== verification/Formset_Button.thy ===== *)
theory Formset_Button
  imports Formset_Links
begin

text \<open>
  The rest of \<open>project-static/jquery/jquery.formset.js\<close>: where the button that adds rows goes, a
  template given as an option, and the callbacks for added and deleted rows. The page is a
  forest of nodes in which the rows \<open>$$\<close> are the elements that satisfy \<open>P\<close>.
\<close>

section \<open>Hiding\<close>

text \<open>\<open>hide()\<close> writes to the style attribute; the links made here have no style of their own.\<close>

definition hide_elem :: "elem \<Rightarrow> elem" where
  "hide_elem e = set_attr ''style'' ''display: none;'' e"

definition hidden_elem :: "elem \<Rightarrow> bool" where
  "hidden_elem e \<longleftrightarrow> get_attr ''style'' e = Some ''display: none;''"

fun hide_matching :: "(elem \<Rightarrow> bool) \<Rightarrow> node list \<Rightarrow> node list" where
  "hide_matching P [] = []"
| "hide_matching P (Element e ks # ns) =
     Element (if P e then hide_elem e else e) (hide_matching P ks) # hide_matching P ns"
| "hide_matching P (n # ns) = n # hide_matching P ns"

text \<open>\<open>insertDeleteLink\<close> up to the click listener: under the minimum, every link of the row is hidden.\<close>

definition place_delete_link :: "formset_options \<Rightarrow> formset \<Rightarrow> elem \<Rightarrow> node list \<Rightarrow> node list" where
  "place_delete_link opts p row ks =
     (let ks1 = insert_delete_link opts row ks
      in if show_delete_links p then ks1 else hide_matching (delete_link_sel opts) ks1)"

section \<open>The button\<close>

definition add_link :: "formset_options \<Rightarrow> bool \<Rightarrow> node" where
  "add_link opts hide =
     Element ((if hide then hide_elem else id)
        (set_attr ''href'' ''javascript:void(0)'' ((new_elem ''A'')\<lparr>classes := split_classes (add_css opts)\<rparr>)))
       [Text_Node (add_text opts)]"

definition wanted_add_container :: "formset_options \<Rightarrow> string option" where
  "wanted_add_container opts =
     (case add_container opts of None \<Rightarrow> None | Some c \<Rightarrow> if c = [] then None else Some c)"

text \<open>The table row for the button has one cell, as wide as the first row has children.\<close>

definition button_row :: "formset_options \<Rightarrow> nat \<Rightarrow> bool \<Rightarrow> node" where
  "button_row opts cols hide =
     Element ((new_elem ''TR'')\<lparr>classes := split_classes (form_css opts @ ''-add'')\<rparr>)
       [Element (set_attr ''colspan'' (show_nat cols) (new_elem ''TD'')) [add_link opts hide]]"

definition num_cols :: "(elem \<Rightarrow> bool) \<Rightarrow> node list \<Rightarrow> nat" where
  "num_cols P ns =
     (case query_first P ns of Some r \<Rightarrow> length (filter is_element (kids_of r)) | None \<Rightarrow> 0)"

text \<open>The parents of the rows: the elements with a row among their children.\<close>

fun row_parents :: "(elem \<Rightarrow> bool) \<Rightarrow> node list \<Rightarrow> nat" where
  "row_parents P [] = 0"
| "row_parents P (Element e ks # ns) =
     (if list_ex (matches P) ks then 1 else 0) + row_parents P ks + row_parents P ns"
| "row_parents P (n # ns) = row_parents P ns"

text \<open>
  \<open>$$.parent().append(y)\<close>: each parent once, however many rows it has; the last one in document
  order gets the row itself, the others get copies \<open>x\<close> made before the listener is bound and
  before the button is hidden. \<open>later\<close> says whether there are parents after these nodes.
\<close>

fun append_to_parents :: "(elem \<Rightarrow> bool) \<Rightarrow> node \<Rightarrow> node \<Rightarrow> bool \<Rightarrow> node list \<Rightarrow> node list" where
  "append_to_parents P x y later [] = []"
| "append_to_parents P x y later (Element e ks # ns) =
     Element e
       (append_to_parents P x y (later \<or> row_parents P ns \<noteq> 0) ks @
        (if list_ex (matches P) ks
         then [if later \<or> row_parents P ns \<noteq> 0 \<or> row_parents P ks \<noteq> 0 then x else y] else []))
     # append_to_parents P x y later ns"
| "append_to_parents P x y later (n # ns) = n # append_to_parents P x y later ns"

text \<open>\<open>$$.filter(':last').after(x)\<close>: after the last row in document order.\<close>

fun insert_after_last :: "(elem \<Rightarrow> bool) \<Rightarrow> node \<Rightarrow> node list \<Rightarrow> node list" where
  "insert_after_last P x [] = []"
| "insert_after_last P x (Element e ks # ns) =
     (if query_all P ns \<noteq> [] then Element e ks # insert_after_last P x ns
      else if query_all P ks \<noteq> [] then Element e (insert_after_last P x ks) # ns
      else if P e then Element e ks # x # ns
      else Element e ks # ns)"
| "insert_after_last P x (n # ns) = n # insert_after_last P x ns"

definition is_table_row :: "node \<Rightarrow> bool" where
  "is_table_row n = matches (\<lambda>e. tag e = ''TR'') n"

text \<open>
  With a container, the button is looked up again by its class attribute: what has the same
  one in the container already is hidden with it.
\<close>

fun hide_inside :: "(elem \<Rightarrow> bool) \<Rightarrow> (elem \<Rightarrow> bool) \<Rightarrow> bool \<Rightarrow> node list \<Rightarrow> node list" where
  "hide_inside C Q inside [] = []"
| "hide_inside C Q inside (Element e ks # ns) =
     Element (if inside \<and> Q e then hide_elem e else e) (hide_inside C Q (inside \<or> C e) ks) # hide_inside C Q inside ns"
| "hide_inside C Q inside (n # ns) = n # hide_inside C Q inside ns"

definition same_class_attr :: "formset_options \<Rightarrow> elem \<Rightarrow> bool" where
  "same_class_attr opts e \<longleftrightarrow> classes e = split_classes (add_css opts)"

definition insert_add_button :: "formset_options \<Rightarrow> bool \<Rightarrow> (elem \<Rightarrow> bool) \<Rightarrow> node list \<Rightarrow> node list" where
  "insert_add_button opts hide P ns =
     (case wanted_add_container opts of
        Some c \<Rightarrow>
          (let ns1 = append_in (class_contains c) (add_link opts False) ns
           in if hide then hide_inside (class_contains c) (same_class_attr opts) False ns1 else ns1)
      | None \<Rightarrow>
          if list_ex is_table_row (query_all P ns)
          then append_to_parents P (button_row opts (num_cols P ns) False) (button_row opts (num_cols P ns) hide) False ns
          else insert_after_last P (add_link opts hide) ns)"

text \<open>Nothing is inserted for an empty set of rows.\<close>

definition place_add_button :: "formset_options \<Rightarrow> formset \<Rightarrow> (elem \<Rightarrow> bool) \<Rightarrow> node list \<Rightarrow> node list" where
  "place_add_button opts p P ns =
     (if query_all P ns = [] then ns else insert_add_button opts (\<not> show_add_button p) P ns)"

section \<open>How many buttons there are\<close>

definition add_link_sel :: "formset_options \<Rightarrow> elem \<Rightarrow> bool" where
  "add_link_sel opts e \<longleftrightarrow> tag e = ''A'' \<and> classes e = split_classes (add_css opts)"

lemma add_link_found: "query_all (add_link_sel opts) [add_link opts hide] = [add_link opts hide]"
  by (simp add: add_link_def query_all_simps add_link_sel_def new_elem_def set_attr_def hide_elem_def)

lemma query_after_last:
  assumes "query_all P ns \<noteq> []" and "query_all Q [x] = [x]"
  shows "length (query_all Q (insert_after_last P x ns)) = Suc (length (query_all Q ns))"
  using assms
proof (induction P x ns rule: insert_after_last.induct)
  case (2 P x e ks ns)
  then show ?case
    using query_all_Cons [of Q x ns] by (auto simp: query_all_simps split: if_splits)
qed (simp_all add: query_all_simps)

lemma query_append_to_parents:
  assumes "length (query_all Q [x]) = c" and "length (query_all Q [y]) = c"
  shows "length (query_all Q (append_to_parents P x y later ns)) = length (query_all Q ns) + row_parents P ns * c"
  using assms
  by (induction P x y later ns rule: append_to_parents.induct) (auto simp: query_all_simps algebra_simps)

text \<open>Only the button of the last table is ever hidden.\<close>

lemma query_last_parent:
  assumes "length (query_all Q [x]) = 1" and "query_all Q [y] = []"
  shows "length (query_all Q (append_to_parents P x y later ns)) =
    length (query_all Q ns) + (if later then row_parents P ns else row_parents P ns - 1)"
  using assms
  by (induction P x y later ns rule: append_to_parents.induct) (auto simp: query_all_simps)

lemma query_append_in:
  "length (query_all Q (append_in P x ns)) =
     length (query_all Q ns) + length (query_all P ns) * length (query_all Q [x])"
  by (induction P x ns rule: append_in.induct) (auto simp: query_all_simps algebra_simps)

lemma query_hide_inside:
  assumes "\<And>e. Q (hide_elem e) = Q e"
  shows "length (query_all Q (hide_inside C P inside ns)) = length (query_all Q ns)"
  using assms by (induction C P inside ns rule: hide_inside.induct) (auto simp: query_all_simps)

lemma button_row_links: "query_all (add_link_sel opts) [button_row opts n hide] = [add_link opts hide]"
  by (simp add: button_row_def query_all_simps add_link_found [of opts hide] add_link_sel_def new_elem_def set_attr_def)

text \<open>
  A formset without a container gets one button after the last row, or one in each table its
  rows are in; with a container, one in each element whose class attribute contains the text.
\<close>

lemma buttons_inserted:
  assumes "query_all P ns \<noteq> []"
  shows "length (query_all (add_link_sel opts) (place_add_button opts p P ns)) =
    length (query_all (add_link_sel opts) ns) +
      (case wanted_add_container opts of
         Some c \<Rightarrow> length (query_all (class_contains c) ns)
       | None \<Rightarrow> if list_ex is_table_row (query_all P ns) then row_parents P ns else 1)"
proof -
  let ?Q = "add_link_sel opts"
  have "length (query_all ?Q [add_link opts h]) = 1" for h by (simp add: add_link_found)
  moreover have "length (query_all ?Q [button_row opts n h]) = 1" for n h by (simp add: button_row_links)
  moreover have "length (query_all ?Q (insert_after_last P (add_link opts h) ns)) = Suc (length (query_all ?Q ns))" for h
    by (rule query_after_last [OF assms add_link_found])
  moreover have "length (query_all ?Q (hide_inside C P inside ms)) = length (query_all ?Q ms)" for C P inside ms
    by (rule query_hide_inside) (simp add: add_link_sel_def hide_elem_def set_attr_def)
  ultimately show ?thesis
    using assms
    by (simp add: place_add_button_def insert_add_button_def query_append_to_parents [where c = 1] query_append_in
      Let_def split: option.split)
qed

text \<open>A button that may not be shown is hidden wherever it was put.\<close>

lemma hidden_add_link: "query_all hidden_elem [add_link opts True] = [add_link opts True]"
  by (simp add: add_link_def query_all_simps hidden_elem_def hide_elem_def)

lemma links_hidden_under_minimum:
  "query_all (\<lambda>e. Q e \<and> \<not> hidden_elem e) (hide_matching Q ns) = []"
  if "\<And>e. Q (hide_elem e) = Q e"
  using that by (induction Q ns rule: hide_matching.induct) (auto simp: query_all_simps hidden_elem_def hide_elem_def)

lemma no_link_under_minimum:
  assumes "\<not> show_delete_links p"
  shows "query_all (\<lambda>e. delete_link_sel opts e \<and> \<not> hidden_elem e) (place_delete_link opts p row ks) = []"
proof -
  have "delete_link_sel opts (hide_elem e) = delete_link_sel opts e" for e
    by (simp add: delete_link_sel_def hide_elem_def)
  then show ?thesis using assms by (simp add: place_delete_link_def links_hidden_under_minimum)
qed

section \<open>A template of its own\<close>

text \<open>
  \<open>options.formTemplate\<close>: its numbers are replaced by a place holder, it gets a delete link, and
  it is marked so that deleting a row does not count it.
\<close>

definition own_template :: "formset_options \<Rightarrow> formset \<Rightarrow> form_row \<Rightarrow> form_row" where
  "own_template opts p t =
     (index_row (prefix p) ''__prefix__''
        (t\<lparr>row_classes := List.insert ''formset-custom-template'' (List.union (split_classes (form_css opts)) (row_classes t))\<rparr>))
       \<lparr>link_shown := Some (show_delete_links p)\<rparr>"

definition init_with_template :: "formset_options \<Rightarrow> form_row \<Rightarrow> formset \<Rightarrow> formset" where
  "init_with_template opts t p =
     (if form_rows p = [] then p
      else p\<lparr>form_rows := init_rows p 0 (form_rows p), form_template := Some (own_template opts p t),
             add_shown := show_add_button p\<rparr>)"

text \<open>The callbacks run last, on the row added or deleted; what they do to the formset is theirs.\<close>

definition on_add_then :: "(form_row \<Rightarrow> formset \<Rightarrow> formset) option \<Rightarrow> formset \<Rightarrow> formset" where
  "on_add_then added p =
     (case form_template p of
        None \<Rightarrow> p
      | Some t \<Rightarrow>
          (let q = on_add p
           in case added of None \<Rightarrow> q | Some f \<Rightarrow> f (last (form_rows q)) q))"

definition deleted_row :: "form_row \<Rightarrow> form_row" where
  "deleted_row r = (if is_inline r then mark_deleted r else r)"

definition on_delete_then :: "(form_row \<Rightarrow> formset \<Rightarrow> formset) option \<Rightarrow> nat \<Rightarrow> formset \<Rightarrow> formset" where
  "on_delete_then removed k p =
     (if k < length (form_rows p) then
        (let q = on_delete k p
         in case removed of None \<Rightarrow> q | Some f \<Rightarrow> f (deleted_row (form_rows p ! k)) q)
      else p)"

section \<open>Rows from a template\<close>

lemma placeholder_token: "index_token ''__prefix__''" "CHR ''-'' \<notin> set ''__prefix__''"
  by (simp_all add: index_token_def)

text \<open>A row made from the template carries the numbers the template itself would have got.\<close>

lemma template_row_attrs:
  "get_attr a (update_element_index p n (update_element_index p ''__prefix__'' e)) = get_attr a (update_element_index p n e)"
  by (auto simp: get_update_element_index option.map_comp o_def reindex_reindex [OF placeholder_token])

lemma own_template_fields:
  "is_inline (own_template opts p t) = is_inline t"
  "link_shown (own_template opts p t) = Some (show_delete_links p)"
  "''formset-custom-template'' \<in> set (row_classes (own_template opts p t))"
  by (simp_all add: own_template_def is_inline_def index_row_def list_ex_iff split_classes_def)

lemma plain_row_unmarked: "''formset-custom-template'' \<notin> set (row_classes (plain_row r))"
  by (simp add: plain_row_def)

lemma init_with_template_ok:
  assumes p: "rendered p" and t: "\<not> is_inline t"
  shows "formset_ok (init_with_template opts t p)"
proof -
  have "formset_ok (init_formset (\<lambda>_. False) False p)" by (rule init_formset_ok [OF p])
  moreover have "init_rows p 0 (form_rows p) \<noteq> []"
    using p init_rows_plain [of "form_rows p" p 0] by (auto simp: rendered_def list_all_iff enumerate_eq_zip)
  moreover from this have "init_with_template opts t p =
      (init_formset (\<lambda>_. False) False p)\<lparr>form_template := Some (own_template opts p t)\<rparr>"
    using p by (auto simp: init_with_template_def init_formset_def rendered_def Let_def)
  ultimately show ?thesis
    using t by (auto simp: formset_ok_def in_sequence_def within_limits_def show_add_button_def show_delete_links_def
        own_template_fields split: limit.splits)
qed


definition demo_template :: form_row where
  "demo_template = \<lparr>controls = [demo_input ''f-7-x''], row_classes = [], row_shown = False, link_shown = None\<rparr>"


text \<open>
  The callback of an addition is given the row that was added, with its numbers; as long as it
  keeps the rows in sequence itself, so do clicks.
\<close>

lemma added_row_numbered:
  assumes "formset_ok p" and "add_shown p" and "form_template p = Some t"
  shows "numbered (prefix p) (length (form_rows p)) (last (form_rows (on_add p)))"
proof -
  have "in_sequence (on_add p)" using add_keeps [OF assms(1,2)] unfolding formset_ok_def by blast
  moreover have "length (form_rows (on_add p)) = Suc (length (form_rows p))" "prefix (on_add p) = prefix p"
    using assms(3) by (auto simp: on_add_def Let_def)
  moreover from this have "form_rows (on_add p) \<noteq> []" by auto
  ultimately show ?thesis by (simp add: in_sequence_def last_conv_nth)
qed

lemma callbacks_keep:
  assumes "formset_ok p" and f: "\<And>r q. formset_ok q \<Longrightarrow> formset_ok (f r q)"
  shows "add_shown p \<Longrightarrow> formset_ok (on_add_then (Some f) p)"
    and "k < length (form_rows p) \<Longrightarrow> link_shown (form_rows p ! k) = Some True \<Longrightarrow> formset_ok (on_delete_then (Some f) k p)"
  using assms add_keeps delete_keeps by (auto simp: on_add_then_def on_delete_then_def Let_def split: option.split)

end
