(* ===== verification/Layout_Units.thy ===== *)
theory Layout_Units
  imports Search_Markup Page_Widgets
begin

text \<open>
  Lengths the scripts compute: \<open>rem\<close> of \<open>ui/src/js/utils.js\<close>, as the text it has in a style
  attribute, and the position of a dropdown menu, \<open>project-static/js/dropdown.js\<close>.
\<close>

section \<open>Root units\<close>

text \<open>
  A quotient by a power of two is exact in floating point, sums of such are too, and its text
  is the finite decimal fraction, found by long division. For other sizes of the root font
  the quotient is rounded, which is not modelled; \<open>None\<close> stands for that.
\<close>

definition exact_size :: "nat \<Rightarrow> bool" where
  "exact_size r \<longleftrightarrow> r \<in> {1, 2, 4, 8, 16, 32, 64}"

fun fraction_digits :: "nat \<Rightarrow> nat \<Rightarrow> nat \<Rightarrow> string option" where
  "fraction_digits 0 r d = (if r = 0 then Some [] else None)"
| "fraction_digits (Suc f) r d =
     (if r = 0 then Some []
      else map_option ((#) (char_of (48 + 10 * r div d))) (fraction_digits f (10 * r mod d) d))"

definition quotient_text :: "nat \<Rightarrow> nat \<Rightarrow> string option" where
  "quotient_text n d =
     (if n mod d = 0 then Some (show_nat (n div d))
      else map_option (\<lambda>ds. show_nat (n div d) @ ''.'' @ ds) (fraction_digits 6 (n mod d) d))"

definition rem_text :: "string \<Rightarrow> nat list \<Rightarrow> string option" where
  "rem_text root_size pxs =
     (case parse_int root_size of
        None \<Rightarrow> Some ''NaN''
      | Some r \<Rightarrow> if 0 < r \<and> exact_size (nat r) then quotient_text (sum_list pxs) (nat r) else None)"

lemma fraction_digits_value:
  assumes "fraction_digits f r d = Some ds" and "r < d"
  shows "fold (\<lambda>c n. 10 * n + int (digit_val c)) ds a * int d = (a * int d + int r) * 10 ^ length ds - (if ds = [] then int r else 0)
    \<and> list_all is_digit ds"
  using assms
proof (induction f r d arbitrary: ds a rule: fraction_digits.induct)
  case (1 r d)
  then show ?case by (auto split: if_splits)
next
  case (2 f r d)
  show ?case
  proof (cases "r = 0")
    case False
    let ?q = "10 * r div d" and ?m = "10 * r mod d"
    from 2 False obtain es where es: "fraction_digits f ?m d = Some es" and ds: "ds = char_of (48 + ?q) # es"
      by auto
    have q: "?q < 10" using 2(3) by (simp add: less_mult_imp_div_less)
    have m: "?m < d" using 2(3) by simp
    have dv: "digit_val (char_of (48 + ?q)) = ?q" using of_char_digit [OF q] by (simp add: digit_val_def)
    have split: "int ?q * int d + int ?m = 10 * int r"
      by (metis div_mult_mod_eq of_nat_add of_nat_mult of_nat_numeral)
    have z: "?m = 0" if "es = []" using es that by (cases f) (auto split: if_splits)
    from 2(1) [OF False es m, of "10 * a + int ?q"]
    have "fold (\<lambda>c n. 10 * n + int (digit_val c)) es (10 * a + int ?q) * int d =
        ((10 * a + int ?q) * int d + int ?m) * 10 ^ length es" and d: "list_all is_digit es"
      using z by (auto split: if_splits)
    moreover have "(10 * a + int ?q) * int d + int ?m = 10 * (a * int d + int r)"
      using split by (simp add: algebra_simps)
    ultimately show ?thesis using dv q is_digit_char_of [OF q] by (simp add: ds)
  next
    case True
    with 2 show ?thesis by simp
  qed
qed

text \<open>The digits after the point are exact: read as a number they are the fraction times a power of ten.\<close>

lemma fraction_exact:
  assumes "fraction_digits f r d = Some ds" and "r < d" and "0 < r"
  shows "digits_val ds * int d = int r * 10 ^ length ds"
proof -
  have "ds \<noteq> []" using assms by (cases f) (auto split: if_splits)
  then show ?thesis using fraction_digits_value [OF assms(1,2), of 0] by (simp add: digits_val_def)
qed

text \<open>Six digits are enough for every size up to 64 pixels.\<close>

lemma fraction_ends:
  assumes "exact_size d" and "r < d"
  shows "fraction_digits 6 r d \<noteq> None"
proof -
  have "list_all (\<lambda>d. list_all (\<lambda>r. fraction_digits 6 r d \<noteq> None) [0..<d]) [1, 2, 4, 8, 16, 32, 64]" by code_simp
  then show ?thesis using assms by (auto simp: exact_size_def list_all_iff)
qed

text \<open>
  So for such a root font every sum of lengths has a text, and the text is the sum divided by the
  font size.
\<close>

lemma rem_text_exact:
  assumes "parse_int root_size = Some (int d)" and "exact_size d"
  shows "\<exists>whole ds. rem_text root_size pxs = Some (show_nat whole @ (if ds = [] then [] else ''.'' @ ds)) \<and>
    (int whole * 10 ^ length ds + digits_val ds) * int d = int (sum_list pxs) * 10 ^ length ds"
proof -
  let ?n = "sum_list pxs"
  have d: "0 < d" using assms(2) by (auto simp: exact_size_def)
  have n: "int (?n div d) * int d + int (?n mod d) = int ?n"
    by (metis div_mult_mod_eq of_nat_add of_nat_mult)
  show ?thesis
  proof (cases "?n mod d = 0")
    case True
    then show ?thesis
      using assms d n by (intro exI [of _ "?n div d"] exI [of _ "[]"]) (simp add: rem_text_def quotient_text_def digits_val_def)
  next
    case False
    obtain ds where ds: "fraction_digits 6 (?n mod d) d = Some ds"
      using fraction_ends [OF assms(2), of "?n mod d"] d by auto
    have v: "digits_val ds * int d = int (?n mod d) * 10 ^ length ds"
      using fraction_exact [OF ds] d False by simp
    have ne: "ds \<noteq> []" using ds False by (cases "6 :: nat") auto
    have "(int (?n div d) * 10 ^ length ds + digits_val ds) * int d =
        (int (?n div d) * int d + int (?n mod d)) * 10 ^ length ds"
      using v by (simp add: algebra_simps)
    then show ?thesis
      using assms d n ds ne False
      by (intro exI [of _ "?n div d"] exI [of _ ds]) (simp add: rem_text_def quotient_text_def)
  qed
qed

text \<open>The lengths of the search popup at the usual 16 pixels.\<close>

definition usual_rem :: "nat list \<Rightarrow> string" where
  "usual_rem pxs = (case rem_text ''16px'' pxs of Some t \<Rightarrow> t | None \<Rightarrow> ''NaN'')"

lemma popup_lengths:
  "base_padding usual_rem = ''2.375rem''"
  "icon_size usual_rem = ''height: 1.25rem; width: 1.25rem;''"
  "usual_rem [720] = ''45''"
  by code_simp+

section \<open>Where a dropdown menu goes\<close>

record place =
  left_of :: int
  top_of :: int
  width_of :: int
  height_of :: int

definition px :: "int \<Rightarrow> string" where "px n = show_int n @ ''px''"

definition top_offset :: "place \<Rightarrow> int" where
  "top_offset toggle = top_of toggle + height_of toggle"

definition left_offset :: "place \<Rightarrow> int \<Rightarrow> int" where
  "left_offset toggle menu_width = left_of toggle + width_of toggle - menu_width"

definition menu_style :: "place \<Rightarrow> int \<Rightarrow> (string \<times> string) list" where
  "menu_style toggle menu_width =
     [(''position'', ''absolute''), (''top'', px (top_offset toggle)), (''left'', px (left_offset toggle menu_width)),
      (''display'', ''table'')]"

text \<open>
  The menu ends where its toggle ends, and begins right under it. Its offsets are taken once, when
  it opens.
\<close>

lemma menu_below_toggle:
  "left_offset toggle w + w = left_of toggle + width_of toggle"
  "map_of (menu_style toggle w) ''top'' = Some (px (top_of toggle + height_of toggle))"
  "0 \<le> left_offset toggle w \<longleftrightarrow> w \<le> left_of toggle + width_of toggle"
  by (auto simp: left_offset_def top_offset_def menu_style_def)

end
