(* ===== verification/Search_Results.thy ===== *)
theory Search_Results
  imports Search Search_Markup
begin

text \<open>
  The list of results of the search popup as markup (\<open>ui/src/js/search.js\<close>): which elements of
  it the keyboard and the mouse walk over, how the suggested models get into it and how a kind
  of results leaves it; and what \<open>fuse.js\<close> is given to search in.
\<close>

section \<open>Setting up\<close>

definition live_search_delay :: nat where "live_search_delay = 500"

text \<open>Without the search field in the header nothing is initialized.\<close>

definition starts_search :: "elem option \<Rightarrow> bool" where
  "starts_search header = (header \<noteq> None)"

record fuse_entry =
  entry_link :: string
  entry_name :: "json option"

text \<open>\<open>item_details?.name\<close>\<close>

definition fuse_entries :: "json obj \<Rightarrow> fuse_entry list" where
  "fuse_entries ms = map (\<lambda>(link, d). \<lparr>entry_link = link, entry_name = jget ''name'' d\<rparr>) ms"

section \<open>The items of the list\<close>

text \<open>
  \<open>.nb-search-list-group-item, .table > tbody > tr\<close>, in document order: the two flags tell of
  the parent whether it is a table, and whether it is the body of one.
\<close>

definition item_class :: string where "item_class = ''nb-search-list-group-item''"

fun result_items :: "bool \<Rightarrow> bool \<Rightarrow> node list \<Rightarrow> node list" where
  "result_items t b [] = []"
| "result_items t b (Element e ks # ns) =
     (if has_class item_class e \<or> b \<and> tag e = ''TR'' then [Element e ks] else []) @
     result_items (has_class ''table'' e) (t \<and> tag e = ''TBODY'') ks @ result_items t b ns"
| "result_items t b (n # ns) = result_items t b ns"

definition get_result_items :: "node list \<Rightarrow> node list" where
  "get_result_items ns = result_items False False ns"

definition item_active :: "elem \<Rightarrow> bool" where
  "item_active item \<longleftrightarrow> has_class ''active'' item"

definition item_tentative :: "elem \<Rightarrow> bool" where
  "item_tentative item \<longleftrightarrow> get_attr ''aria-selected'' item = Some ''true''"

text \<open>An item is selected only together with being active.\<close>

definition toggle_item_active :: "bool \<Rightarrow> bool \<Rightarrow> elem \<Rightarrow> elem" where
  "toggle_item_active act tentative item =
     set_attr ''aria-selected'' (show_bool (tentative \<and> act)) (class_toggle ''active'' (Some act) item)"

text \<open>\<open>force\<close> is \<open>None\<close> when the argument is not a Boolean: then the class is toggled.\<close>

definition results_hidden_after :: "bool option \<Rightarrow> bool \<Rightarrow> bool" where
  "results_hidden_after force was_hidden = (case force of Some b \<Rightarrow> \<not> b | None \<Rightarrow> \<not> was_hidden)"

definition toggle_results_visible :: "bool option \<Rightarrow> search \<Rightarrow> search" where
  "toggle_results_visible force s =
     (let h = results_hidden_after force (hidden s)
      in s\<lparr>hidden := h, results := (if h then map (set_item False False) (results s) else results s)\<rparr>)"

section \<open>Suggestions\<close>

definition type_attr :: string where "type_attr = ''data-nb-results-type''"

definition typeahead_button :: "string \<Rightarrow> node" where
  "typeahead_button name =
     element ''BUTTON'' [(''aria-selected'', ''false''), (''className'', item_class), (''type'', ''button'')]
       [element ''SPAN'' [(''aria-hidden'', ''true''), (''className'', ''mdi mdi-magnify text-secondary'')] [],
        element ''SPAN'' [(''className'', ''badge border'')] [Text_Node (''in: '' @ name)]]"

definition typeahead_list :: "string list \<Rightarrow> node" where
  "typeahead_list names =
     element ''UL'' [(''className'', ''nb-search-list-group''), (type_attr, ''typeahead'')]
       (map (\<lambda>n. element ''LI'' [] [typeahead_button n]) names)"

text \<open>\<open>results.insertBefore(x, spinner)\<close>: the spinner is a child of the list, found by \<open>is_spinner\<close>.\<close>

fun insert_before :: "(node \<Rightarrow> bool) \<Rightarrow> node \<Rightarrow> node list \<Rightarrow> node list option" where
  "insert_before is_spinner x [] = None"
| "insert_before is_spinner x (n # ns) =
     (if is_spinner n then Some (x # n # ns) else map_option ((#) n) (insert_before is_spinner x ns))"

text \<open>\<open>removeResultsList\<close>: every element of the kind, wherever it is in the list, or every child.\<close>

fun prune :: "(elem \<Rightarrow> bool) \<Rightarrow> node list \<Rightarrow> node list" where
  "prune P [] = []"
| "prune P (Element e ks # ns) = (if P e then prune P ns else Element e (prune P ks) # prune P ns)"
| "prune P (n # ns) = n # prune P ns"

definition remove_results_list :: "string option \<Rightarrow> node list \<Rightarrow> node list" where
  "remove_results_list type ns =
     (case type of
        Some t \<Rightarrow> if t = [] then filter (\<lambda>n. \<not> is_element n) ns
                  else prune (\<lambda>e. get_attr type_attr e = Some t) ns
      | None \<Rightarrow> filter (\<lambda>n. \<not> is_element n) ns)"

text \<open>Suggestions are shown only when there are some, three at most.\<close>

definition suggest :: "(node \<Rightarrow> bool) \<Rightarrow> string list \<Rightarrow> node list \<Rightarrow> node list option" where
  "suggest is_spinner names ns =
     (let found = take max_typeahead_result_count names
      in if found = [] then Some ns else insert_before is_spinner (typeahead_list found) ns)"

section \<open>What is shown is what was found\<close>

lemma result_items_append [markup_simps]:
  "result_items t b (ns @ ms) = result_items t b ns @ result_items t b ms"
  by (induction t b ns rule: result_items.induct) simp_all

lemma prune_append [markup_simps]: "prune P (ns @ ms) = prune P ns @ prune P ms"
  by (induction P ns rule: prune.induct) simp_all

lemma prune_none: "query_all P ns = [] \<Longrightarrow> prune P ns = ns"
  by (induction P ns rule: prune.induct) (auto simp: query_all_simps split: if_splits)

lemma query_prune: "query_all P (prune P ns) = []"
  by (induction P ns rule: prune.induct) (auto simp: query_all_simps)

lemma insert_before_split:
  assumes "insert_before S x ns = Some ms"
  obtains us vs where "ns = us @ vs" and "ms = us @ x # vs"
  using assms
proof (induction ns arbitrary: ms thesis)
  case (Cons n ns)
  show ?case
  proof (cases "S n")
    case True
    with Cons.prems(2) have "n # ns = [] @ (n # ns)" "ms = [] @ x # (n # ns)" by auto
    then show ?thesis by (rule Cons.prems(1))
  next
    case False
    with Cons.prems(2) obtain ms' where ms': "insert_before S x ns = Some ms'" and "ms = n # ms'" by auto
    with Cons.IH obtain us vs where "ns = us @ vs" "ms' = us @ x # vs" by metis
    with \<open>ms = n # ms'\<close> have "n # ns = (n # us) @ vs" "ms = (n # us) @ x # vs" by auto
    then show ?thesis by (rule Cons.prems(1))
  qed
qed simp

lemma insert_before_defined: "insert_before S x ns \<noteq> None \<longleftrightarrow> list_ex S ns"
  by (induction ns) auto

abbreviation "list_elem \<equiv> create_element ''UL'' [(''className'', ''nb-search-list-group''), (type_attr, ''typeahead'')]"
abbreviation "button_elem \<equiv>
  create_element ''BUTTON'' [(''aria-selected'', ''false''), (''className'', item_class), (''type'', ''button'')]"
abbreviation "glass_elem \<equiv>
  create_element ''SPAN'' [(''aria-hidden'', ''true''), (''className'', ''mdi mdi-magnify text-secondary'')]"

lemma typeahead_parts:
  "get_attr type_attr list_elem = Some ''typeahead''"
  "has_class item_class list_elem = False" "has_class ''table'' list_elem = False"
  "has_class item_class button_elem = True" "has_class item_class glass_elem = False"
  "has_class item_class (create_element ''SPAN'' [(''className'', ''badge border'')]) = False"
  by code_simp+

lemma button_item: "result_items t False [typeahead_button n] = [typeahead_button n]"
  by (simp add: typeahead_button_def element_def typeahead_parts)

lemma plain_item: "result_items False False [element ''LI'' [] [typeahead_button n]] = [typeahead_button n]"
  using button_item [of False n] by (simp add: element_def has_class_def)

lemma suggested_items: "get_result_items [typeahead_list names] = map typeahead_button names"
proof -
  have "result_items False False (map (\<lambda>n. element ''LI'' [] [typeahead_button n]) names) = map typeahead_button names"
  proof (induction names)
    case (Cons n names)
    then show ?case
      using result_items_append [of False False "[element ''LI'' [] [typeahead_button n]]"] plain_item [of n] by simp
  qed simp
  then show ?thesis
    by (simp add: get_result_items_def typeahead_list_def element_def [of "''UL''"] typeahead_parts)
qed

text \<open>
  A suggestion is an item for each model found and nothing else, and the next key stroke, which
  removes the suggestions, leaves the list as it was.
\<close>

lemma suggestions_are_items:
  assumes "suggest S names ns = Some ms"
  shows "\<exists>us vs. ns = us @ vs \<and>
    get_result_items ms = get_result_items us @ map typeahead_button (take 3 names) @ get_result_items vs"
proof (cases "take max_typeahead_result_count names = []")
  case True
  then have "ms = ns" "take 3 names = []" using assms by (simp_all add: suggest_def max_typeahead_result_count_def)
  then show ?thesis by (intro exI [of _ ns] exI [of _ "[]"]) (simp add: get_result_items_def)
next
  case False
  then obtain us vs where "ns = us @ vs" and ms: "ms = us @ typeahead_list (take max_typeahead_result_count names) # vs"
    using assms by (auto simp: suggest_def Let_def elim: insert_before_split)
  moreover have "get_result_items ms = get_result_items us @
      get_result_items [typeahead_list (take max_typeahead_result_count names)] @ get_result_items vs"
    using result_items_append [of False False us] result_items_append [of False False "[_]" vs]
    by (simp add: ms get_result_items_def)
  ultimately show ?thesis by (auto simp: suggested_items max_typeahead_result_count_def)
qed

lemma suggestions_go:
  assumes "suggest S names ns = Some ms"
    and "query_all (\<lambda>e. get_attr type_attr e = Some ''typeahead'') ns = []"
  shows "remove_results_list (Some ''typeahead'') ms = ns"
proof -
  let ?P = "\<lambda>e. get_attr type_attr e = Some ''typeahead''"
  have gone: "prune ?P (typeahead_list xs # vs) = prune ?P vs" for xs vs
    by (simp add: typeahead_list_def element_def typeahead_parts)
  have "prune ?P ms = ns"
  proof (cases "take max_typeahead_result_count names = []")
    case True
    then show ?thesis using assms prune_none [OF assms(2)] by (simp add: suggest_def)
  next
    case False
    then obtain us vs where "ns = us @ vs" "ms = us @ typeahead_list (take max_typeahead_result_count names) # vs"
      using assms(1) by (auto simp: suggest_def Let_def elim: insert_before_split)
    then show ?thesis using assms(2) prune_none [of ?P] by (simp add: prune_append gone query_all_simps)
  qed
  then show ?thesis by (simp add: remove_results_list_def)
qed

text \<open>The boolean forms of \<open>toggleResultsVisible\<close> are the two the keys use.\<close>

lemma toggle_results_forced:
  "toggle_results_visible (Some True) s = show_results s" "toggle_results_visible (Some False) s = hide_results s"
  by (cases s; simp add: toggle_results_visible_def results_hidden_after_def show_results_def hide_results_def)+

lemma selected_only_active: "item_tentative (toggle_item_active act t e) \<Longrightarrow> item_active (toggle_item_active act t e)"
  by (auto simp: item_tentative_def item_active_def toggle_item_active_def class_toggle_def)

end
