(* ===== verification/Page_Order.thy ===== *)
theory Page_Order
  imports Form_Start
begin

text \<open>
  In which order things happen when a page loads, \<open>ui/src/js/nautobot.js\<close> with
  \<open>initializeFormEvents\<close> of \<open>form.js\<close>: the names the bundle defines for other scripts before and
  during \<open>DOMContentLoaded\<close>, the listeners of that event, and the timer of the load event of the
  form. The initializers of the components are any functions on the page; theory \<open>Page_Start\<close>
  has them as they are.
\<close>

section \<open>The bundle\<close>

text \<open>The global names of the evaluation of the module, in the order they are defined.\<close>

definition module_names :: "string list" where
  "module_names =
     [''bootstrap'', ''ClipboardJS'', ''echarts'', ''flatpickr'', ''htmx'', ''hljs'', ''jQuery'', ''$'', ''_'', ''nb'',
      ''nb.form'']"

datatype main_step = Start string | Export string

definition main_steps :: "main_step list" where
  "main_steps =
     [Start ''history'', Export ''nb.history'', Start ''tooltips'', Start ''sidenav'', Export ''nb.checkbox'',
      Start ''clipboard'', Start ''collapse'', Start ''draggable'', Start ''drawers'', Export ''nb.echarts'',
      Start ''sticky footers'', Start ''button spinner'', Export ''nb.messages'', Start ''modal'', Start ''search'',
      Export ''nb.select2'', Start ''tabs'', Start ''trees'', Start ''theme'', Export ''toggleFavorite'',
      Export ''setRequestUrl'', Start ''blurring links'', Start ''blurring after modals'']"

text \<open>
  What listens for \<open>DOMContentLoaded\<close>: the two listeners of the bundle, and those of other scripts,
  of which only those matter here that then listen for a load event of the form themselves.
\<close>

datatype ready_listener = Main_Start | Form_Ready | App_Ready nat string

record 'p loading =
  page_now :: 'p
  defined_names :: "string list"
  ready_listeners :: "ready_listener list"
  form_tasks :: form_events
  subscribers :: "(nat \<times> string) list"
  received :: "(nat \<times> uid \<times> string) list"
  reported :: "js_error list"

text \<open>Evaluation of the module: the names, then the main listener, then that of the form.\<close>

definition define_name :: "string \<Rightarrow> 'p loading \<Rightarrow> 'p loading" where
  "define_name n l = l\<lparr>defined_names := List.insert n (defined_names l)\<rparr>"

definition listen_ready :: "ready_listener \<Rightarrow> 'p loading \<Rightarrow> 'p loading" where
  "listen_ready r l = l\<lparr>ready_listeners := ready_listeners l @ [r]\<rparr>"

definition evaluate_module :: "'p loading \<Rightarrow> 'p loading" where
  "evaluate_module l = listen_ready Form_Ready (listen_ready Main_Start (fold define_name module_names l))"

section \<open>The event\<close>

definition run_main_step :: "(string \<Rightarrow> 'p \<Rightarrow> 'p outcome) \<Rightarrow> main_step \<Rightarrow> 'p loading \<Rightarrow> 'p loading outcome" where
  "run_main_step init st l =
     (case st of
        Export n \<Rightarrow> Done (define_name n l)
      | Start n \<Rightarrow>
          (case init n (page_now l) of
             Done q \<Rightarrow> Done (l\<lparr>page_now := q\<rparr>)
           | Throw e q \<Rightarrow> Throw e (l\<lparr>page_now := q\<rparr>)))"

definition main_start :: "(string \<Rightarrow> 'p \<Rightarrow> 'p outcome) \<Rightarrow> 'p loading \<Rightarrow> 'p loading outcome" where
  "main_start init = run_all (run_main_step init) main_steps"

text \<open>The timers: each event of the queue goes to everyone who listens for its type.\<close>

definition delivered :: "(nat \<times> string) list \<Rightarrow> uid \<times> string \<Rightarrow> (nat \<times> uid \<times> string) list" where
  "delivered subs e = map (\<lambda>(k, t). (k, fst e, t)) (filter (\<lambda>s. snd s = snd e) subs)"

definition run_form_timers :: "'p loading \<Rightarrow> 'p loading" where
  "run_form_timers l =
     l\<lparr>received := received l @ concat (map (delivered (subscribers l)) (waiting (form_tasks l))),
       form_tasks := run_waiting (form_tasks l)\<rparr>"

text \<open>An exception of a listener is reported; the next listener runs all the same.\<close>

definition run_ready ::
    "(string \<Rightarrow> 'a page_scheme \<Rightarrow> 'a page_scheme outcome) \<Rightarrow> ready_listener \<Rightarrow> 'a page_scheme loading \<Rightarrow> 'a page_scheme loading" where
  "run_ready init r l =
     (case r of
        Main_Start \<Rightarrow>
          (case main_start init l of Done q \<Rightarrow> q | Throw e q \<Rightarrow> q\<lparr>reported := reported q @ [e]\<rparr>)
      | Form_Ready \<Rightarrow> l\<lparr>form_tasks := on_dom_content_loaded (page_now l) (form_tasks l)\<rparr>
      | App_Ready k t \<Rightarrow> l\<lparr>subscribers := subscribers l @ [(k, t)]\<rparr>)"

definition dom_content_loaded ::
    "(string \<Rightarrow> 'a page_scheme \<Rightarrow> 'a page_scheme outcome) \<Rightarrow> 'a page_scheme loading \<Rightarrow> 'a page_scheme loading" where
  "dom_content_loaded init l = fold (run_ready init) (ready_listeners l) l"

definition load_page_with ::
    "(string \<Rightarrow> 'a page_scheme \<Rightarrow> 'a page_scheme outcome) \<Rightarrow> ready_listener list \<Rightarrow> ready_listener list \<Rightarrow>
     'a page_scheme \<Rightarrow> 'a page_scheme loading" where
  "load_page_with init before after p =
     run_form_timers (dom_content_loaded init
       (fold listen_ready after (evaluate_module (fold listen_ready before
         \<lparr>page_now = p, defined_names = [], ready_listeners = [], form_tasks = \<lparr>waiting = [], dispatched = []\<rparr>,
          subscribers = [], received = [], reported = []\<rparr>))))"

section \<open>Names\<close>

lemma fold_define:
  "fold define_name ns l = l\<lparr>defined_names := fold List.insert ns (defined_names l)\<rparr>"
  by (induction ns arbitrary: l) (simp_all add: define_name_def)

lemma fold_listen: "fold listen_ready rs l = l\<lparr>ready_listeners := ready_listeners l @ rs\<rparr>"
  by (induction rs arbitrary: l) (simp_all add: listen_ready_def)

lemma set_fold_insert: "set (fold List.insert ns xs) = set ns \<union> set xs"
  by (induction ns arbitrary: xs) auto

definition exports_of :: "main_step list \<Rightarrow> string set" where
  "exports_of sts = {n. Export n \<in> set sts}"

text \<open>
  The main listener defines all of its names, or those before the component that throws; in
  both cases it leaves listeners, form and subscribers alone.
\<close>

lemma main_steps_run:
  "case run_all (run_main_step init) sts l of
     Done q \<Rightarrow> set (defined_names q) = set (defined_names l) \<union> exports_of sts
   | Throw e q \<Rightarrow> \<exists>us n vs. sts = us @ Start n # vs \<and> set (defined_names q) = set (defined_names l) \<union> exports_of us"
proof (induction sts arbitrary: l)
  case (Cons st sts)
  show ?case
  proof (cases "run_main_step init st l")
    case (Throw e q)
    then obtain n where n: "st = Start n" "defined_names q = defined_names l"
      by (auto simp: run_main_step_def split: main_step.splits outcome.splits)
    then have "st # sts = [] @ Start n # sts \<and> set (defined_names q) = set (defined_names l) \<union> exports_of []"
      by (simp add: exports_of_def)
    then show ?thesis unfolding run_all.simps Throw and_then.simps outcome.case by blast
  next
    case (Done q)
    then have q: "set (defined_names q) \<union> X = set (defined_names l) \<union> ({n. st = Export n} \<union> X)" for X
      by (auto simp: run_main_step_def define_name_def split: main_step.splits outcome.splits)
    have ex: "exports_of (st # us) = {n. st = Export n} \<union> exports_of us" for us by (auto simp: exports_of_def)
    show ?thesis
    proof (cases "run_all (run_main_step init) sts q")
      case d: (Done r)
      with Cons.IH [of q] show ?thesis using Done q by (simp add: ex)
    next
      case (Throw e r)
      with Cons.IH [of q] obtain us n vs where "sts = us @ Start n # vs"
        "set (defined_names r) = set (defined_names q) \<union> exports_of us" by auto
      then have "st # sts = (st # us) @ Start n # vs \<and> set (defined_names r) = set (defined_names l) \<union> exports_of (st # us)"
        using q by (simp add: ex)
      then show ?thesis unfolding run_all.simps Done and_then.simps Throw outcome.case by blast
    qed
  qed
qed (simp add: exports_of_def)

lemma main_steps_keep:
  "ready_listeners (final_state (run_all (run_main_step init) sts l)) = ready_listeners l \<and>
   form_tasks (final_state (run_all (run_main_step init) sts l)) = form_tasks l \<and>
   subscribers (final_state (run_all (run_main_step init) sts l)) = subscribers l \<and>
   received (final_state (run_all (run_main_step init) sts l)) = received l"
proof (induction sts arbitrary: l)
  case (Cons st sts)
  show ?case
  proof (cases "run_main_step init st l")
    case (Done q)
    then have "ready_listeners q = ready_listeners l \<and> form_tasks q = form_tasks l \<and> subscribers q = subscribers l \<and>
        received q = received l"
      by (auto simp: run_main_step_def define_name_def split: main_step.splits outcome.splits)
    then show ?thesis using Done Cons [of q] by simp
  next
    case (Throw e q)
    then show ?thesis by (auto simp: run_main_step_def split: main_step.splits outcome.splits)
  qed
qed simp

lemma main_start_done:
  "(\<And>n q. Start n \<in> set sts \<Longrightarrow> completed (init n q)) \<Longrightarrow> completed (run_all (run_main_step init) sts l)"
proof (induction sts arbitrary: l)
  case (Cons st sts)
  have "completed (run_main_step init st l)"
  proof (cases st)
    case (Start n)
    then have "completed (init n (page_now l))" using Cons.prems by simp
    then show ?thesis using Start by (auto simp: run_main_step_def completed_iff)
  qed (simp add: run_main_step_def)
  then obtain q where "run_main_step init st l = Done q" by (auto simp: completed_iff)
  moreover have "completed (run_all (run_main_step init) sts q)" using Cons.prems by (intro Cons.IH) simp
  ultimately show ?case by simp
qed simp

text \<open>
  When the search throws, the names the main listener defines after it never exist: combo boxes
  and favorites cannot be used, check boxes and messages can.
\<close>

lemma names_when_search_throws:
  assumes "\<And>q. \<not> completed (init ''search'' q)" and ok: "\<And>n q. n \<noteq> ''search'' \<Longrightarrow> completed (init n q)"
  shows "\<not> completed (main_start init l)"
    and "set (defined_names (final_state (main_start init l))) =
      set (defined_names l) \<union> {''nb.history'', ''nb.checkbox'', ''nb.echarts'', ''nb.messages''}"
proof -
  let ?run = "run_all (run_main_step init)"
  define us where "us = take 14 main_steps"
  have split: "main_steps = us @ Start ''search'' # drop 15 main_steps" by (simp add: us_def main_steps_def)
  have "Start ''search'' \<notin> set us" by (simp add: us_def main_steps_def)
  then have "completed (?run us l)" using ok by (intro main_start_done) metis
  then obtain q where q: "?run us l = Done q" by (auto simp: completed_iff)
  obtain e r where r: "init ''search'' (page_now q) = Throw e r"
    using assms(1) [of "page_now q"] by (cases "init ''search'' (page_now q)") simp_all
  have "?run (us @ Start ''search'' # drop 15 main_steps) l = Throw e (q\<lparr>page_now := r\<rparr>)"
    by (simp add: run_all_append q run_main_step_def r)
  then have run: "main_start init l = Throw e (q\<lparr>page_now := r\<rparr>)" by (simp add: main_start_def split [symmetric])
  then show "\<not> completed (main_start init l)" by (simp add: completed_iff)
  have "exports_of us = {''nb.history'', ''nb.checkbox'', ''nb.echarts'', ''nb.messages''}"
    by (auto simp: exports_of_def us_def main_steps_def)
  then show "set (defined_names (final_state (main_start init l))) =
      set (defined_names l) \<union> {''nb.history'', ''nb.checkbox'', ''nb.echarts'', ''nb.messages''}"
    using main_steps_run [where init = init and sts = us and l = l] by (simp add: run q)
qed

text \<open>
  The older scripts call two of these names when the document is ready, which is after
  \<open>DOMContentLoaded\<close>: a name that is not there makes \<open>initializeInputs\<close> throw.
\<close>

definition needed_name :: "initializer \<Rightarrow> string option" where
  "needed_name i =
     (case i of Checkboxes \<Rightarrow> Some ''nb.checkbox'' | Combo_Boxes \<Rightarrow> Some ''nb.select2'' | _ \<Rightarrow> None)"

definition with_names :: "string list \<Rightarrow> (initializer \<Rightarrow> 's \<Rightarrow> 's outcome) \<Rightarrow> initializer \<Rightarrow> 's \<Rightarrow> 's outcome" where
  "with_names names init i q =
     (case needed_name i of
        None \<Rightarrow> init i q
      | Some n \<Rightarrow> if List.member names n then init i q else Throw TypeError q)"

lemma throw_anywhere:
  assumes "i \<in> set xs" and "\<And>q. \<not> completed (init i q)"
  shows "\<not> completed (run_all (run_initializer init) xs s)"
  using assms(1)
proof (induction xs arbitrary: s)
  case (Cons x xs)
  show ?case
  proof (cases "run_initializer init x s")
    case (Done q)
    have "x \<noteq> i"
    proof
      assume "x = i"
      then show False
        using Done assms(2) [of "page_state s"] by (cases "init i (page_state s)") (auto simp: run_initializer_def)
    qed
    then show ?thesis using Cons Done by simp
  qed simp
qed simp

text \<open>
  So when the search of the header throws, the start of the forms throws too, before any of
  their combo boxes is set up.
\<close>

lemma forms_need_the_bundle:
  assumes "\<And>q. \<not> completed (init ''search'' q)" and "\<And>n q. n \<noteq> ''search'' \<Longrightarrow> completed (init n q)"
    and "''nb.select2'' \<notin> set (defined_names l)" and "ran s = []"
    and "names = defined_names (final_state (main_start init l))"
  shows "\<not> completed (on_document_ready (with_names names start_input) areas s)"
    and "Combo_Boxes \<notin> set (ran (final_state (on_document_ready (with_names names start_input) areas s)))"
proof -
  have "''nb.select2'' \<notin> set names"
    using names_when_search_throws(2) [where init = init and l = l] assms by simp
  then have "\<not> completed (with_names names start_input Combo_Boxes q)" for q
    by (simp add: with_names_def needed_name_def)
  moreover have "Combo_Boxes \<in> set input_order" by (simp add: input_order_def)
  ultimately have "\<not> completed (run_all (run_initializer (with_names names start_input)) input_order s)"
    by (rule throw_anywhere [rotated])
  then show no: "\<not> completed (on_document_ready (with_names names start_input) areas s)"
    by (cases "run_all (run_initializer (with_names names start_input)) input_order s")
      (simp_all add: on_document_ready_def initialize_inputs_def)
  show "Combo_Boxes \<notin> set (ran (final_state (on_document_ready (with_names names start_input) areas s)))"
    using combo_boxes_last [OF assms(4), where init = "with_names names start_input" and areas = areas] no
    by (cases "on_document_ready (with_names names start_input) areas s") simp_all
qed

section \<open>The load event of the form\<close>

definition form_event :: "'a page_scheme \<Rightarrow> (uid \<times> string) list" where
  "form_event p = waiting (on_dom_content_loaded p \<lparr>waiting = [], dispatched = []\<rparr>)"

lemma form_ready_tasks:
  "on_dom_content_loaded p s = s\<lparr>waiting := waiting s @ form_event p\<rparr>"
  by (auto simp: on_dom_content_loaded_def form_event_def dispatch_form_load_def split: option.split)

lemma main_keeps_form:
  assumes "\<And>n q. form_event (final_state (init n q)) = form_event q"
  shows "form_event (page_now (final_state (run_all (run_main_step init) sts l))) = form_event (page_now l)"
proof (induction sts arbitrary: l)
  case (Cons st sts)
  have "form_event (page_now (final_state (run_main_step init st l))) = form_event (page_now l)"
    using assms by (auto simp: run_main_step_def define_name_def split: main_step.split outcome.split)
      (metis final_state.simps)+
  then show ?case using Cons by (cases "run_main_step init st l") simp_all
qed simp

abbreviation apps :: "(nat \<times> string) list \<Rightarrow> ready_listener list" where
  "apps \<equiv> map (\<lambda>(k, t). App_Ready k t)"

lemma run_apps: "fold (run_ready init) (apps as) l = l\<lparr>subscribers := subscribers l @ as\<rparr>"
  by (induction as arbitrary: l) (auto simp: run_ready_def)

lemma run_main_ready:
  assumes "\<And>n q. form_event (final_state (init n q)) = form_event q"
  shows "form_event (page_now (run_ready init Main_Start l)) = form_event (page_now l) \<and>
    form_tasks (run_ready init Main_Start l) = form_tasks l \<and>
    subscribers (run_ready init Main_Start l) = subscribers l \<and> received (run_ready init Main_Start l) = received l"
proof -
  have "form_event (page_now (final_state (main_start init l))) = form_event (page_now l)"
    unfolding main_start_def by (rule main_keeps_form) (rule assms)
  then show ?thesis
    using main_steps_keep [of init main_steps l]
    by (cases "main_start init l") (simp_all add: run_ready_def main_start_def)
qed


definition demo_form_page :: page where
  "demo_form_page =
     \<lparr>doc = Node 0 [Node 1 []],
      heap = (\<lambda>u. if u = 1
        then (new_elem ''FORM'')\<lparr>attrs := [(''id'', ''nb-create-form''), (''data-nb-obj-type'', ''device'')]\<rparr>
        else new_elem ''BODY''), focus = None\<rparr>"

definition failing_search :: "string \<Rightarrow> 'p \<Rightarrow> 'p outcome" where
  "failing_search n q = (if n = ''search'' then Throw TypeError q else Done q)"


end
