(* ===== verification/Swagger_Config.thy ===== *)
theory Swagger_Config
  imports Swagger_Auth
begin

text \<open>
  How the API documentation page configures the Swagger UI, \<open>core/templates/swagger_ui.js\<close>: the
  plugin, the test whether a response belongs to the schema, and the settings of the server,
  which are spread last. The constant \<open>ui\<close> is in its dead zone until the bundle has returned.
\<close>

datatype plugin = Reload_Schema_On_Auth_Change

datatype config_value =
    Config_Text string
  | Config_Presets "string list"
  | Config_Plugins "plugin list"
  | Config_Function string
  | Config_Setting json

definition plugins_for :: "string list \<Rightarrow> plugin list" where
  "plugins_for schema_auth_names = (if length schema_auth_names > 0 then [Reload_Schema_On_Auth_Change] else [])"

text \<open>\<open>None\<close> is the dead zone: reading \<open>ui\<close> throws, which the function catches.\<close>

definition ui_initialized :: "'u option \<Rightarrow> bool" where
  "ui_initialized ui = (case ui of Some _ \<Rightarrow> True | None \<Rightarrow> False)"

text \<open>
  The configuration has the address of the schema; \<open>resolve\<close> is \<open>new URL(url, document.baseURI).href\<close>.
\<close>

definition is_schema_url :: "(string \<Rightarrow> string) \<Rightarrow> string option \<Rightarrow> string \<Rightarrow> bool" where
  "is_schema_url resolve ui url \<longleftrightarrow> (case ui of None \<Rightarrow> False | Some config_url \<Rightarrow> url = resolve config_url)"

definition own_config :: "string \<Rightarrow> string list \<Rightarrow> config_value obj" where
  "own_config schema_url names =
     [(''url'', Config_Text schema_url), (''dom_id'', Config_Text ''#swagger-ui''), (''presets'', Config_Presets [''apis'']),
      (''plugins'', Config_Plugins (plugins_for names)), (''layout'', Config_Text ''BaseLayout''),
      (''requestInterceptor'', Config_Function ''requestInterceptor''),
      (''responseInterceptor'', Config_Function ''responseInterceptor'')]"

definition swagger_config :: "string \<Rightarrow> string list \<Rightarrow> json obj \<Rightarrow> config_value obj" where
  "swagger_config schema_url names settings =
     ospread (own_config schema_url names) (map (\<lambda>(k, v). (k, Config_Setting v)) settings)"

text \<open>\<open>responseInterceptor\<close> with the test for the address, on a page whose \<open>ui\<close> may not be there yet.\<close>

definition on_response ::
    "(string \<Rightarrow> string) \<Rightarrow> string option \<Rightarrow> bool \<Rightarrow> string \<Rightarrow> schema_state \<Rightarrow> schema_state" where
  "on_response resolve ui ok url s = response_interceptor ok (\<not> ok \<and> is_schema_url resolve ui url) s"

definition response_event :: "(string \<Rightarrow> string) \<Rightarrow> string option \<Rightarrow> bool \<times> string \<Rightarrow> schema_event" where
  "response_event resolve ui r = Response (fst r) (\<not> fst r \<and> is_schema_url resolve ui (snd r))"

lemma schema_test_defined: "is_schema_url resolve ui url \<Longrightarrow> ui_initialized ui"
  by (simp add: is_schema_url_def ui_initialized_def split: option.splits)

lemma setting_wins:
  assumes "wf_obj settings"
  shows "oget (swagger_config u names settings) k =
    (case oget settings k of Some v \<Rightarrow> Some (Config_Setting v) | None \<Rightarrow> oget (own_config u names) k)"
proof -
  have get: "oget (map (\<lambda>(k, v). (k, Config_Setting v)) ms) k = map_option Config_Setting (oget ms k)" for ms
    by (induction ms) auto
  have "wf_obj (map (\<lambda>(k, v). (k, Config_Setting v)) settings)"
    using assms by (simp add: wf_obj_def comp_def case_prod_unfold)
  then show ?thesis by (simp add: swagger_config_def oget_ospread get split: option.split)
qed

text \<open>Responses to other addresses, and all before the interface is there, leave the state alone.\<close>

lemma other_responses_ignored:
  "\<not> is_schema_url resolve ui (snd r) \<Longrightarrow> schema_step h (response_event resolve ui r) s = s"
  by (simp add: schema_step_def response_event_def response_interceptor_def)

lemma step_is_listener: "schema_step h (response_event resolve ui (ok, url)) s = on_response resolve ui ok url s"
  by (simp add: schema_step_def response_event_def on_response_def)

text \<open>
  Without authorizations on the server the plugin is not there, and the schema is reloaded at
  most once, after a response that is not ok.
\<close>

lemma no_plugin_no_reload:
  assumes "names = []"
  shows "schema_step (plugins_for names \<noteq> []) Auth_Change s = s"
  using assms by (simp add: plugins_for_def schema_step_def)

end
