(* ===== verification/Bundles.thy ===== *)
theory Bundles
  imports Theme
begin

text \<open>
  What the build makes of the sources, \<open>ui/webpack.config.js\<close>: three bundles with the rules for
  the files they import, and the names of the files that come out, below \<open>project-static/dist\<close>.
  The templates load these files by name, and \<open>theme.js\<close> changes one of the names.
\<close>

section \<open>Which rule a file falls under\<close>

fun some_suffix :: "(string \<Rightarrow> bool) \<Rightarrow> string \<Rightarrow> bool" where
  "some_suffix P [] = P []"
| "some_suffix P (c # r) = (P (c # r) \<or> some_suffix P r)"

text \<open>\<open>\.(s?css)$\<close>, \<open>\.(css|scss)$\<close> and \<open>\.(css)$\<close>\<close>

definition any_css :: "string \<Rightarrow> bool" where
  "any_css f \<longleftrightarrow> some_suffix (\<lambda>r. r = ''.scss'' \<or> r = ''.css'') f"

definition plain_css :: "string \<Rightarrow> bool" where
  "plain_css f \<longleftrightarrow> some_suffix (\<lambda>r. r = ''.css'') f"

text \<open>\<open>\.(woff(2)?|ttf|eot|svg)(\?v=\d+\.\d+\.\d+)?$\<close>\<close>

definition number_then :: "(string \<Rightarrow> bool) \<Rightarrow> string \<Rightarrow> bool" where
  "number_then P s \<longleftrightarrow> (case s of c # _ \<Rightarrow> is_digit c | [] \<Rightarrow> False) \<and> P (dropWhile is_digit s)"

definition dot_then :: "(string \<Rightarrow> bool) \<Rightarrow> string \<Rightarrow> bool" where
  "dot_then P s \<longleftrightarrow> (case s of c # r \<Rightarrow> c = CHR ''.'' \<and> P r | [] \<Rightarrow> False)"

definition version_query :: "string \<Rightarrow> bool" where
  "version_query s \<longleftrightarrow> s = [] \<or> starts_with ''?v='' s \<and>
     number_then (dot_then (number_then (dot_then (number_then (\<lambda>r. r = []))))) (drop 3 s)"

definition font_types :: "string list" where
  "font_types = [''.woff2'', ''.woff'', ''.ttf'', ''.eot'', ''.svg'']"

definition font_file :: "string \<Rightarrow> bool" where
  "font_file f \<longleftrightarrow> some_suffix (\<lambda>r. list_ex (\<lambda>t. starts_with t r \<and> version_query (drop (length t) r)) font_types) f"

section \<open>The bundles\<close>

text \<open>The options of the loaders for CSS beyond prefixing are messages only.\<close>

datatype loader = Css_Extract | Css_Loader | Postcss_Autoprefixer | Sass_Loader | Asset_Resource

record module_rule =
  test_of :: "string \<Rightarrow> bool"
  loaders :: "loader list"

record build =
  build_mode :: string
  devtool :: string
  entry_name :: string
  entry_file :: string
  script_pattern :: string
  style_pattern :: string
  split_name :: "string option"
  copied :: "string list"
  module_rules :: "module_rule list"

definition nautobot_bundle :: build where
  "nautobot_bundle =
     \<lparr>build_mode = ''production'', devtool = ''source-map'', entry_name = ''nautobot'',
      entry_file = ''src/js/nautobot.js'', script_pattern = ''js/[name].js'',
      style_pattern = ''css/[name].css'', split_name = Some ''libraries'',
      copied = [''github.min.css'', ''github-dark.min.css''],
      module_rules = [\<lparr>test_of = any_css, loaders = [Css_Extract, Css_Loader, Postcss_Autoprefixer, Sass_Loader]\<rparr>]\<rparr>"

definition graphiql_bundle :: build where
  "graphiql_bundle =
     \<lparr>build_mode = ''production'', devtool = ''source-map'', entry_name = ''nautobot-graphiql'',
      entry_file = ''src/js/nautobot-graphiql.js'', script_pattern = ''js/[name].js'',
      style_pattern = ''css/[name].css'', split_name = Some ''graphql-libraries'', copied = [],
      module_rules = [\<lparr>test_of = plain_css, loaders = [Css_Extract, Css_Loader]\<rparr>]\<rparr>"

definition icons_bundle :: build where
  "icons_bundle =
     \<lparr>build_mode = ''production'', devtool = ''source-map'', entry_name = ''materialdesignicons'',
      entry_file = ''@mdi/font/css/materialdesignicons.css'',
      script_pattern = ''js/[name].js'', style_pattern = ''css/[name].css'', split_name = None, copied = [],
      module_rules =
        [\<lparr>test_of = any_css, loaders = [Css_Extract, Css_Loader, Sass_Loader]\<rparr>,
         \<lparr>test_of = font_file, loaders = [Asset_Resource]\<rparr>]\<rparr>"

definition bundles :: "build list" where
  "bundles = [nautobot_bundle, graphiql_bundle, icons_bundle]"

text \<open>A script without a rule is taken as it is; of the rules for a file, each applies.\<close>

definition loaders_for :: "build \<Rightarrow> string \<Rightarrow> loader list" where
  "loaders_for b f = concat (map loaders (filter (\<lambda>r. test_of r f) (module_rules b)))"

text \<open>The chunks of a bundle are its entry and the libraries split off; a chunk may have styles.\<close>

definition chunk_names :: "build \<Rightarrow> string list" where
  "chunk_names b = entry_name b # (case split_name b of None \<Rightarrow> [] | Some n \<Rightarrow> [n])"

definition fill_name :: "string \<Rightarrow> string \<Rightarrow> string" where
  "fill_name pattern n = replace_first ''[name]'' n [] pattern"

definition output_files :: "build \<Rightarrow> string list" where
  "output_files b =
     map (fill_name (script_pattern b)) (chunk_names b) @ map (fill_name (style_pattern b)) (chunk_names b) @
     map (\<lambda>f. ''css/'' @ f) (copied b)"

section \<open>Nothing is lost\<close>

lemma some_suffix_append: "P r \<Longrightarrow> some_suffix P (s @ r)"
proof (induction s)
  case Nil
  then show ?case by (cases r) auto
qed auto

lemma number_then_digits:
  assumes "ds \<noteq> []" and "list_all is_digit ds" and "P r" and "r = [] \<or> \<not> is_digit (hd r)"
  shows "number_then P (ds @ r)"
proof -
  have "dropWhile is_digit (ds @ r) = r"
    using assms(2,4) by (induction ds) (cases r; simp)+
  then show ?thesis using assms by (cases ds) (auto simp: number_then_def)
qed

text \<open>A font is copied whatever its name, and whatever the version its style sheet asks for.\<close>

lemma fonts_are_copied:
  assumes "t \<in> set font_types" and "\<forall>ds \<in> {a, b, c}. ds \<noteq> [] \<and> list_all is_digit ds"
  shows "font_file (name @ t)" and "font_file (name @ t @ ''?v='' @ a @ ''.'' @ b @ ''.'' @ c)"
proof -
  have nd: "\<not> is_digit CHR ''.''" by (simp add: is_digit_def)
  have "version_query []" by (simp add: version_query_def)
  moreover have sw: "starts_with t (t @ r)" for r by (simp add: starts_with_iff)
  moreover have "starts_with t t" using sw [of "[]"] by simp
  ultimately show "font_file (name @ t)"
    unfolding font_file_def using assms(1) by (intro some_suffix_append) (auto simp: list_ex_iff intro!: bexI [of _ t])
  have "number_then (\<lambda>r. r = []) (c @ [])" using assms(2) by (intro number_then_digits) auto
  then have "number_then (dot_then (number_then (\<lambda>r. r = []))) (b @ ''.'' @ c)"
    using assms(2) nd by (intro number_then_digits) (auto simp: dot_then_def)
  then have "number_then (dot_then (number_then (dot_then (number_then (\<lambda>r. r = []))))) (a @ ''.'' @ b @ ''.'' @ c)"
    using assms(2) nd by (intro number_then_digits) (auto simp: dot_then_def)
  then have "version_query (''?v='' @ a @ ''.'' @ b @ ''.'' @ c)"
    by (simp add: version_query_def starts_with_iff)
  then show "font_file (name @ t @ ''?v='' @ a @ ''.'' @ b @ ''.'' @ c)"
    unfolding font_file_def using assms(1) sw
    by (intro some_suffix_append) (auto simp: list_ex_iff intro!: bexI [of _ t])
qed

text \<open>Every style sheet the bundles import has its loaders, the extraction first.\<close>

lemma stylesheets_have_loaders:
  "loaders_for nautobot_bundle ''../scss/nautobot.scss'' = [Css_Extract, Css_Loader, Postcss_Autoprefixer, Sass_Loader]"
  "loaders_for graphiql_bundle ''graphiql/graphiql.css'' = [Css_Extract, Css_Loader]"
  "loaders_for graphiql_bundle ''@graphiql/plugin-explorer/dist/style.css'' = [Css_Extract, Css_Loader]"
  "loaders_for icons_bundle (entry_file icons_bundle) = [Css_Extract, Css_Loader, Sass_Loader]"
  by code_simp+

text \<open>No bundle overwrites a file of another, and all are there that the templates name.\<close>

lemma outputs_distinct: "distinct (concat (map output_files bundles))"
  by code_simp

definition loaded_files :: "string list" where
  "loaded_files =
     [''css/nautobot.css'', ''css/materialdesignicons.css'', ''css/github.min.css'', ''css/github-dark.min.css'',
      ''js/libraries.js'', ''js/nautobot.js'', ''css/graphql-libraries.css'', ''js/graphql-libraries.js'',
      ''js/nautobot-graphiql.js'']"

lemma loaded_files_built: "list_all (List.member (concat (map output_files bundles))) loaded_files"
  by code_simp

text \<open>Whatever theme is set, the style sheet of the highlighter it asks for has been built.\<close>

lemma highlighter_file_built: "''css/'' @ css_file th \<in> set (output_files nautobot_bundle)"
  by (simp add: output_files_def nautobot_bundle_def css_file_def)

end
