(* ===== verification/Page_Start.thy ===== *)
theory Page_Start
  imports Sidenav Theme Search Code_Editor
begin

text \<open>
  What happens when a page has loaded: the listener of \<open>ui/src/js/nautobot.js\<close> that starts the
  components one after the other, where one that throws stops all that follow; and the
  lemmas about components that share the preferences of the user.
\<close>

section \<open>Starting the components\<close>

text \<open>
  The state of the whole page: the document with the preferences, which the side navigation and
  the theme share, the variables of their own, the text of the navigation menu, and the names
  of the components started so far. The components that do not appear with a state of their
  own install listeners, observers and exports; they leave the shared state as it is.
\<close>

record app =
  shared :: prefs_page
  sidenav_vars :: "unit sidenav_page_ext"
  theme_vars :: "unit theme_page_ext"
  menu_text :: "string option"
  has_header_search :: bool
  started :: "string list"

definition sidenav_view :: "app \<Rightarrow> sidenav_page" where
  "sidenav_view a = prefs_page.extend (shared a) (sidenav_vars a)"

definition theme_view :: "app \<Rightarrow> theme_page" where
  "theme_view a = prefs_page.extend (shared a) (theme_vars a)"

definition put_sidenav :: "app \<Rightarrow> sidenav_page \<Rightarrow> app" where
  "put_sidenav a s = a\<lparr>shared := prefs_page.truncate s, sidenav_vars := prefs_page.more s\<rparr>"

definition put_theme :: "app \<Rightarrow> theme_page \<Rightarrow> app" where
  "put_theme a s = a\<lparr>shared := prefs_page.truncate s, theme_vars := prefs_page.more s\<rparr>"

fun map_outcome :: "('a \<Rightarrow> 'b) \<Rightarrow> 'a outcome \<Rightarrow> 'b outcome" where
  "map_outcome f (Done s) = Done (f s)"
| "map_outcome f (Throw e s) = Throw e (f s)"

definition note_start :: "string \<Rightarrow> app \<Rightarrow> app outcome" where
  "note_start n a = Done (a\<lparr>started := started a @ [n]\<rparr>)"

definition start_sidenav :: "app \<Rightarrow> app outcome" where
  "start_sidenav a =
     and_then (map_outcome (put_sidenav a) (init_sidenav (sidenav_view a))) (note_start ''sidenav'')"

definition start_search :: "app \<Rightarrow> app outcome" where
  "start_search a =
     (if has_header_search a \<and> searchable_models (nav_menu (menu_text a)) = None then Throw TypeError a
      else note_start ''search'' a)"

definition start_theme :: "app \<Rightarrow> app outcome" where
  "start_theme a =
     and_then (map_outcome (put_theme a) (init_theme (theme_view a))) (note_start ''theme'')"

definition on_dom_content_loaded :: "app \<Rightarrow> app outcome" where
  "on_dom_content_loaded =
     run_all (\<lambda>f. f)
       ([note_start ''history'', note_start ''tooltips'', start_sidenav] @
        map note_start [''checkbox'', ''clipboard'', ''collapse'', ''draggable'', ''drawers'', ''echarts'',
          ''sticky footers'', ''button spinner'', ''messages'', ''modal''] @
        [start_search] @ map note_start [''select2'', ''tabs'', ''trees''] @ [start_theme])"

section \<open>Shared preferences\<close>

lemma other_cookies_kept:
  assumes "wf_jar (cookie_jar s)" and "good_name k" and "k \<noteq> theme_choice_cookie" and "k \<noteq> theme_determined_cookie"
  shows "get_cookie k (cookie_jar (final_state (set_theme theme s))) = get_cookie k (cookie_jar s)"
proof -
  have "get_cookie k (cookie_jar (chosen theme s)) = get_cookie k (cookie_jar s)"
    using assms valid_theme_value
    by (auto simp: chosen_def persist_theme_choice_def cky.lookup_put is_valid_theme_choice_def split: option.splits)
  then show ?thesis
    using assms cookie_chosen(2) [OF assms(1), of theme] theme_value_good
    by (simp add: set_theme_final painted_def Let_def cky.lookup_put)
qed

lemma good_sidenav_cookie:
  "good_name sidenav_collapsed_key" "sidenav_collapsed_key \<noteq> theme_choice_cookie"
  "sidenav_collapsed_key \<noteq> theme_determined_cookie"
  by code_simp+

lemma sidenav_keeps_theme_cookies:
  assumes "wf_jar (cookie_jar s)" and "k = theme_choice_cookie \<or> k = theme_determined_cookie"
  shows "get_cookie k (cookie_jar (final_state (toggle_sidenav s))) = get_cookie k (cookie_jar s)"
proof -
  have k: "good_name k" "k \<noteq> sidenav_collapsed_key" using assms(2) good_sidenav_cookie by auto
  show ?thesis
    using assms(1) k good_sidenav_key
    by (auto simp: toggle_sidenav_def remember_collapsed_def Let_def ck.lookup_put ck.lookup_del split: option.split)
qed

lemma init_theme_final:
  "final_state (init_theme s) = final_state (set_theme None (upgrade_theme_choice s))"
  by (cases "set_theme None (upgrade_theme_choice s)") (simp_all add: init_theme_def)

lemma upgrade_keeps:
  assumes "wf_jar (cookie_jar s)"
  shows "wf_jar (cookie_jar (upgrade_theme_choice s))" "root_elem (upgrade_theme_choice s) = root_elem s"
proof -
  have "is_valid_theme_choice (Some (if is_valid_theme_choice t then the t else theme_system))" for t
    by (auto simp: valid_theme_choice_iff is_valid_theme_choice_def split: option.splits)
  then have "good_value (if is_valid_theme_choice t then the t else theme_system)" for t
    by (rule valid_theme_value)
  then show "wf_jar (cookie_jar (upgrade_theme_choice s))" "root_elem (upgrade_theme_choice s) = root_elem s"
    using assms by (simp_all add: upgrade_theme_choice_def Let_def cky.wf_put root_elem_def)
qed

section \<open>A start step by step\<close>

lemma views_put [simp]:
  "sidenav_view (put_sidenav a s) = s" "theme_view (put_theme a t) = t"
  by (cases s; cases t; simp add: sidenav_view_def put_sidenav_def theme_view_def put_theme_def
    prefs_page.extend_def prefs_page.truncate_def)+

lemma view_fields [simp]:
  "cookie_jar (sidenav_view a) = cookie_jar (shared a)" "cookie_jar (theme_view a) = cookie_jar (shared a)"
  "heap (sidenav_view a) = heap (shared a)" "heap (theme_view a) = heap (shared a)"
  "doc (sidenav_view a) = doc (shared a)" "doc (theme_view a) = doc (shared a)"
  "local_store (sidenav_view a) = local_store (shared a)" "local_store (theme_view a) = local_store (shared a)"
  by (simp_all add: sidenav_view_def theme_view_def prefs_page.extend_def)

lemma put_fields [simp]:
  "cookie_jar (shared (put_sidenav a s)) = cookie_jar s" "heap (shared (put_sidenav a s)) = heap s"
  "doc (shared (put_sidenav a s)) = doc s" "local_store (shared (put_sidenav a s)) = local_store s"
  "cookie_jar (shared (put_theme a t)) = cookie_jar t" "heap (shared (put_theme a t)) = heap t"
  "doc (shared (put_theme a t)) = doc t" "local_store (shared (put_theme a t)) = local_store t"
  "menu_text (put_sidenav a s) = menu_text a" "has_header_search (put_sidenav a s) = has_header_search a"
  "started (put_sidenav a s) = started a" "started (put_theme a t) = started a"
  by (simp_all add: put_sidenav_def put_theme_def prefs_page.truncate_def)

lemma started_views [simp]:
  "sidenav_view (a\<lparr>started := ns\<rparr>) = sidenav_view a" "theme_view (a\<lparr>started := ns\<rparr>) = theme_view a"
  by (simp_all add: sidenav_view_def theme_view_def)

lemma run_note_start:
  "run_all (\<lambda>f. f) (map note_start ns) a = Done (a\<lparr>started := started a @ ns\<rparr>)"
  by (induction ns arbitrary: a) (simp_all add: note_start_def)

abbreviation before_search :: "string list" where
  "before_search \<equiv> [''history'', ''tooltips'', ''sidenav'', ''checkbox'', ''clipboard'', ''collapse'', ''draggable'',
     ''drawers'', ''echarts'', ''sticky footers'', ''button spinner'', ''messages'', ''modal'']"

text \<open>Up to the search the start depends on the side navigation only.\<close>

lemma start_to_search:
  assumes "init_sidenav (sidenav_view a) = Done s" and "started a = []"
  shows "on_dom_content_loaded a =
    and_then (start_search ((put_sidenav (a\<lparr>started := [''history'', ''tooltips'']\<rparr>) s)\<lparr>started := before_search\<rparr>))
      (\<lambda>b. start_theme (b\<lparr>started := started b @ [''select2'', ''tabs'', ''trees'']\<rparr>))"
proof -
  have chain: "and_then (and_then r f) g = and_then r (\<lambda>x. and_then (f x) g)" for r :: "app outcome" and f g
    by (cases r) auto
  have rest: "run_all (\<lambda>f. f) (map note_start ns @ [start_theme]) = (\<lambda>b. start_theme (b\<lparr>started := started b @ ns\<rparr>))" for ns
  proof
    have last: "and_then r (run_all (\<lambda>f. f) []) = r" for r :: "app outcome" by (cases r) simp_all
    show "run_all (\<lambda>f. f) (map note_start ns @ [start_theme]) b = start_theme (b\<lparr>started := started b @ ns\<rparr>)" for b
      by (simp add: run_all_append run_note_start last)
  qed
  show ?thesis
    using assms
    by (simp add: on_dom_content_loaded_def run_all_append rest run_note_start start_sidenav_def note_start_def chain
      del: list.map)
qed

lemma start_reaches_theme:
  assumes "init_sidenav (sidenav_view a) = Done s" and "started a = []"
    and "has_header_search a \<Longrightarrow> searchable_models (nav_menu (menu_text a)) \<noteq> None"
  shows "on_dom_content_loaded a =
    start_theme ((put_sidenav (a\<lparr>started := [''history'', ''tooltips'']\<rparr>) s)
      \<lparr>started := before_search @ [''search'', ''select2'', ''tabs'', ''trees'']\<rparr>)"
  using assms(3) by (auto simp: start_to_search [OF assms(1,2)] start_search_def note_start_def)

lemma start_theme_result:
  "cookie_jar (shared (final_state (start_theme b))) = cookie_jar (final_state (init_theme (theme_view b)))"
  "heap (shared (final_state (start_theme b))) = heap (final_state (init_theme (theme_view b)))"
  "theme_view (final_state (start_theme b)) = final_state (init_theme (theme_view b))"
  "local_store (shared (final_state (start_theme b))) = local_store (final_state (init_theme (theme_view b)))"
  "doc (shared (final_state (start_theme b))) = doc (final_state (init_theme (theme_view b)))"
  "set (started b) \<subseteq> set (started (final_state (start_theme b)))"
  by (cases "init_theme (theme_view b)"; auto simp: start_theme_def note_start_def; fail)+

text \<open>The theme leaves the remembered state and the toggler of the side navigation alone.\<close>

lemma upgrade_keeps_sidenav:
  assumes "wf_jar (cookie_jar t)"
  shows "get_cookie sidenav_collapsed_key (cookie_jar (upgrade_theme_choice t)) = get_cookie sidenav_collapsed_key (cookie_jar t)"
    and "get_item sidenav_collapsed_key (local_store (upgrade_theme_choice t)) = get_item sidenav_collapsed_key (local_store t)"
    and "heap (upgrade_theme_choice t) = heap t"
proof -
  have "sidenav_collapsed_key \<noteq> ''theme''" by (simp add: sidenav_collapsed_key_def)
  moreover have "is_valid_theme_choice (Some (if is_valid_theme_choice c then the c else theme_system))" for c
    by (auto simp: valid_theme_choice_iff is_valid_theme_choice_def split: option.splits)
  ultimately show "get_cookie sidenav_collapsed_key (cookie_jar (upgrade_theme_choice t)) = get_cookie sidenav_collapsed_key (cookie_jar t)"
    "get_item sidenav_collapsed_key (local_store (upgrade_theme_choice t)) = get_item sidenav_collapsed_key (local_store t)"
    "heap (upgrade_theme_choice t) = heap t"
    using assms good_sidenav_cookie valid_theme_value
    by (simp_all add: upgrade_theme_choice_def Let_def cky.lookup_put)
qed

lemma init_theme_keeps_sidenav:
  assumes "wf_jar (cookie_jar t)"
  shows "get_cookie sidenav_collapsed_key (cookie_jar (final_state (init_theme t))) = get_cookie sidenav_collapsed_key (cookie_jar t)"
    and "get_item sidenav_collapsed_key (local_store (final_state (init_theme t))) = get_item sidenav_collapsed_key (local_store t)"
    and "get_attr ''aria-expanded'' (heap (final_state (init_theme t)) u) = get_attr ''aria-expanded'' (heap t u)"
  using upgrade_keeps_sidenav [OF assms] upgrade_keeps [OF assms]
    other_cookies_kept [OF upgrade_keeps(1) [OF assms] good_sidenav_cookie]
  by (simp_all add: init_theme_final set_theme_final)

section \<open>A page on which the hypotheses hold\<close>

definition demo_app :: "string option \<Rightarrow> bool \<Rightarrow> app" where
  "demo_app menu search =
     \<lparr>shared = prefs_page.truncate (demo_sidenav [] False), sidenav_vars = prefs_page.more (demo_sidenav [] False),
      theme_vars = prefs_page.more (demo_theme []), menu_text = menu, has_header_search = search, started = []\<rparr>"

lemma demo_app_sidenav:
  "\<exists>s. init_sidenav (sidenav_view (demo_app m b)) = Done s \<and> wf_jar (cookie_jar s) \<and> root_elem s = 0"
proof -
  have v: "sidenav_view (demo_app m b) = demo_sidenav [] False"
    by (simp add: sidenav_view_def demo_app_def demo_sidenav_def prefs_page.extend_def prefs_page.truncate_def)
  have "completed (init_sidenav (demo_sidenav [] False))"
    "wf_jar (cookie_jar (final_state (init_sidenav (demo_sidenav [] False))))"
    "root_elem (final_state (init_sidenav (demo_sidenav [] False))) = 0"
    by code_simp+
  then show ?thesis unfolding v by (auto simp: completed_iff)
qed

end
