(* ===== verification/Page_Session.thy ===== *)
theory Page_Session
  imports Page_Start
begin

text \<open>
  The preferences of a user over a whole visit: pages are loaded one after the other, the side
  navigation is toggled, themes are picked, the system changes its color scheme. The scripts
  involved, \<open>sidenav.js\<close>, \<open>theme.js\<close> and \<open>cookie.js\<close>, started by \<open>nautobot.js\<close>, share the document,
  the cookies and the local storage; the visit is simulated by two preferences that know
  nothing of each other.
\<close>

section \<open>A visit\<close>

definition buttons_in :: "'a page_scheme \<Rightarrow> uid list" where
  "buttons_in p = (case by_id p theme_modal_id of None \<Rightarrow> [] | Some m \<Rightarrow> qsa p m theme_button_sel)"

definition button_for :: "string \<Rightarrow> 'a page_scheme \<Rightarrow> uid option" where
  "button_for th p = List.find (\<lambda>b. get_attr ''data-nb-theme'' (heap p b) = Some th) (buttons_in p)"

datatype visit_event = Toggle_Navigation | Pick_Theme string | Scheme_Change bool | Load_Page app

definition load_page :: "app \<Rightarrow> app \<Rightarrow> app" where
  "load_page q a =
     final_state (on_dom_content_loaded
       (q\<lparr>shared := (shared q)\<lparr>cookie_jar := cookie_jar (shared a), local_store := local_store (shared a)\<rparr>\<rparr>))"

text \<open>A theme is picked with the button for it, if the page has one.\<close>

definition visit_step :: "visit_event \<Rightarrow> app \<Rightarrow> app" where
  "visit_step e a =
     (case e of
        Toggle_Navigation \<Rightarrow> put_sidenav a (final_state (toggle_sidenav (sidenav_view a)))
      | Pick_Theme th \<Rightarrow>
          (case button_for th (shared a) of
             None \<Rightarrow> a
           | Some b \<Rightarrow> put_theme a (final_state (on_click_theme b (theme_view a))))
      | Scheme_Change dark \<Rightarrow> put_theme a (final_state (on_scheme_change dark (theme_view a)))
      | Load_Page q \<Rightarrow> load_page q a)"

text \<open>What the user wants: a theme, and whether the side navigation is collapsed.\<close>

definition wish_step :: "visit_event \<Rightarrow> string option \<times> bool \<Rightarrow> string option \<times> bool" where
  "wish_step e w =
     (case e of
        Toggle_Navigation \<Rightarrow> (fst w, \<not> snd w)
      | Pick_Theme th \<Rightarrow> (if is_valid_theme_choice (Some th) then Some th else fst w, snd w)
      | _ \<Rightarrow> w)"

definition remembered :: "app \<Rightarrow> string option \<times> bool" where
  "remembered a = (get_cookie theme_choice_cookie (cookie_jar (shared a)), Sidenav.saved_state (shared a) = ''true'')"

section \<open>Pages as the server renders them\<close>

text \<open>The toggler with what it controls, and a button for each theme.\<close>

definition has_toggler :: "'a page_scheme \<Rightarrow> bool" where
  "has_toggler p =
     (case doc_qs p toggler_sel of
        None \<Rightarrow> False
      | Some t \<Rightarrow> by_id p (id_text (get_attr ''aria-controls'' (heap p t))) \<noteq> None)"

definition has_buttons :: "'a page_scheme \<Rightarrow> bool" where
  "has_buttons p \<longleftrightarrow> list_all (\<lambda>th. button_for th p \<noteq> None) [theme_dark, theme_light, theme_system]"

definition toggler_expanded :: "'a page_scheme \<Rightarrow> bool" where
  "toggler_expanded p = (case doc_qs p toggler_sel of None \<Rightarrow> False | Some t \<Rightarrow> is_expanded (heap p t))"

definition toggler_rendered :: "'a page_scheme \<Rightarrow> bool" where
  "toggler_rendered p =
     (case doc_qs p toggler_sel of
        None \<Rightarrow> False
      | Some t \<Rightarrow> List.member [Some ''true'', Some ''false''] (get_attr ''aria-expanded'' (heap p t)))"

definition page_ready :: "app \<Rightarrow> bool" where
  "page_ready q \<longleftrightarrow> started q = [] \<and> has_toggler (shared q) \<and> has_buttons (shared q) \<and> toggler_rendered (shared q) \<and>
     (has_header_search q \<longrightarrow> searchable_models (nav_menu (menu_text q)) \<noteq> None)"

fun ready_event :: "visit_event \<Rightarrow> bool" where
  "ready_event (Load_Page q) = page_ready q"
| "ready_event e = True"

text \<open>
  During a visit: a valid theme is remembered, and what is remembered is shown, by the
  document, the toggler, and the cookie for the server.
\<close>

definition visit_ok :: "app \<Rightarrow> bool" where
  "visit_ok a \<longleftrightarrow> wf_jar (cookie_jar (shared a)) \<and> has_toggler (shared a) \<and> has_buttons (shared a) \<and>
     is_valid_theme_choice (get_cookie theme_choice_cookie (cookie_jar (shared a))) \<and>
     Sidenav.saved_state (shared a) = show_bool (\<not> toggler_expanded (shared a)) \<and>
     get_attr ''data-theme'' (heap (shared a) (root_elem (shared a))) = Some (determine_theme (theme_view a)) \<and>
     get_cookie theme_determined_cookie (cookie_jar (shared a)) = Some (determine_theme (theme_view a))"

section \<open>What the components leave alone\<close>

abbreviation shared_attrs :: "string list" where
  "shared_attrs \<equiv> [''aria-expanded'', ''data-theme'', ''data-bs-theme'', ''href'']"

abbreviation shared_classes :: "string list" where
  "shared_classes \<equiv> [''nb-sidenav-collapsed'', ''border'', ''border-primary'']"

lemma untouched_mono: "untouched as cs p q \<Longrightarrow> set as \<subseteq> set bs \<Longrightarrow> set cs \<subseteq> set ds \<Longrightarrow> untouched bs ds p q"
  unfolding untouched_def subset_iff by blast

lemma toggler_cong:
  assumes "untouched shared_attrs shared_classes p q"
  shows "doc_qs q toggler_sel = doc_qs p toggler_sel" and "has_toggler q = has_toggler p"
proof -
  show d: "doc_qs q toggler_sel = doc_qs p toggler_sel"
    using assms by (intro doc_qs_cong) (simp_all add: toggler_sel_def untouched_doc untouched_class)
  show "has_toggler q = has_toggler p"
    using untouched_by_id [OF assms] untouched_attr [OF assms] by (simp add: has_toggler_def d split: option.split)
qed

lemma buttons_cong:
  assumes "untouched shared_attrs shared_classes p q"
  shows "buttons_in q = buttons_in p" and "button_for th q = button_for th p" and "has_buttons q = has_buttons p"
proof -
  have "qsa q m theme_button_sel = qsa p m theme_button_sel" for m
    using assms by (intro qsa_cong) (simp_all add: theme_button_sel_def untouched_doc untouched_tag untouched_attr)
  then show b: "buttons_in q = buttons_in p" using untouched_by_id [OF assms] by (simp add: buttons_in_def split: option.split)
  show f: "button_for th q = button_for th p" for th using assms by (simp add: button_for_def b untouched_attr)
  show "has_buttons q = has_buttons p" by (simp add: has_buttons_def f)
qed

lemma painted_class:
  "c \<notin> {''border'', ''border-primary''} \<Longrightarrow> has_class c (heap (painted theme s) u) = has_class c (heap s u)"
proof -
  assume c: "c \<notin> {''border'', ''border-primary''}"
  have m: "has_class c (heap (upd_all us (mark_button ch) p) v) = has_class c (heap p v)" for us ch v and p :: theme_page
    by (rule heap_upd_all_pres) (use c in \<open>simp add: mark_button_def Let_def\<close>)
  show ?thesis by (simp add: painted_def Let_def) (simp add: heap_upd m)
qed

lemma untouched_set_theme: "untouched shared_attrs shared_classes s (final_state (set_theme theme s))"
proof -
  have "tag (heap (final_state (set_theme theme s)) u) = tag (heap s u)" for u
  proof -
    let ?p = "highlighter_change (determine_theme (chosen theme s)) (painted theme s)"
    have "heap (final_state (set_theme theme s)) = heap (final_state (echarts_change (determine_theme (chosen theme s)) ?p))"
      by (cases "echarts_change (determine_theme (chosen theme s)) ?p") (simp_all add: set_theme_painted Let_def)
    then show ?thesis by simp
  qed
  then show ?thesis by (simp add: untouched_def set_theme_final painted_class)
qed

lemma untouched_views [simp]:
  "untouched as cs (shared a) (sidenav_view a)" "untouched as cs (shared a) (theme_view a)"
  "untouched as cs s (shared (put_sidenav a s))" "untouched as cs t (shared (put_theme a t))"
  by (simp_all add: untouched_def)

lemma saved_state_views [simp]:
  "Sidenav.saved_state (sidenav_view a) = Sidenav.saved_state (shared a)"
  "Sidenav.saved_state (shared (put_sidenav a s)) = Sidenav.saved_state s"
  "Sidenav.saved_state (shared (put_theme a t)) = Sidenav.saved_state t"
  by (simp_all add: Sidenav.saved_state_def split: option.split)

lemma prefers_dark_put [simp]: "prefers_dark (theme_view (put_sidenav a s)) = prefers_dark (theme_view a)"
proof -
  have v: "theme_vars a = prefs_page.more (theme_view a)" by (simp add: theme_view_def prefs_page.extend_def)
  have x: "prefers_dark (prefs_page.extend p (prefs_page.more t)) = prefers_dark t" for p and t :: theme_page
    by (cases t) (simp add: prefs_page.extend_def)
  have e: "theme_view (put_sidenav a s) = prefs_page.extend (prefs_page.truncate s) (theme_vars a)"
    by (simp add: theme_view_def put_sidenav_def)
  show ?thesis unfolding e by (subst v) (rule x)
qed

section \<open>One event\<close>

lemma remembered_shown:
  "visit_ok a \<Longrightarrow> remembered a = (get_cookie theme_choice_cookie (cookie_jar (shared a)), \<not> toggler_expanded (shared a))"
  by (simp add: visit_ok_def remembered_def show_bool_def)

lemma visit_okD:
  assumes "visit_ok a"
  obtains t n where "toggler_layout (sidenav_view a) t n" and "doc_qs (shared a) toggler_sel = Some t"
    and "Sidenav.saved_state (shared a) = show_bool (\<not> is_expanded (heap (shared a) t))"
proof -
  obtain t n where t: "doc_qs (shared a) toggler_sel = Some t"
    "by_id (shared a) (id_text (get_attr ''aria-controls'' (heap (shared a) t))) = Some n"
    using assms by (auto simp: visit_ok_def has_toggler_def split: option.splits)
  moreover have "toggler_layout (sidenav_view a) t n"
    using t assms toggler_cong(1) [OF untouched_views(1)] untouched_by_id [OF untouched_views(1) [of "[]" "[]" a]]
    by (simp add: toggler_layout_def visit_ok_def)
  ultimately show ?thesis using that assms by (simp add: visit_ok_def toggler_expanded_def)
qed

lemma toggle_step:
  assumes "visit_ok a"
  shows "visit_ok (visit_step Toggle_Navigation a) \<and>
    remembered (visit_step Toggle_Navigation a) = wish_step Toggle_Navigation (remembered a)"
proof -
  from assms obtain t n where l: "toggler_layout (sidenav_view a) t n" and t: "doc_qs (shared a) toggler_sel = Some t"
    and saved: "Sidenav.saved_state (shared a) = show_bool (\<not> is_expanded (heap (shared a) t))"
    by (rule visit_okD)
  obtain s where s: "toggle_sidenav (sidenav_view a) = Done s"
    and e: "get_attr ''aria-expanded'' (heap s t) = Some (show_bool (\<not> is_expanded (heap (shared a) t)))"
    and sv: "Sidenav.saved_state s = show_bool (is_expanded (heap (shared a) t))"
    using toggle_sidenav_remembers [OF l] by auto
  have u: "untouched [''aria-expanded''] [''nb-sidenav-collapsed''] (shared a) (shared (put_sidenav a s))"
    using untouched_toggle_sidenav [of "sidenav_view a"] s
    by (intro untouched_trans [OF untouched_views(1)] untouched_trans [OF _ untouched_views(3)]) simp
  then have u': "untouched shared_attrs shared_classes (shared a) (shared (put_sidenav a s))"
    by (rule untouched_mono) simp_all
  have wf: "wf_jar (cookie_jar (shared a))" "wf_jar (cookie_jar s)"
    using assms toggler_layout_toggle [OF l s] by (simp_all add: visit_ok_def toggler_layout_def)
  have keep: "get_cookie k (cookie_jar s) = get_cookie k (cookie_jar (shared a))"
    if "k = theme_choice_cookie \<or> k = theme_determined_cookie" for k
    using sidenav_keeps_theme_cookies [of "sidenav_view a" k] wf(1) that s by simp
  have det: "determine_theme (theme_view (put_sidenav a s)) = determine_theme (theme_view a)"
    by (rule determine_theme_cong) (simp_all add: keep)
  have exp: "toggler_expanded (shared (put_sidenav a s)) = (\<not> is_expanded (heap (shared a) t))"
    using e t toggler_cong(1) [OF u'] by (simp add: toggler_expanded_def is_expanded_def show_bool_def)
  have root: "root_elem (shared (put_sidenav a s)) = root_elem (shared a)"
    using untouched_doc [OF u] by (simp add: root_elem_def)
  have theme: "get_attr ''data-theme'' (heap s v) = get_attr ''data-theme'' (heap (shared a) v)" for v
    using untouched_attr [OF u, of "''data-theme''" v] by simp
  show ?thesis
    using assms wf(2) sv saved
    by (simp add: visit_step_def s visit_ok_def remembered_def wish_step_def toggler_cong(2) [OF u'] buttons_cong(3) [OF u']
      keep det exp root theme)
qed

text \<open>Setting the theme, on the page or on the page with another color scheme of the system.\<close>

lemma set_theme_step:
  assumes ok: "visit_ok a" and w: "doc w = doc (shared a)" "heap w = heap (shared a)" "cookie_jar w = cookie_jar (shared a)"
      "local_store w = local_store (shared a)"
    and v: "doc v = doc (final_state (set_theme th w))" "heap v = heap (final_state (set_theme th w))"
      "cookie_jar v = cookie_jar (final_state (set_theme th w))" "local_store v = local_store (final_state (set_theme th w))"
      "prefers_dark v = prefers_dark (final_state (set_theme th w))"
  shows "visit_ok (put_theme a v) \<and>
    remembered (put_theme a v) = (if is_valid_theme_choice th then th else fst (remembered a), snd (remembered a))"
proof -
  let ?f = "final_state (set_theme th w)"
  have wf: "wf_jar (cookie_jar w)" using ok w by (simp add: visit_ok_def)
  have u: "untouched shared_attrs shared_classes (shared a) (shared (put_theme a v))"
    using untouched_set_theme [of w th] w(1,2) v(1,2) by (simp add: untouched_def)
  have sv: "Sidenav.saved_state v = Sidenav.saved_state (shared a)"
    using other_cookies_kept [OF wf good_sidenav_cookie, of th] v(3,4) w(3,4)
    by (simp add: Sidenav.saved_state_def set_theme_final(4) split: option.split)
  have exp: "get_attr ''aria-expanded'' (heap v t) = get_attr ''aria-expanded'' (heap (shared a) t)" for t
    using v(2) w(2) by (simp add: set_theme_final(5))
  have det: "determine_theme v = determine_theme ?f" by (rule determine_theme_cong) (simp_all add: v)
  have root: "root_elem (shared (put_theme a v)) = root_elem w" "root_elem (shared a) = root_elem w"
    using v(1) w(1) by (simp_all add: root_elem_def set_theme_final(1))
  have choice: "get_cookie theme_choice_cookie (cookie_jar v) =
      (if is_valid_theme_choice th then th else get_cookie theme_choice_cookie (cookie_jar (shared a)))" "wf_jar (cookie_jar v)"
    using choice_after_set_theme [OF wf, of th] v(3) w(3) by simp_all
  have shown: "get_attr ''data-theme'' (heap v (root_elem w)) = Some (determine_theme v)"
    "get_cookie theme_determined_cookie (cookie_jar v) = Some (determine_theme v)"
    using theme_in_effect(2,3) [OF wf, of th] v(2,3) det by simp_all
  have "toggler_expanded (shared (put_theme a v)) = toggler_expanded (shared a)"
    using toggler_cong(1) [OF u] by (simp add: toggler_expanded_def is_expanded_def exp split: option.split)
  then show ?thesis
    using ok choice shown
    by (simp add: visit_ok_def remembered_def toggler_cong(2) [OF u] buttons_cong(3) [OF u] sv root)
qed

lemma pick_step:
  assumes "visit_ok a"
  shows "visit_ok (visit_step (Pick_Theme th) a) \<and>
    remembered (visit_step (Pick_Theme th) a) = wish_step (Pick_Theme th) (remembered a)"
proof (cases "button_for th (shared a)")
  case None
  have "is_valid_theme_choice (Some th) \<Longrightarrow> th = theme_dark \<or> th = theme_light \<or> th = theme_system"
    by (auto simp: is_valid_theme_choice_def)
  then have "\<not> is_valid_theme_choice (Some th)"
    using None assms by (auto simp: visit_ok_def has_buttons_def)
  then show ?thesis using assms None by (simp add: visit_step_def wish_step_def)
next
  case (Some b)
  then have th: "get_attr ''data-nb-theme'' (heap (theme_view a) b) = Some th"
    by (auto simp: button_for_def find_Some_iff)
  let ?v = "final_state (on_click_theme b (theme_view a))"
  have v: "doc ?v = doc (final_state (set_theme (Some th) (theme_view a)))"
    "heap ?v = heap (final_state (set_theme (Some th) (theme_view a)))"
    "cookie_jar ?v = cookie_jar (final_state (set_theme (Some th) (theme_view a)))"
    "local_store ?v = local_store (final_state (set_theme (Some th) (theme_view a)))"
    "prefers_dark ?v = prefers_dark (final_state (set_theme (Some th) (theme_view a)))"
    using th by (cases "set_theme (Some th) (theme_view a)"; simp add: on_click_theme_def)+
  show ?thesis
    using set_theme_step [OF assms _ _ _ _ v] by (simp add: visit_step_def Some wish_step_def)
qed

lemma scheme_step:
  assumes "visit_ok a"
  shows "visit_ok (visit_step (Scheme_Change dark) a) \<and>
    remembered (visit_step (Scheme_Change dark) a) = wish_step (Scheme_Change dark) (remembered a)"
  using set_theme_step [OF assms, of "(theme_view a)\<lparr>prefers_dark := Some dark\<rparr>" "final_state (on_scheme_change dark (theme_view a))" None]
  by (simp add: visit_step_def wish_step_def on_scheme_change_def is_valid_theme_choice_def)

section \<open>A new page\<close>

lemma init_sidenav_final:
  "\<exists>s1 b us. (s1 = s \<or> s1 = final_state (toggle_sidenav s)) \<and>
     (init_sidenav s = Done (s1\<lparr>toggler_bound := b, items_bound := us\<rparr>) \<or> \<not> completed (init_sidenav s))"
proof (cases "doc_qs s toggler_sel")
  case None
  have "init_sidenav s = Done (s\<lparr>toggler_bound := toggler_bound s, items_bound := doc_qsa s list_item_sel\<rparr>)"
    using None by (simp add: init_sidenav_def init_toggler_def)
  then show ?thesis by blast
next
  case (Some t)
  show ?thesis
    by (cases "toggle_sidenav s") (auto simp: init_sidenav_def init_toggler_def Some Let_def)
qed

lemma started_sidenav:
  assumes l: "toggler_layout s t n" and sv: "Sidenav.saved_state s = show_bool c"
    and r: "get_attr ''aria-expanded'' (heap s t) \<in> {Some ''true'', Some ''false''}"
  obtains s' where "init_sidenav s = Done s'" and "is_expanded (heap s' t) = (\<not> c)" and "Sidenav.saved_state s' = show_bool c"
    and "wf_jar (cookie_jar s')" and "untouched [''aria-expanded''] [''nb-sidenav-collapsed''] s s'"
    and "get_cookie theme_choice_cookie (cookie_jar s') = get_cookie theme_choice_cookie (cookie_jar s)"
proof -
  have "Sidenav.saved_state s \<in> {''true'', ''false''}" using sv by (simp add: show_bool_def)
  from init_repairs_rendering [OF l this r] obtain s' where s': "init_sidenav s = Done s'"
    "is_expanded (heap s' t) = (\<not> c)" "Sidenav.saved_state s' = show_bool c"
    using sv by (cases c) (auto simp: show_bool_def)
  obtain s1 b us where s1: "s1 = s \<or> s1 = final_state (toggle_sidenav s)" "s' = s1\<lparr>toggler_bound := b, items_bound := us\<rparr>"
    using init_sidenav_final [of s] s'(1) by auto
  have "wf_jar (cookie_jar s)" using l by (simp add: toggler_layout_def)
  moreover have "wf_jar (cookie_jar (final_state (toggle_sidenav s)))"
    using toggler_layout_toggle [OF l] toggle_sidenav_effect [OF l] by (auto simp: toggler_layout_def)
  ultimately have w: "wf_jar (cookie_jar s')" using s1 by auto
  have "untouched [''aria-expanded''] [''nb-sidenav-collapsed''] s s1" using s1(1) untouched_toggle_sidenav by auto
  then have u: "untouched [''aria-expanded''] [''nb-sidenav-collapsed''] s s'" by (simp add: s1(2) untouched_def)
  have "get_cookie theme_choice_cookie (cookie_jar s') = get_cookie theme_choice_cookie (cookie_jar s)"
    using s1 sidenav_keeps_theme_cookies [of s theme_choice_cookie] \<open>wf_jar (cookie_jar s)\<close> by auto
  with s' w u that show ?thesis by blast
qed

lemma upgrade_of_valid:
  assumes "is_valid_theme_choice (get_cookie theme_choice_cookie (cookie_jar v))"
  shows "upgrade_theme_choice v = v\<lparr>local_store := remove_item ''theme'' (local_store v)\<rparr>"
  using assms by (simp add: upgrade_theme_choice_def Let_def)

text \<open>
  A page can be loaded with any cookies and any storage in which the side navigation is
  remembered as collapsed or not; a choice of a theme that is missing or unknown is made up
  for.
\<close>

lemma page_loaded:
  assumes wf: "wf_jar (cookie_jar (shared a))" and sa: "Sidenav.saved_state (shared a) = show_bool c" and ready: "page_ready q"
  shows "visit_ok (load_page q a)" and "snd (remembered (load_page q a)) = c"
    and "is_valid_theme_choice (fst (remembered a)) \<Longrightarrow> fst (remembered (load_page q a)) = fst (remembered a)"
proof -
  let ?q = "q\<lparr>shared := (shared q)\<lparr>cookie_jar := cookie_jar (shared a), local_store := local_store (shared a)\<rparr>\<rparr>"
  have same: "untouched [] [] (shared q) (sidenav_view ?q)" by (simp add: untouched_def)
  obtain t n where t: "doc_qs (shared q) toggler_sel = Some t"
    "by_id (shared q) (id_text (get_attr ''aria-controls'' (heap (shared q) t))) = Some n"
    "get_attr ''aria-expanded'' (heap (shared q) t) \<in> {Some ''true'', Some ''false''}"
    using ready by (auto simp: page_ready_def has_toggler_def toggler_rendered_def split: option.splits)
  have tq: "doc_qs (sidenav_view ?q) toggler_sel = Some t"
    using t(1) toggler_cong(1) [of "shared q" "sidenav_view ?q"] by (simp add: untouched_def)
  have l: "toggler_layout (sidenav_view ?q) t n"
    using t tq wf untouched_by_id [OF same] by (simp add: toggler_layout_def)
  have sv: "Sidenav.saved_state (sidenav_view ?q) = show_bool c"
  proof -
    have "Sidenav.saved_state (sidenav_view ?q) = Sidenav.saved_state (shared a)"
      by (simp add: Sidenav.saved_state_def split: option.split)
    then show ?thesis by (simp add: sa)
  qed
  obtain s where s: "init_sidenav (sidenav_view ?q) = Done s" "is_expanded (heap s t) = (\<not> c)"
    "Sidenav.saved_state s = show_bool c" "wf_jar (cookie_jar s)"
    and us: "untouched [''aria-expanded''] [''nb-sidenav-collapsed''] (sidenav_view ?q) s"
    and cs: "get_cookie theme_choice_cookie (cookie_jar s) = get_cookie theme_choice_cookie (cookie_jar (shared a))"
    using started_sidenav [OF l sv] t(3) by auto
  define b where "b = (put_sidenav (?q\<lparr>started := [''history'', ''tooltips'']\<rparr>) s)
    \<lparr>started := before_search @ [''search'', ''select2'', ''tabs'', ''trees'']\<rparr>"
  define v where "v = upgrade_theme_choice (theme_view b)"
  define f where "f = final_state (set_theme None v)"
  have q': "load_page q a = final_state (start_theme b)"
    using start_reaches_theme [OF s(1)] ready by (simp add: load_page_def page_ready_def b_def)
  have wb: "wf_jar (cookie_jar (theme_view b))" using s(4) by (simp add: b_def)
  have v: "doc v = doc s" "heap v = heap s" "wf_jar (cookie_jar v)"
    using upgrade_keeps(1) [OF wb] by (simp_all add: v_def b_def upgrade_theme_choice_def Let_def)
  have "is_valid_theme_choice (Some theme_system)" by (simp add: is_valid_theme_choice_def)
  then have vc: "is_valid_theme_choice (get_cookie theme_choice_cookie (cookie_jar v))"
    "is_valid_theme_choice (fst (remembered a)) \<Longrightarrow> get_cookie theme_choice_cookie (cookie_jar v) = fst (remembered a)"
    using upgrade_migrates_choice [OF wb] cs upgrade_of_valid [of "theme_view b"]
    by (simp_all add: v_def b_def remembered_def Let_def)
  have r: "doc (shared (load_page q a)) = doc f" "heap (shared (load_page q a)) = heap f"
    "cookie_jar (shared (load_page q a)) = cookie_jar f" "local_store (shared (load_page q a)) = local_store f"
    "theme_view (load_page q a) = f"
    by (simp_all add: q' start_theme_result init_theme_final f_def v_def)
  have "untouched shared_attrs shared_classes (shared q) v"
    using us v(1,2) by (auto simp: untouched_def)
  then have u: "untouched shared_attrs shared_classes (shared q) (shared (load_page q a))"
    using untouched_set_theme [of v None] r(1,2) by (simp add: untouched_def f_def)
  have "Sidenav.saved_state (shared (load_page q a)) = Sidenav.saved_state s"
    using init_theme_keeps_sidenav [of "theme_view b"] s(4)
    by (simp add: Sidenav.saved_state_def q' start_theme_result b_def split: option.split)
  then have saved: "Sidenav.saved_state (shared (load_page q a)) = show_bool c" by (simp add: s(3))
  have exp: "toggler_expanded (shared (load_page q a)) = (\<not> c)"
    using toggler_cong(1) [OF u] t(1) s(2) v(2)
    by (simp add: toggler_expanded_def is_expanded_def r(2) f_def set_theme_final(5))
  have root: "root_elem (shared (load_page q a)) = root_elem v"
    using r(1) by (simp add: root_elem_def f_def set_theme_final(1))
  have choice: "get_cookie theme_choice_cookie (cookie_jar f) = get_cookie theme_choice_cookie (cookie_jar v)"
    "wf_jar (cookie_jar f)"
    using choice_after_set_theme [OF v(3), of None] by (simp_all add: f_def is_valid_theme_choice_def)
  show "visit_ok (load_page q a)"
    using ready choice vc(1) theme_in_effect(2,3) [OF v(3), of None]
    by (simp add: visit_ok_def page_ready_def toggler_cong(2) [OF u] buttons_cong(3) [OF u] saved exp root r f_def)
  show "snd (remembered (load_page q a)) = c" by (simp add: remembered_def saved show_bool_def)
  show "is_valid_theme_choice (fst (remembered a)) \<Longrightarrow> fst (remembered (load_page q a)) = fst (remembered a)"
    using choice(1) vc(2) by (simp add: remembered_def r(3))
qed

lemma load_step:
  assumes "visit_ok a" and "page_ready q"
  shows "visit_ok (visit_step (Load_Page q) a) \<and>
    remembered (visit_step (Load_Page q) a) = wish_step (Load_Page q) (remembered a)"
proof -
  have h: "wf_jar (cookie_jar (shared a))" "Sidenav.saved_state (shared a) = show_bool (\<not> toggler_expanded (shared a))"
    "is_valid_theme_choice (fst (remembered a))"
    using assms(1) by (simp_all add: visit_ok_def remembered_def)
  then have "snd (remembered a) = (\<not> toggler_expanded (shared a))" by (simp add: remembered_def show_bool_def)
  with page_loaded [OF h(1,2) assms(2)] h(3) show ?thesis
    by (simp add: visit_step_def wish_step_def prod_eq_iff)
qed

section \<open>The visit implements the wishes\<close>

lemma visit_step_ok:
  assumes "visit_ok a" and "ready_event e"
  shows "visit_ok (visit_step e a)" and "remembered (visit_step e a) = wish_step e (remembered a)"
  using assms toggle_step pick_step scheme_step load_step by (cases e; simp; fail)+

interpretation visit: simulation visit_step ready_event visit_ok wish_step remembered
  by unfold_locales (simp_all add: visit_step_ok)

section \<open>A page on which the hypotheses hold\<close>

definition demo_visit :: "jar \<Rightarrow> app" where
  "demo_visit j =
     \<lparr>shared = \<lparr>doc = Node 0 [Node 1 [Node 2 []], Node 3 [], Node 8 [Node 9 [], Node 10 [], Node 11 []]],
        heap = (\<lambda>u. if u = 0 then (new_elem ''HTML'')\<lparr>attrs := [(''data-theme'', ''dark'')]\<rparr>
          else if u = 2 then (new_elem ''BUTTON'')\<lparr>classes := [''nb-sidenav-toggler''],
            attrs := [(''aria-controls'', ''nav''), (''aria-expanded'', ''true'')]\<rparr>
          else if u = 3 then (new_elem ''NAV'')\<lparr>attrs := [(''id'', ''nav'')]\<rparr>
          else if u = 8 then (new_elem ''DIV'')\<lparr>attrs := [(''id'', ''theme_modal'')]\<rparr>
          else if u = 9 then (new_elem ''BUTTON'')\<lparr>attrs := [(''data-nb-theme'', ''dark'')]\<rparr>
          else if u = 10 then (new_elem ''BUTTON'')\<lparr>attrs := [(''data-nb-theme'', ''light'')]\<rparr>
          else if u = 11 then (new_elem ''BUTTON'')\<lparr>attrs := [(''data-nb-theme'', ''system'')]\<rparr>
          else new_elem ''DIV''),
        focus = None, cookie_jar = j, local_store = Some (\<lambda>k. None)\<rparr>,
      sidenav_vars = prefs_page.more (demo_sidenav [] False), theme_vars = prefs_page.more (demo_theme []),
      menu_text = Some ''{\"tabs\":{}}'', has_header_search = True, started = []\<rparr>"

lemma demo_visit_ready: "page_ready (demo_visit [])" and demo_visit_ok: "visit_ok (demo_visit [(''theme_choice'', ''dark''), (''theme'', ''dark'')])"
  by code_simp+

end
