(* ===== verification/Spec2Isabelle.thy ===== *)
theory Spec2Isabelle
  imports Checkbox_Copies Sidenav Theme Drawer Collapse Subtree Search_Popup Tabs Drop_Indicator Form_Utils Form_Widgets
    Select2 Filter_Form Custom_Field_Form Relationship_Form Formset Button_Spinner Rack_Elevations Page_Actions Page_Widgets
    Swagger_Auth Code_Editor Branch_Picker Clipboard Page_Details History_Types Filter_Markup Search_Markup
    Select2_Setup Formset_Links Form_Start
    Requests Destructors Tab_Sync Filter_Value Modal_Markup Theme_Drawings
    Formset_Button Layout_Units Search_Results Page_Order Swagger_Config Bundles Page_Session
begin

text \<open>
  The JavaScript user interface of Nautobot.

  Nautobot is a Django application; its pages come rendered from the server, and the scripts
  modelled here make them react. They are of two generations. The bundle below
  \<^verbatim>\<open>src/nautobot/ui/src/js/\<close> is started by one listener in \<^verbatim>\<open>nautobot.js\<close>: cookies, theme,
  side navigation, drawers, search, tables, tabs, panels, combo boxes. The older scripts below
  \<^verbatim>\<open>src/nautobot/project-static/js/\<close> serve the forms, the filter drawer, racks, cables and
  the code editor; \<^verbatim>\<open>src/nautobot/core/templates/swagger_ui.js\<close> serves the API documentation.
  The parts meet in four places: the document (every script reads and writes it), what the
  browser remembers (cookies, local and session storage, the state of the history entry), the
  event loop (timers, animation frames, dispatched events, answers of requests), and
  \<^verbatim>\<open>window.nb\<close>, through which the older scripts call the bundle.

  \<^bold>\<open>Conventions.\<close> A component is a record of its state, one definition per function or listener
  of the source, in the order of the source, and an event type where the component reacts to
  more than one kind of event. A listener either finishes or throws; in both cases it keeps
  the effects it has had (\<open>outcome\<close> of theory \<open>Prelude\<close>). Code that the scripts only call
  (Bootstrap, jQuery widgets, htmx, Monaco, fuse.js, flatpickr, lodash) is a parameter, an
  event, or a log of the requests sent to it; the layout of the browser is a function of the
  page. Every definition computes, so that the witnesses evaluate them.

  \<^bold>\<open>Foundations.\<close>
  \<^item> \<open>Prelude\<close>: strings, objects, arrays, \<open>parseInt\<close>, queries, outcomes; the locale
    \<open>guarded_machine\<close> (an invariant kept by every event that satisfies a guard), \<open>machine\<close> (by
    every event), \<open>simulation\<close> (a machine that implements another).
  \<^item> \<open>Event_Loop\<close>: the task queue with fuel (\<open>drain\<close>) and the locale \<open>task_loop\<close> (a queue that
    comes to rest within the cost of the state it starts in).
  \<^item> \<open>Dom\<close>: the document as a tree of element ids and a heap of elements, with selectors as
    predicates; \<open>Markup\<close>: fragments of markup the scripts build, with the operations on
    them that may raise an exception; \<open>Json\<close>: \<open>JSON.stringify\<close> and \<open>JSON.parse\<close> with their round trip.
  \<^item> \<open>Web_Storage\<close>: the locale \<open>kv_store\<close> and the web storage; \<open>Cookies\<close>: \<^verbatim>\<open>cookie.js\<close> on the
    text of \<open>document.cookie\<close>; \<open>Preferences\<close>: pages that remember choices.

  \<^bold>\<open>The bundle.\<close>
  \<^item> \<open>Checkbox\<close>, \<open>Checkbox_Copies\<close>: \<^verbatim>\<open>checkbox.js\<close>. Selection of rows, ranges with shift, the
    announcements that keep header and rows in agreement; what repeated initialization does.
  \<^item> \<open>Sidenav\<close>, \<open>Branch_Picker\<close>: \<^verbatim>\<open>sidenav.js\<close>. Toggler, remembered state, fly-outs with their
    listeners on the document; return addresses and dates of the version control.
  \<^item> \<open>Echarts\<close>, \<open>Theme\<close>, \<open>Theme_Drawings\<close>: \<^verbatim>\<open>echarts.js\<close>, \<^verbatim>\<open>theme.js\<close>. Overrides of chart options;
    the choice of a theme, what is in effect, everything that shows it, and embedded drawings.
  \<^item> \<open>History_State\<close>, \<open>Drawer\<close>, \<open>History_Types\<close>: \<^verbatim>\<open>history.js\<close>, \<^verbatim>\<open>drawer.js\<close>. The state of the
    history entry across a reload; drawers with the focus they take and give back; the shape
    both sides rely on, from page to page.
  \<^item> \<open>Collapse\<close>: \<^verbatim>\<open>collapse.js\<close>. Groups of panels, their saved state, one save per frame.
  \<^item> \<open>Subtree\<close>: \<^verbatim>\<open>tree.js\<close>. Rows below rows, connectors, and the address that remembers them.
  \<^item> \<open>Search\<close>, \<open>Search_Popup\<close>, \<open>Search_Markup\<close>, \<open>Search_Results\<close>: \<^verbatim>\<open>search.js\<close>. What happens inside
    the popup (models, badges, keyboard, mouse, debounced requests), the life of the popup around
    it, its elements with the selectors htmx is given, and the list of results as markup.
  \<^item> \<open>Tabs\<close>, \<open>Tab_Sync\<close>: \<^verbatim>\<open>tabs.js\<close>, \<^verbatim>\<open>utils.js\<close>. Which tabs fit, where the others go, and how the
    tab chosen in a clone stays chosen.
  \<^item> \<open>Draggable\<close>, \<open>Drop_Indicator\<close>: \<^verbatim>\<open>draggable.js\<close>. The place a dragged panel would take, the
    move, and the line that shows the place.
  \<^item> \<open>Select2\<close>, \<open>Select2_Setup\<close>: \<^verbatim>\<open>select2.js\<close>. Values, requests for choices, grouping of the
    answers; the options of each kind of box.
  \<^item> \<open>Button_Spinner\<close>: \<^verbatim>\<open>htmx-button-spinner.js\<close>; \<open>Clipboard\<close>: \<^verbatim>\<open>clipboard.js\<close>;
    \<open>Page_Actions\<close>, \<open>Page_Details\<close>, \<open>Modal_Markup\<close>: the modal, favorites, tooltips (\<^verbatim>\<open>modal.js\<close>, \<^verbatim>\<open>nautobot.js\<close>).
  \<^item> \<open>Destructors\<close>: which listeners the initializers of \<^verbatim>\<open>collapse.js\<close>, \<^verbatim>\<open>form.js\<close>, \<^verbatim>\<open>search.js\<close> and
    \<^verbatim>\<open>theme.js\<close> add, and which the functions they return remove.
  \<^item> \<open>Page_Start\<close>, \<open>Page_Session\<close>: the listener of \<^verbatim>\<open>nautobot.js\<close> that starts the components in
    order; a visit of many pages, with the preferences that come along. \<open>Page_Order\<close>: the names
    the bundle defines for other scripts, and the order of the listeners and timers of a page.
  \<^item> \<open>Bundles\<close>: \<^verbatim>\<open>webpack.config.js\<close>. The rules of the build, and the files that come out of it.

  \<^bold>\<open>The older scripts.\<close>
  \<^item> \<open>Form_Utils\<close>, \<open>Form_Widgets\<close>, \<open>Page_Widgets\<close>, \<open>Form_Start\<close>: \<^verbatim>\<open>forms.js\<close>, \<^verbatim>\<open>form.js\<close>,
    \<^verbatim>\<open>dropdown.js\<close>. Slugs and automatic fields; VLAN modes, paginator, submitting; previews and
    menus in tables; the order in which the inputs of a page are set up. \<open>Layout_Units\<close>: the text
    of a length (\<open>rem\<close> of \<^verbatim>\<open>utils.js\<close>) and the position of a menu.
  \<^item> \<open>Filter_Form\<close>, \<open>Filter_Markup\<close>, \<open>Filter_Value\<close>: \<^verbatim>\<open>filter_form.js\<close>. The basic and the advanced filter form
    and their synchronization; the markup of the badges, which implements them,
    and of the control of a value.
  \<^item> \<open>Custom_Field_Form\<close>, \<open>Relationship_Form\<close>: \<^verbatim>\<open>customfield_form.js\<close>, \<^verbatim>\<open>relationship_form.js\<close>.
  \<^item> \<open>Formset\<close>, \<open>Formset_Links\<close>, \<open>Formset_Button\<close>: \<^verbatim>\<open>jquery/jquery.formset.js\<close>. Numbering, adding
    and deleting rows, limits; where links and button go; templates of their own, callbacks.
  \<^item> \<open>Rack_Elevations\<close>, \<open>Page_Actions\<close>: \<^verbatim>\<open>rack_elevations.js\<close>, \<^verbatim>\<open>connection_toggles.js\<close>,
    \<^verbatim>\<open>interface_filtering.js\<close>.
  \<^item> \<open>Code_Editor\<close>: \<^verbatim>\<open>editor.js\<close>; \<open>Swagger_Auth\<close>, \<open>Swagger_Config\<close>: \<^verbatim>\<open>swagger_ui.js\<close>;
    \<open>Requests\<close>: \<^verbatim>\<open>secret_check.js\<close>, \<^verbatim>\<open>messages.js\<close>, \<^verbatim>\<open>cabletrace.js\<close>, one request each.

  \<^bold>\<open>Interfaces.\<close> \<open>kv_store\<close> is interpreted on cookies (with and without expiry) and on the web
  storage: what is read after a write or a removal, and that other keys are kept.
  \<open>task_loop\<close> is interpreted on the announcements of the checkboxes, the animation frames of a
  drawer and the timers of the copy buttons. \<open>machine\<close> is interpreted on every component whose state
  reacts to arbitrary sequences of events, \<open>guarded_machine\<close> on the navigation from page to page and
  on the calls of initializers and destructors,
  \<open>simulation\<close> on the listeners of an automatic field and the field they implement, and on a visit
  and the preferences it implements.

  \<^bold>\<open>What the lemmas show.\<close> Invariants over all sequences of events: header and rows agree once
  the announcements have been made; at most one drawer is open; the basic and the advanced filter form name the
  same filters; formset rows are numbered by position; fly-outs can always be closed.
  Functional behaviour: ranges of rows, wrap-around of the arrow keys, exact values of combo
  boxes, the theme in effect, where a panel lands. Round trips: cookies, JSON, the history
  state across a reload, the collapse state, rows of a tree, the choices of a custom field.
  Refinement and equivalence: an automatic field against a field that follows its sources until
  it is edited; many listeners against one; the markup of the filters against their badges.
  Types: what the history state may hold. Errors: what stays when a listener throws, who
  fails alone and who takes the rest down. Composition: what the start of a page leaves in
  force, and that over a whole visit theme and side navigation are remembered, shown and do not
  disturb each other; that scripts hear of a form whatever the order they are loaded in.

  \<^bold>\<open>Bounds and fuel.\<close> Three times the number of rows, plus 3, announcements settle a table
  (\<open>selection_settles\<close>); 101 frames end the polling for the focus of a drawer
  (\<open>focus_polling_ends\<close>), one attempt and 100 retries; the JSON parser runs with one unit of
  fuel more than the text has characters, each call consumes one (its round trip shows that
  this is enough for whatever \<open>stringify\<close> writes). Characters are code units below 256 and
  numbers in JSON are integers, which bounds what the model says of other text.

  \<^bold>\<open>Not modelled.\<close> The Django backend, which is written in Python. Third-party and generated
  code: Monaco, bootstrap-filestyle, the built bundles, and what the loaders of the build do.
  Files that only configure the linter or put libraries on \<open>window\<close> (\<^verbatim>\<open>eslint.config.js\<close>,
  \<^verbatim>\<open>nautobot-graphiql.js\<close>). The text of a length is modelled for root fonts whose size is a power
  of two, where the quotient is exact in floating point; other quotients are rounded.
\<close>

section \<open>Components that share a page\<close>



text \<open>
  C3: A visit implements two independent preferences: from the first page of the site on, however
  the user toggles the side navigation and picks themes, however the system changes its color
  scheme, and whatever pages are loaded in between, the theme that is remembered is the last
  one picked, the side navigation on the page is collapsed exactly when it was toggled so, and
  the document and the cookie for the server show the theme in effect.
\<close>

theorem visit_keeps_preferences:
  assumes "wf_jar (cookie_jar (shared a))" and "Sidenav.saved_state (shared a) = show_bool c" and "page_ready p"
    and "list_all ready_event es"
  shows "let first = load_page p a; q = fold visit_step es first;
      wish = fold wish_step es (fst (remembered first), c) in
    remembered q = wish \<and> is_valid_theme_choice (fst wish) \<and>
    toggler_expanded (shared q) = (\<not> snd wish) \<and>
    get_attr ''data-theme'' (heap (shared q) (root_elem (shared q))) = Some (determine_theme (theme_view q)) \<and>
    get_cookie theme_determined_cookie (cookie_jar (shared q)) = Some (determine_theme (theme_view q)) \<and>
    (is_valid_theme_choice (fst (remembered a)) \<longrightarrow> fst (remembered first) = fst (remembered a))"
proof -
  note first = page_loaded [OF assms(1-3)]
  let ?q = "fold visit_step es (load_page p a)"
  have ok: "visit_ok ?q" by (rule visit.guarded_run [OF first(1) assms(4)])
  have wish: "fold wish_step es (fst (remembered (load_page p a)), c) = remembered ?q"
    unfolding first(2) [symmetric] prod.collapse by (rule visit.sim_run [OF first(1) assms(4), symmetric])
  show ?thesis
    unfolding Let_def wish using ok first(3) by (simp add: remembered_shown [OF ok]) (simp add: visit_ok_def)
qed

lemma visit_keeps_preferences_witness:
  "remembered (fold visit_step [Toggle_Navigation, Pick_Theme ''light'', Load_Page (demo_visit []), Scheme_Change True,
      Pick_Theme ''system'', Toggle_Navigation, Toggle_Navigation] (load_page (demo_visit []) (demo_visit []))) =
    (Some ''system'', True)"
proof -
  let ?es = "[Toggle_Navigation, Pick_Theme ''light'', Load_Page (demo_visit []), Scheme_Change True, Pick_Theme ''system'',
    Toggle_Navigation, Toggle_Navigation]"
  have h: "wf_jar (cookie_jar (shared (demo_visit [])))" "Sidenav.saved_state (shared (demo_visit [])) = show_bool False"
    by code_simp+
  have "list_all ready_event ?es" using demo_visit_ready by simp
  moreover have "is_valid_theme_choice (Some ''light'')" "is_valid_theme_choice (Some ''system'')" by code_simp+
  ultimately show ?thesis
    using visit_keeps_preferences [OF h demo_visit_ready, of ?es] by (simp add: Let_def wish_step_def)
qed

text \<open>
  One missing script element takes the theme down with it: when a page has the search but
  no navigation menu, the start throws before the theme is set, the document keeps what the
  server rendered and the choice is not applied.
\<close>

theorem missing_menu_stops_the_start:
  assumes "init_sidenav (sidenav_view a) = Done s" and "started a = []"
    and "has_header_search a" and "menu_text a = None"
  shows "\<exists>q. on_dom_content_loaded a = Throw TypeError q \<and> started q = before_search \<and>
    heap (shared q) = heap s \<and> cookie_jar (shared q) = cookie_jar s"
  using assms(3,4) missing_menu_throws
  by (simp add: start_to_search [OF assms(1,2)] start_search_def)

lemma missing_menu_stops_the_start_witness:
  "''theme'' \<notin> set (started (final_state (on_dom_content_loaded (demo_app None True))))"
proof -
  obtain s where s: "init_sidenav (sidenav_view (demo_app None True)) = Done s" using demo_app_sidenav by blast
  have "started (demo_app None True) = []" "has_header_search (demo_app None True)" "menu_text (demo_app None True) = None"
    by (simp_all add: demo_app_def)
  from missing_menu_stops_the_start [OF s this] show ?thesis by auto
qed

text \<open>
  The color theme and the side navigation share the cookies of the site and the local
  storage, and neither disturbs the other: setting a theme keeps the remembered state of the
  side navigation, and toggling the side navigation keeps the choice, the effective theme and
  the cookie the server reads.
\<close>

theorem preferences_keep_apart:
  assumes "wf_jar (cookie_jar s)"
  shows "Sidenav.saved_state (final_state (set_theme theme s)) = Sidenav.saved_state s \<and>
    Sidenav.saved_state (final_state (on_click_theme b s)) = Sidenav.saved_state s \<and>
    get_cookie theme_choice_cookie (cookie_jar (final_state (toggle_sidenav s))) = get_cookie theme_choice_cookie (cookie_jar s) \<and>
    get_cookie theme_determined_cookie (cookie_jar (final_state (toggle_sidenav s))) =
      get_cookie theme_determined_cookie (cookie_jar s) \<and>
    determine_theme (final_state (toggle_sidenav s)) = determine_theme s"
proof -
  have set: "Sidenav.saved_state (final_state (set_theme th s)) = Sidenav.saved_state s" for th
    using other_cookies_kept [OF assms good_sidenav_cookie, of th]
    by (simp add: Sidenav.saved_state_def set_theme_final(4) split: option.split)
  have click: "Sidenav.saved_state (final_state (on_click_theme b s)) =
      Sidenav.saved_state (final_state (set_theme (get_attr ''data-nb-theme'' (heap s b)) s))"
    by (cases "set_theme (get_attr ''data-nb-theme'' (heap s b)) s")
       (simp_all add: on_click_theme_def Sidenav.saved_state_def split: option.split)
  have pref: "prefers_dark (final_state (toggle_sidenav s)) = prefers_dark s"
    by (auto simp: toggle_sidenav_def remember_collapsed_def Let_def upd_def split: option.split)
  note keep = sidenav_keeps_theme_cookies [OF assms]
  have "determine_theme (final_state (toggle_sidenav s)) = determine_theme s"
    by (rule determine_theme_cong) (simp_all add: keep pref)
  with set click keep show ?thesis by simp
qed

lemma preferences_keep_apart_witness:
  "determine_theme (final_state (toggle_sidenav (demo_theme [(''theme_choice'', ''dark'')]))) = theme_dark"
proof -
  have h: "wf_jar (cookie_jar (demo_theme [(''theme_choice'', ''dark'')]))" by code_simp
  moreover have "determine_theme (demo_theme [(''theme_choice'', ''dark'')]) = theme_dark" by code_simp
  ultimately show ?thesis using preferences_keep_apart [OF h] by simp
qed

text \<open>
  An editor that is made once the theme is initialized shows the theme in effect, unless
  its own options name another one.
\<close>

theorem new_editors_follow_theme:
  assumes "wf_jar (cookie_jar s)"
    and "make_config (get_attr ''data-theme'' (heap (final_state (init_theme s)) (root_elem s))) h = Inr c"
  shows "theme_name c = (if determine_theme (final_state (init_theme s)) = theme_dark then ''vs-dark'' else ''vs'') \<and>
    oget (editor_options c) ''theme'' =
      (case oget (c_options c) ''theme'' of
         Some v \<Rightarrow> Some v
       | None \<Rightarrow> Some (JStr (theme_name c)))"
proof -
  let ?t = "determine_theme (final_state (init_theme s))"
  have "get_attr ''data-theme'' (heap (final_state (init_theme s)) (root_elem s)) = Some ?t"
    using upgrade_keeps [OF assms(1)] theme_in_effect(2) [OF upgrade_keeps(1) [OF assms(1)], of None]
    by (simp add: init_theme_final Let_def)
  with assms(2) have "theme_name c = (if ?t = theme_dark then ''vs-dark'' else ''vs'')"
    by (auto simp: make_config_def theme_dark_def split: option.splits)
  moreover have "oget base_diff ''theme'' = None" "oget base_common ''theme'' = None"
    by (simp_all add: base_diff_def base_common_def)
  ultimately show ?thesis
    using host_options_win [OF assms(2), of "''theme''"] by (auto split: option.splits)
qed

lemma new_editors_follow_theme_witness:
  "\<exists>c. make_config (get_attr ''data-theme'' (heap (final_state (init_theme (demo_theme []))) 0)) (demo_host None) = Inr c \<and>
     theme_name c = (if determine_theme (final_state (init_theme (demo_theme []))) = theme_dark then ''vs-dark'' else ''vs'')"
proof -
  have w: "wf_jar (cookie_jar (demo_theme []))" and r: "root_elem (demo_theme []) = 0" by code_simp+
  have "json_parse ''{}'' = Some (JObj [])" by code_simp
  then obtain c where
    c: "make_config (get_attr ''data-theme'' (heap (final_state (init_theme (demo_theme []))) 0)) (demo_host None) = Inr c"
    by (simp add: make_config_def demo_host_def or_text_def)
  with new_editors_follow_theme [OF w, of "demo_host None" c] r show ?thesis by simp
qed

end
